theory Spec2Isabelle
  imports Main
begin

section \<open>Strings\<close>

text \<open>
  A TypeScript string is a sequence of code units. The model uses \<^typ>\<open>string\<close>, reading
  each \<^typ>\<open>char\<close> as one code unit in the range 0..255, so \<^const>\<open>length\<close> is the
  \<^verbatim>\<open>.length\<close> of the source string. The white space of \<^verbatim>\<open>trim()\<close> and of the regular
  expression class \<^verbatim>\<open>\s\<close> is, in that range: TAB, LF, VT, FF, CR, SPACE and NBSP.
\<close>

definition isWhitespace :: "char \<Rightarrow> bool" where
  "isWhitespace c \<longleftrightarrow>
     c = CHR 0x09 \<or> c = CHR 0x0A \<or> c = CHR 0x0B \<or> c = CHR 0x0C \<or> c = CHR 0x0D \<or>
     c = CHR 0x20 \<or> c = CHR 0xA0"

text \<open>\<^verbatim>\<open>s.trim()\<close>\<close>

definition trim :: "string \<Rightarrow> string" where
  "trim s = rev (dropWhile isWhitespace (rev (dropWhile isWhitespace s)))"

text \<open>
  \<^verbatim>\<open>s.split(/\s+/)\<close>: the pieces between maximal runs of white space. A leading or a
  trailing run leaves an empty piece at that end, and the empty string gives one empty piece.
\<close>

function split_ws :: "string \<Rightarrow> string list" where
  "split_ws [] = [[]]"
| "split_ws (c # cs) =
     (if isWhitespace c then [] # split_ws (dropWhile isWhitespace cs)
      else (case split_ws cs of [] \<Rightarrow> [[c]] | p # ps \<Rightarrow> (c # p) # ps))"
  by pat_completeness auto
termination
  by (relation "measure length") (auto simp: less_Suc_eq_le length_dropWhile_le)

text \<open>\<^verbatim>\<open>s.split('\n')\<close> and the like: the pieces between occurrences of one character.\<close>

fun split_char :: "char \<Rightarrow> string \<Rightarrow> string list" where
  "split_char d [] = [[]]"
| "split_char d (c # cs) =
     (if c = d then [] # split_char d cs
      else (case split_char d cs of [] \<Rightarrow> [[c]] | p # ps \<Rightarrow> (c # p) # ps))"

text \<open>\<^verbatim>\<open>s.startsWith(p)\<close> and \<^verbatim>\<open>s.endsWith(p)\<close>\<close>

definition startsWith :: "string \<Rightarrow> string \<Rightarrow> bool" where
  "startsWith s p \<longleftrightarrow> take (length p) s = p"

definition endsWith :: "string \<Rightarrow> string \<Rightarrow> bool" where
  "endsWith s p \<longleftrightarrow> length p \<le> length s \<and> drop (length s - length p) s = p"

text \<open>
  \<^verbatim>\<open>s.toLowerCase()\<close> on code units below 256: the letters A..Z and the upper-case
  letters of the Latin-1 supplement (0xC0..0xDE without the multiplication sign 0xD7)
  move up by 32, every other code unit stays.
\<close>

definition toLowerCase_char :: "char \<Rightarrow> char" where
  "toLowerCase_char c =
     (let n = (of_char c :: nat)
      in if (65 \<le> n \<and> n \<le> 90) \<or> (192 \<le> n \<and> n \<le> 222 \<and> n \<noteq> 215)
         then char_of (n + 32) else c)"

definition toLowerCase :: "string \<Rightarrow> string" where
  "toLowerCase s = map toLowerCase_char s"

text \<open>
  \<^verbatim>\<open>String(n)\<close> and \<^verbatim>\<open>`${n}`\<close> for a non-negative integer: its decimal digits.
\<close>

definition digit_char :: "nat \<Rightarrow> char" where
  "digit_char d = char_of (48 + d)"

function String_nat :: "nat \<Rightarrow> string" where
  "String_nat n =
     (if n < 10 then [digit_char n] else String_nat (n div 10) @ [digit_char (n mod 10)])"
  by pat_completeness auto
termination
  by (relation "measure id") auto

declare String_nat.simps [simp del]

text \<open>\<^verbatim>\<open>s.padStart(2, '0')\<close>\<close>

definition padStart2 :: "string \<Rightarrow> string" where
  "padStart2 s = replicate (2 - length s) CHR ''0'' @ s"

text \<open>
  The word characters of the regular expression class \<^verbatim>\<open>\w\<close>, and \<^verbatim>\<open>c.toUpperCase()\<close>
  on them (only the letters a..z change).
\<close>

definition isWordChar :: "char \<Rightarrow> bool" where
  "isWordChar c \<longleftrightarrow>
     (let n = (of_char c :: nat)
      in (48 \<le> n \<and> n \<le> 57) \<or> (65 \<le> n \<and> n \<le> 90) \<or> n = 95 \<or> (97 \<le> n \<and> n \<le> 122))"

definition toUpperCase_ascii :: "char \<Rightarrow> char" where
  "toUpperCase_ascii c =
     (let n = (of_char c :: nat) in if 97 \<le> n \<and> n \<le> 122 then char_of (n - 32) else c)"

text \<open>
  Matching a literal pattern of ASCII characters at the start of a string under the
  \<^verbatim>\<open>i\<close> flag: two code units match when they are equal after canonicalisation, which
  for an ASCII pattern character is the upper-casing of a..z (a code unit above 127 never
  canonicalises to an ASCII one). The rest of the string after the match is returned.
\<close>

fun match_literal_i :: "string \<Rightarrow> string \<Rightarrow> string option" where
  "match_literal_i [] s = Some s"
| "match_literal_i (p # ps) [] = None"
| "match_literal_i (p # ps) (c # cs) =
     (if toUpperCase_ascii c = toUpperCase_ascii p then match_literal_i ps cs else None)"

section \<open>Errors and the outside world\<close>

text \<open>
  A thrown value is an \<^verbatim>\<open>Error\<close> with its message and, for the errors of the file system,
  its \<^verbatim>\<open>code\<close>. An asynchronous operation takes the state of the world and returns the
  value it resolves to, or the error it rejects with, and the world after it.
\<close>

datatype error = Error (err_code: "string option") (err_message: string)

type_synonym ('a, 'w) io = "'w \<Rightarrow> (error + 'a) \<times> 'w"

record http_response =
  resp_ok :: bool
  resp_status :: nat
  resp_statusText :: string
  resp_text :: "error + string"

record pdf_data =
  pdf_text :: string
  pdf_info_Title :: "string option"
  pdf_info_Author :: "string option"

text \<open>
  A \<^verbatim>\<open>Date\<close>: the local calendar fields that \<^verbatim>\<open>generateTimestamp\<close> reads and the
  string \<^verbatim>\<open>toISOString()\<close> gives.
\<close>

record Date =
  getFullYear :: nat
  getMonth :: nat
  getDate :: nat
  getHours :: nat
  getMinutes :: nat
  getSeconds :: nat
  toISOString :: string

section \<open>The shared state (types.ts)\<close>

datatype InputType = Text | Pdf | Image | Url

text \<open>The string an input type is in the source: \<^verbatim>\<open>'text' | 'pdf' | 'image' | 'url'\<close>.\<close>

fun InputType_string :: "InputType \<Rightarrow> string" where
  "InputType_string Text = ''text''"
| "InputType_string Pdf = ''pdf''"
| "InputType_string Image = ''image''"
| "InputType_string Url = ''url''"

datatype LayerName =
  Initial_Capture | Key_Passages | Distilled_Insights | Executive_Summary | Creative_Output

fun LayerName_string :: "LayerName \<Rightarrow> string" where
  "LayerName_string Initial_Capture = ''Initial Capture''"
| "LayerName_string Key_Passages = ''Key Passages''"
| "LayerName_string Distilled_Insights = ''Distilled Insights''"
| "LayerName_string Executive_Summary = ''Executive Summary''"
| "LayerName_string Creative_Output = ''Creative Output''"

record state_input =
  input_raw :: string
  input_type :: "InputType option"
  input_focusArea :: "string option"
  input_outputFormat :: "string option"

record state_metadata =
  md_title :: string
  md_author :: "string option"
  md_date :: "string option"
  md_sourceType :: string
  md_wordCount :: nat

record state_content =
  content_raw :: string
  content_sections :: "string list option"

record state_layers =
  layer1 :: "string option"
  layer2 :: "string option"
  layer3 :: "string option"
  layer4 :: "string option"
  layer5 :: "string option"

record state_output =
  out_directory :: string
  out_timestamp :: "string option"
  out_slug :: "string option"
  out_savedFiles :: "string list"

record SharedState =
  input :: state_input
  metadata :: state_metadata
  content :: state_content
  layers :: state_layers
  output' :: state_output

record LayerEntry =
  le_level :: nat
  le_name :: LayerName
  le_content :: string

record processing_config =
  maxRetries :: nat
  retryWait :: nat

record Config =
  cfg_output_directory :: string
  cfg_processing :: processing_config

text \<open>
  \<^verbatim>\<open>defaultConfig\<close>; its \<^verbatim>\<open>llm\<close> part configures the text generation service, which is
  outside this model.
\<close>

definition defaultConfig :: Config where
  "defaultConfig =
     \<lparr>cfg_output_directory = ''./data/notes'',
      cfg_processing = \<lparr>maxRetries = 3, retryWait = 2\<rparr>\<rparr>"

text \<open>
  A value used as a condition (\<^verbatim>\<open>if (x)\<close>, \<^verbatim>\<open>x || y\<close>): an optional string counts as
  true when it is defined and not the empty string.
\<close>

fun truthy :: "string option \<Rightarrow> bool" where
  "truthy None = False"
| "truthy (Some s) = (s \<noteq> [])"

text \<open>\<^verbatim>\<open>x || y\<close> for an optional string \<open>x\<close> and a string \<open>y\<close>\<close>

definition or_else :: "string option \<Rightarrow> string \<Rightarrow> string" where
  "or_else x y = (case x of None \<Rightarrow> y | Some s \<Rightarrow> if s = [] then y else s)"

record init_options =
  opt_focusArea :: "string option"
  opt_outputFormat :: "string option"
  opt_outputDirectory :: "string option"

definition createInitialState :: "string \<Rightarrow> init_options option \<Rightarrow> SharedState" where
  "createInitialState inp options =
     \<lparr>input = \<lparr>input_raw = inp, input_type = None,
               input_focusArea = (case options of None \<Rightarrow> None | Some opts \<Rightarrow> opt_focusArea opts),
               input_outputFormat =
                 (case options of None \<Rightarrow> None | Some opts \<Rightarrow> opt_outputFormat opts)\<rparr>,
      metadata = \<lparr>md_title = [], md_author = None, md_date = None, md_sourceType = [],
                  md_wordCount = 0\<rparr>,
      content = \<lparr>content_raw = [], content_sections = None\<rparr>,
      layers = \<lparr>layer1 = None, layer2 = None, layer3 = None, layer4 = None, layer5 = None\<rparr>,
      output' = \<lparr>out_directory =
                  or_else (case options of None \<Rightarrow> None | Some opts \<Rightarrow> opt_outputDirectory opts)
                    ''./data/notes'',
                out_timestamp = None, out_slug = None, out_savedFiles = []\<rparr>\<rparr>"

section \<open>The services the nodes call\<close>

text \<open>
  What a layer node sends to the text generation service. Each layer's prompt is a fixed
  template filled with the node's prepared input, so a request is identified by the layer
  and that input.
\<close>

record Layer1_PrepResult =
  p1_content :: string
  p1_title :: string
  p1_focusArea :: "string option"
  p1_sourceType :: string
  p1_author :: "string option"
  p1_date :: "string option"

record Layer3_PrepResult =
  p3_layer2 :: string
  p3_originalWordCount :: nat

record Layer4_PrepResult =
  p4_layer3 :: string
  p4_title :: string
  p4_author :: "string option"

record Layer5_PrepResult =
  p5_layer3 :: string
  p5_layer4 :: string
  p5_title :: string
  p5_outputFormat :: "string option"
  p5_sourceType :: string

datatype llm_request =
    Layer1_prompt Layer1_PrepResult
  | Layer2_prompt string
  | Layer3_prompt Layer3_PrepResult
  | Layer4_prompt Layer4_PrepResult
  | Layer5_prompt Layer5_PrepResult

text \<open>
  The platform and library operations the program calls, as functions of the state of the
  world \<open>'w\<close>: the \<^verbatim>\<open>URL\<close> constructor, \<^verbatim>\<open>fetch\<close>, reading and parsing a PDF file,
  \<^verbatim>\<open>callLlm\<close>, the \<^verbatim>\<open>slugify\<close> library, the clock, \<^verbatim>\<open>mkdir\<close>, \<^verbatim>\<open>writeFile\<close>,
  \<^verbatim>\<open>path.join\<close>, \<^verbatim>\<open>JSON.stringify\<close> and the engine's wait between two attempts. The
  HTML helpers of the URL extractor (\<^verbatim>\<open>htmlToText\<close>, \<^verbatim>\<open>extractTitleFromHTML\<close>,
  \<^verbatim>\<open>extractTitleFromURL\<close>) are taken the same way: every statement below holds for any
  behaviour of these operations.
\<close>

record 'w services =
  URL_new :: "string \<Rightarrow> error + unit"
  fetch :: "string \<Rightarrow> (http_response, 'w) io"
  pdf_parse_file :: "string \<Rightarrow> (pdf_data, 'w) io"
  htmlToText :: "string \<Rightarrow> string"
  extractTitleFromHTML :: "string \<Rightarrow> string option"
  extractTitleFromURL :: "string \<Rightarrow> string"
  callLlm :: "llm_request \<Rightarrow> (string, 'w) io"
  slugifyLib :: "string \<Rightarrow> string"
  new_Date :: "'w \<Rightarrow> Date"
  fs_mkdir :: "string \<Rightarrow> (unit, 'w) io"
  fs_writeFile :: "string \<Rightarrow> string \<Rightarrow> (unit, 'w) io"
  path_join :: "string \<Rightarrow> string \<Rightarrow> string"
  JSON_stringify :: "LayerEntry \<Rightarrow> string"
  wait_seconds :: "nat \<Rightarrow> 'w \<Rightarrow> 'w"

section \<open>Content extraction helpers (utils/extractors.ts)\<close>

record extraction_metadata =
  em_title :: "string option"
  em_author :: "string option"
  em_date :: "string option"
  em_wordCount :: nat

record ExtractionResult =
  er_content :: string
  er_metadata :: extraction_metadata

text \<open>\<^verbatim>\<open>text.trim().split(/\s+/).filter(Boolean).length\<close>\<close>

definition countWords :: "string \<Rightarrow> nat" where
  "countWords text = length (filter (\<lambda>p. p \<noteq> []) (split_ws (trim text)))"

text \<open>
  \<^verbatim>\<open>extractTitleFromText\<close>: the first line of the trimmed text, trimmed itself, or
  \<^verbatim>\<open>'Untitled'\<close> when that is empty; a heading loses its leading \<^verbatim>\<open>#\<close> marks and the
  white space after them (\<^verbatim>\<open>replace(/^#+\s*/, '')\<close>); a line of more than 100 code units
  is cut to 97 and gets three dots.
\<close>

definition extractTitleFromText :: "string \<Rightarrow> string" where
  "extractTitleFromText text =
     (let lines = split_char CHR 0x0A (trim text);
          firstLine = (case lines of [] \<Rightarrow> ''Untitled''
                       | l # _ \<Rightarrow> (if trim l = [] then ''Untitled'' else trim l))
      in if startsWith firstLine ''#''
         then dropWhile isWhitespace (dropWhile (\<lambda>c. c = CHR ''#'') firstLine)
         else if length firstLine \<le> 100 then firstLine
         else take 97 firstLine @ ''...'')"

definition extractFromText :: "string \<Rightarrow> ExtractionResult" where
  "extractFromText inp =
     (let wordCount = countWords inp;
          title = extractTitleFromText inp
      in \<lparr>er_content = inp,
          er_metadata = \<lparr>em_title = Some title, em_author = None, em_date = None,
                         em_wordCount = wordCount\<rparr>\<rparr>)"

text \<open>
  \<^verbatim>\<open>extractTitleFromPath\<close>: the last piece of the path (the whole path when that piece
  is empty), without its extension (\<^verbatim>\<open>replace(/\.[^.]+$/, '')\<close>: the last dot and what
  follows it, when something follows it), with hyphens and underscores turned into spaces
  and the first letter of every word upper-cased (\<^verbatim>\<open>replace(/\b\w/g, ...)\<close>).
\<close>

definition remove_extension :: "string \<Rightarrow> string" where
  "remove_extension s =
     (let after = takeWhile (\<lambda>c. c \<noteq> CHR ''.'') (rev s)
      in if length after < length s \<and> after \<noteq> []
         then take (length s - length after - 1) s else s)"

fun capitalize_words :: "bool \<Rightarrow> string \<Rightarrow> string" where
  "capitalize_words prevWord [] = []"
| "capitalize_words prevWord (c # cs) =
     (if isWordChar c \<and> \<not> prevWord then toUpperCase_ascii c else c)
       # capitalize_words (isWordChar c) cs"

definition extractTitleFromPath :: "string \<Rightarrow> string" where
  "extractTitleFromPath filePath =
     (let fileName = or_else (Some (last (split_char CHR ''/'' filePath))) filePath
      in capitalize_words False
           (map (\<lambda>c. if c = CHR ''-'' \<or> c = CHR ''_'' then CHR '' '' else c)
              (remove_extension fileName)))"

text \<open>
  A caught error is thrown again as a new \<^verbatim>\<open>Error\<close> whose message is a prefix and the
  message of the caught one.
\<close>

definition rethrow :: "string \<Rightarrow> error \<Rightarrow> error" where
  "rethrow pre e = Error None (pre @ err_message e)"

definition extractFromPDF :: "'w services \<Rightarrow> string \<Rightarrow> (ExtractionResult, 'w) io" where
  "extractFromPDF svc filePath w =
     (case pdf_parse_file svc filePath w of
        (Inl e, w') \<Rightarrow> (Inl (rethrow ''Failed to extract PDF content: '' e), w')
      | (Inr data, w') \<Rightarrow>
          (let content = pdf_text data;
               wordCount = countWords content
           in (Inr \<lparr>er_content = content,
                    er_metadata =
                      \<lparr>em_title = Some (or_else (pdf_info_Title data) (extractTitleFromPath filePath)),
                       em_author = pdf_info_Author data, em_date = None,
                       em_wordCount = wordCount\<rparr>\<rparr>, w')))"

definition extractFromImage :: "string \<Rightarrow> ExtractionResult" where
  "extractFromImage filePath =
     \<lparr>er_content = ''[Image content from: '' @ filePath @ '']'' @ [CHR 0x0A, CHR 0x0A] @
        ''Note: OCR extraction requires tesseract.js or cloud OCR integration.'',
      er_metadata = \<lparr>em_title = Some (extractTitleFromPath filePath), em_author = None,
                     em_date = None, em_wordCount = 0\<rparr>\<rparr>"

definition extractFromURL :: "'w services \<Rightarrow> string \<Rightarrow> (ExtractionResult, 'w) io" where
  "extractFromURL svc u w =
     (case fetch svc u w of
        (Inl e, w') \<Rightarrow> (Inl (rethrow ''Failed to fetch URL content: '' e), w')
      | (Inr response, w') \<Rightarrow>
          if \<not> resp_ok response
          then (Inl (rethrow ''Failed to fetch URL content: ''
                      (Error None (''HTTP '' @ String_nat (resp_status response) @ '': '' @
                         resp_statusText response))), w')
          else (case resp_text response of
                  Inl e \<Rightarrow> (Inl (rethrow ''Failed to fetch URL content: '' e), w')
                | Inr html \<Rightarrow>
                    (let content = htmlToText svc html;
                         wordCount = countWords content;
                         title = or_else (extractTitleFromHTML svc html) (extractTitleFromURL svc u)
                     in (Inr \<lparr>er_content = content,
                              er_metadata =
                                \<lparr>em_title = Some title, em_author = None,
                                 em_date = Some (toISOString (new_Date svc w')),
                                 em_wordCount = wordCount\<rparr>\<rparr>, w'))))"

section \<open>File helpers (utils/files.ts)\<close>

record LayerMetadata =
  lm_title :: string
  lm_layer :: nat
  lm_layerName :: LayerName
  lm_sourceType :: string
  lm_created :: string
  lm_wordCount :: nat
  lm_author :: "string option"

definition slugify :: "'w services \<Rightarrow> string \<Rightarrow> string" where
  "slugify svc title = slugifyLib svc title"

definition generateTimestamp :: "Date \<Rightarrow> string" where
  "generateTimestamp d =
     (let year = String_nat (getFullYear d);
          month = padStart2 (String_nat (getMonth d + 1));
          day = padStart2 (String_nat (getDate d));
          hours = padStart2 (String_nat (getHours d));
          minutes = padStart2 (String_nat (getMinutes d));
          seconds = padStart2 (String_nat (getSeconds d))
      in year @ month @ day @ ''-'' @ hours @ minutes @ seconds)"

definition generateLayerFilename :: "string \<Rightarrow> string \<Rightarrow> nat \<Rightarrow> string" where
  "generateLayerFilename timestamp slug level =
     timestamp @ ''_'' @ slug @ ''_level-'' @ String_nat level @ ''.md''"

definition ensureDirectory :: "'w services \<Rightarrow> string \<Rightarrow> (unit, 'w) io" where
  "ensureDirectory svc dirPath w =
     (case fs_mkdir svc dirPath w of
        (Inl e, w') \<Rightarrow> if err_code e \<noteq> Some ''EEXIST'' then (Inl e, w') else (Inr (), w')
      | (Inr u, w') \<Rightarrow> (Inr (), w'))"

text \<open>\<^verbatim>\<open>str.replace(/"/g, '\\"')\<close>: a backslash before every double quote.\<close>

definition escapeYamlString :: "string \<Rightarrow> string" where
  "escapeYamlString str = concat (map (\<lambda>c. if c = CHR 0x22 then [CHR 0x5C, CHR 0x22] else [c]) str)"

text \<open>\<^verbatim>\<open>lines.join('\n')\<close>\<close>

fun join_lines :: "string list \<Rightarrow> string" where
  "join_lines [] = []"
| "join_lines [l] = l"
| "join_lines (l # ls) = l @ [CHR 0x0A] @ join_lines ls"

definition generateFrontmatter :: "LayerMetadata \<Rightarrow> string" where
  "generateFrontmatter md =
     (let lines =
            [''---'',
             ''title: '' @ [CHR 0x22] @ escapeYamlString (lm_title md) @ [CHR 0x22],
             ''layer: '' @ String_nat (lm_layer md),
             ''layer_name: '' @ [CHR 0x22] @ LayerName_string (lm_layerName md) @ [CHR 0x22],
             ''source: '' @ [CHR 0x22] @ lm_sourceType md @ [CHR 0x22],
             ''created: '' @ [CHR 0x22] @ lm_created md @ [CHR 0x22],
             ''word_count: '' @ String_nat (lm_wordCount md)];
          lines1 =
            (if truthy (lm_author md)
             then lines @ [''author: '' @ [CHR 0x22] @ escapeYamlString (the (lm_author md)) @ [CHR 0x22]]
             else lines)
      in join_lines (lines1 @ [''---'', '''']))"

definition saveLayer ::
  "'w services \<Rightarrow> string \<Rightarrow> string \<Rightarrow> string \<Rightarrow> LayerMetadata \<Rightarrow> (string, 'w) io" where
  "saveLayer svc directory filename cont md w =
     (case ensureDirectory svc directory w of
        (Inl e, w1) \<Rightarrow> (Inl e, w1)
      | (Inr u, w1) \<Rightarrow>
          (let filePath = path_join svc directory filename;
               frontmatter = generateFrontmatter md;
               header = ''# L'' @ String_nat (lm_layer md) @ '': '' @ lm_title md @ '' - '' @
                        LayerName_string (lm_layerName md) @ [CHR 0x0A, CHR 0x0A];
               fullContent = frontmatter @ header @ cont
           in (case fs_writeFile svc filePath fullContent w1 of
                 (Inl e, w2) \<Rightarrow> (Inl e, w2)
               | (Inr u', w2) \<Rightarrow> (Inr filePath, w2))))"

text \<open>\<^verbatim>\<open>names[level] || 'Initial Capture'\<close>\<close>

definition getLayerName :: "nat \<Rightarrow> LayerName" where
  "getLayerName level =
     (if level = 2 then Key_Passages else if level = 3 then Distilled_Insights
      else if level = 4 then Executive_Summary else if level = 5 then Creative_Output
      else Initial_Capture)"

section \<open>The nodes (nodes/*.ts)\<close>

subsection \<open>InputDetectorNode\<close>

text \<open>
  \<^verbatim>\<open>input.match(/^https?:\/\//i)\<close>: the letters \<^verbatim>\<open>http\<close> in any case, an optional
  \<^verbatim>\<open>s\<close> in any case, then \<^verbatim>\<open>://\<close>, at the start of the input.
\<close>

definition regex_http_scheme :: "string \<Rightarrow> bool" where
  "regex_http_scheme s =
     (case match_literal_i ''http'' s of
        None \<Rightarrow> False
      | Some r \<Rightarrow>
          (case match_literal_i ''s'' r of
             Some r' \<Rightarrow> match_literal_i ''://'' r' \<noteq> None \<or> match_literal_i ''://'' r \<noteq> None
           | None \<Rightarrow> match_literal_i ''://'' r \<noteq> None))"

definition isUrl :: "'w services \<Rightarrow> string \<Rightarrow> bool" where
  "isUrl svc inp =
     (if \<not> regex_http_scheme inp then False
      else (case URL_new svc inp of Inr u \<Rightarrow> True | Inl e \<Rightarrow> False))"

definition isPdfFile :: "string \<Rightarrow> bool" where
  "isPdfFile inp = endsWith (toLowerCase inp) ''.pdf''"

definition isImageFile :: "string \<Rightarrow> bool" where
  "isImageFile inp =
     (let imageExtensions = [''.png'', ''.jpg'', ''.jpeg'', ''.gif'', ''.bmp'', ''.webp'', ''.tiff''];
          lower = toLowerCase inp
      in list_ex (\<lambda>ext. endsWith lower ext) imageExtensions)"

definition InputDetector_prep :: "SharedState \<Rightarrow> string" where
  "InputDetector_prep shared = input_raw (input shared)"

definition InputDetector_exec :: "'w services \<Rightarrow> string \<Rightarrow> (InputType, 'w) io" where
  "InputDetector_exec svc inp w =
     (let trimmed = trim inp
      in if isUrl svc trimmed then (Inr Url, w)
         else if isPdfFile trimmed then (Inr Pdf, w)
         else if isImageFile trimmed then (Inr Image, w)
         else (Inr Text, w))"

definition InputDetector_post :: "SharedState \<Rightarrow> string \<Rightarrow> InputType \<Rightarrow> string \<times> SharedState" where
  "InputDetector_post shared prepRes inputType =
     (InputType_string inputType,
      shared\<lparr>input := (input shared)\<lparr>input_type := Some inputType\<rparr>\<rparr>)"

subsection \<open>ContentExtractorNode\<close>

record Extractor_PrepResult =
  pe_raw :: string
  pe_type :: InputType

definition ContentExtractor_prep :: "SharedState \<Rightarrow> Extractor_PrepResult" where
  "ContentExtractor_prep shared =
     \<lparr>pe_raw = input_raw (input shared),
      pe_type = (case input_type (input shared) of None \<Rightarrow> Text | Some t \<Rightarrow> t)\<rparr>"

definition ContentExtractor_exec ::
  "'w services \<Rightarrow> Extractor_PrepResult \<Rightarrow> (ExtractionResult, 'w) io" where
  "ContentExtractor_exec svc prepRes w =
     (case pe_type prepRes of
        Pdf \<Rightarrow> extractFromPDF svc (pe_raw prepRes) w
      | Image \<Rightarrow> (Inr (extractFromImage (pe_raw prepRes)), w)
      | Url \<Rightarrow> extractFromURL svc (pe_raw prepRes) w
      | Text \<Rightarrow> (Inr (extractFromText (pe_raw prepRes)), w))"

definition ContentExtractor_post ::
  "'w services \<Rightarrow> SharedState \<Rightarrow> Extractor_PrepResult \<Rightarrow> ExtractionResult \<Rightarrow> 'w
     \<Rightarrow> string \<times> SharedState" where
  "ContentExtractor_post svc shared prepRes result w =
     (let shared1 = shared\<lparr>content := (content shared)\<lparr>content_raw := er_content result\<rparr>\<rparr>;
          shared2 = shared1\<lparr>metadata :=
            \<lparr>md_title = or_else (em_title (er_metadata result)) ''Untitled'',
             md_author = em_author (er_metadata result),
             md_date = em_date (er_metadata result),
             md_sourceType =
               (case input_type (input shared1) of None \<Rightarrow> ''text'' | Some t \<Rightarrow> InputType_string t),
             md_wordCount = em_wordCount (er_metadata result)\<rparr>\<rparr>;
          shared3 = shared2\<lparr>output' :=
            (output' shared2)\<lparr>out_timestamp := Some (generateTimestamp (new_Date svc w))\<rparr>\<rparr>;
          shared4 = shared3\<lparr>output' :=
            (output' shared3)\<lparr>out_slug := Some (slugify svc (md_title (metadata shared3)))\<rparr>\<rparr>
      in (''default'', shared4))"

subsection \<open>The five layer nodes\<close>

definition Layer1_prep :: "SharedState \<Rightarrow> Layer1_PrepResult" where
  "Layer1_prep shared =
     \<lparr>p1_content = content_raw (content shared),
      p1_title = md_title (metadata shared),
      p1_focusArea = input_focusArea (input shared),
      p1_sourceType = md_sourceType (metadata shared),
      p1_author = md_author (metadata shared),
      p1_date = md_date (metadata shared)\<rparr>"

definition Layer1_exec :: "'w services \<Rightarrow> Layer1_PrepResult \<Rightarrow> (string, 'w) io" where
  "Layer1_exec svc prepRes w = callLlm svc (Layer1_prompt prepRes) w"

definition Layer1_post :: "SharedState \<Rightarrow> Layer1_PrepResult \<Rightarrow> string \<Rightarrow> string \<times> SharedState" where
  "Layer1_post shared prepRes result =
     (''default'', shared\<lparr>layers := (layers shared)\<lparr>layer1 := Some result\<rparr>\<rparr>)"

definition Layer2_prep :: "SharedState \<Rightarrow> string" where
  "Layer2_prep shared = or_else (layer1 (layers shared)) []"

definition Layer2_exec :: "'w services \<Rightarrow> string \<Rightarrow> (string, 'w) io" where
  "Layer2_exec svc layer1Content w = callLlm svc (Layer2_prompt layer1Content) w"

definition Layer2_post :: "SharedState \<Rightarrow> string \<Rightarrow> string \<Rightarrow> string \<times> SharedState" where
  "Layer2_post shared prepRes result =
     (''default'', shared\<lparr>layers := (layers shared)\<lparr>layer2 := Some result\<rparr>\<rparr>)"

definition Layer3_prep :: "SharedState \<Rightarrow> Layer3_PrepResult" where
  "Layer3_prep shared =
     \<lparr>p3_layer2 = or_else (layer2 (layers shared)) [],
      p3_originalWordCount = md_wordCount (metadata shared)\<rparr>"

definition Layer3_exec :: "'w services \<Rightarrow> Layer3_PrepResult \<Rightarrow> (string, 'w) io" where
  "Layer3_exec svc prepRes w = callLlm svc (Layer3_prompt prepRes) w"

definition Layer3_post :: "SharedState \<Rightarrow> Layer3_PrepResult \<Rightarrow> string \<Rightarrow> string \<times> SharedState" where
  "Layer3_post shared prepRes result =
     (''default'', shared\<lparr>layers := (layers shared)\<lparr>layer3 := Some result\<rparr>\<rparr>)"

definition Layer4_prep :: "SharedState \<Rightarrow> Layer4_PrepResult" where
  "Layer4_prep shared =
     \<lparr>p4_layer3 = or_else (layer3 (layers shared)) [],
      p4_title = md_title (metadata shared),
      p4_author = md_author (metadata shared)\<rparr>"

definition Layer4_exec :: "'w services \<Rightarrow> Layer4_PrepResult \<Rightarrow> (string, 'w) io" where
  "Layer4_exec svc prepRes w = callLlm svc (Layer4_prompt prepRes) w"

definition Layer4_post :: "SharedState \<Rightarrow> Layer4_PrepResult \<Rightarrow> string \<Rightarrow> string \<times> SharedState" where
  "Layer4_post shared prepRes result =
     (''default'', shared\<lparr>layers := (layers shared)\<lparr>layer4 := Some result\<rparr>\<rparr>)"

definition Layer5_prep :: "SharedState \<Rightarrow> Layer5_PrepResult" where
  "Layer5_prep shared =
     \<lparr>p5_layer3 = or_else (layer3 (layers shared)) [],
      p5_layer4 = or_else (layer4 (layers shared)) [],
      p5_title = md_title (metadata shared),
      p5_outputFormat = input_outputFormat (input shared),
      p5_sourceType = md_sourceType (metadata shared)\<rparr>"

definition Layer5_exec :: "'w services \<Rightarrow> Layer5_PrepResult \<Rightarrow> (string, 'w) io" where
  "Layer5_exec svc prepRes w = callLlm svc (Layer5_prompt prepRes) w"

definition Layer5_post :: "SharedState \<Rightarrow> Layer5_PrepResult \<Rightarrow> string \<Rightarrow> string \<times> SharedState" where
  "Layer5_post shared prepRes result =
     (''default'', shared\<lparr>layers := (layers shared)\<lparr>layer5 := Some result\<rparr>\<rparr>)"

subsection \<open>FileSaverNode\<close>

record LayerConfig =
  lc_level :: nat
  lc_name :: LayerName
  lc_key :: "state_layers \<Rightarrow> string option"

definition layerConfigs :: "LayerConfig list" where
  "layerConfigs =
     [\<lparr>lc_level = 1, lc_name = Initial_Capture, lc_key = layer1\<rparr>,
      \<lparr>lc_level = 2, lc_name = Key_Passages, lc_key = layer2\<rparr>,
      \<lparr>lc_level = 3, lc_name = Distilled_Insights, lc_key = layer3\<rparr>,
      \<lparr>lc_level = 4, lc_name = Executive_Summary, lc_key = layer4\<rparr>,
      \<lparr>lc_level = 5, lc_name = Creative_Output, lc_key = layer5\<rparr>]"

text \<open>
  The loop of \<^verbatim>\<open>prep\<close>: an entry is pushed for every configuration whose layer slot holds
  a non-empty string.
\<close>

fun prep_entries :: "SharedState \<Rightarrow> LayerConfig list \<Rightarrow> LayerEntry list" where
  "prep_entries shared [] = []"
| "prep_entries shared (config # configs) =
     (let cont = lc_key config (layers shared)
      in if truthy cont
         then \<lparr>le_level = lc_level config, le_name = lc_name config, le_content = the cont\<rparr>
                # prep_entries shared configs
         else prep_entries shared configs)"

definition FileSaver_prep :: "SharedState \<Rightarrow> LayerEntry list" where
  "FileSaver_prep shared = prep_entries shared layerConfigs"

definition FileSaver_exec :: "'w services \<Rightarrow> LayerEntry \<Rightarrow> (string, 'w) io" where
  "FileSaver_exec svc entry w = (Inr (JSON_stringify svc entry), w)"

text \<open>
  The loop of \<^verbatim>\<open>post\<close> over the entries, with the local list \<^verbatim>\<open>savedFiles\<close> as
  accumulator; \<open>save_entry\<close> is one pass through its body, up to the call of
  \<^verbatim>\<open>saveLayer\<close>. An error of \<^verbatim>\<open>saveLayer\<close> leaves the loop and the function.
\<close>

definition save_entry ::
  "'w services \<Rightarrow> SharedState \<Rightarrow> string \<Rightarrow> string \<Rightarrow> string \<Rightarrow> LayerEntry \<Rightarrow> (string, 'w) io" where
  "save_entry svc shared timestamp slug directory entry w =
     (let filename = generateLayerFilename timestamp slug (le_level entry);
          md = \<lparr>lm_title = md_title (metadata shared),
                lm_layer = le_level entry,
                lm_layerName = le_name entry,
                lm_sourceType = md_sourceType (metadata shared),
                lm_created = toISOString (new_Date svc w),
                lm_wordCount = countWords (le_content entry),
                lm_author = md_author (metadata shared)\<rparr>
      in saveLayer svc directory filename (le_content entry) md w)"

fun save_entries ::
  "'w services \<Rightarrow> SharedState \<Rightarrow> string \<Rightarrow> string \<Rightarrow> string \<Rightarrow> LayerEntry list \<Rightarrow> string list
     \<Rightarrow> (string list, 'w) io" where
  "save_entries svc shared timestamp slug directory [] savedFiles w = (Inr savedFiles, w)"
| "save_entries svc shared timestamp slug directory (entry # entries) savedFiles w =
     (case save_entry svc shared timestamp slug directory entry w of
        (Inl e, w') \<Rightarrow> (Inl e, w')
      | (Inr filePath, w') \<Rightarrow>
          save_entries svc shared timestamp slug directory entries (savedFiles @ [filePath]) w')"

definition FileSaver_post ::
  "'w services \<Rightarrow> SharedState \<Rightarrow> LayerEntry list \<Rightarrow> string list \<Rightarrow> 'w
     \<Rightarrow> (error + string) \<times> SharedState \<times> 'w" where
  "FileSaver_post svc shared entries results w =
     (let timestamp = or_else (out_timestamp (output' shared)) [];
          slug = or_else (out_slug (output' shared)) ''untitled'';
          directory = out_directory (output' shared)
      in (case save_entries svc shared timestamp slug directory entries [] w of
            (Inl e, w') \<Rightarrow> (Inl e, shared, w')
          | (Inr savedFiles, w') \<Rightarrow>
              (Inr ''default'',
               shared\<lparr>output' := (output' shared)\<lparr>out_savedFiles := savedFiles\<rparr>\<rparr>, w')))"

section \<open>The flow engine\<close>

text \<open>
  The classes \<^verbatim>\<open>Node\<close>, \<^verbatim>\<open>BatchNode\<close> and \<^verbatim>\<open>Flow\<close> that the nodes and the flow
  extend are the engine of the package \<^verbatim>\<open>pocketflow\<close>, a dependency whose code is not
  part of the program's sources. This section follows the specification of the
  orchestration core.
\<close>

text \<open>
  Modelled from the spec: the retry policy a node declares (4.3), a maximum attempt count
  and a fixed wait between two attempts, in seconds; they are fields of the engine's class
  \<^verbatim>\<open>Node\<close>.
\<close>

record retry_policy =
  node_maxRetries :: nat
  node_wait :: nat

text \<open>
  Modelled from the spec: the retry loop of a node's execute phase (4.3), which is in the
  engine's class \<^verbatim>\<open>Node\<close>. Execute is invoked with the prepared input; on a failure the engine waits
  the configured duration and invokes execute again with the same prepared input; the last
  argument counts the attempts that may still follow. No node of this program supplies a
  fallback result, so the failure of the last attempt is propagated.
\<close>

primrec exec_attempts ::
  "(nat \<Rightarrow> 'w \<Rightarrow> 'w) \<Rightarrow> nat \<Rightarrow> ('p \<Rightarrow> ('r, 'w) io) \<Rightarrow> 'p \<Rightarrow> nat \<Rightarrow> ('r, 'w) io" where
  "exec_attempts wt secs ex p 0 w = ex p w"
| "exec_attempts wt secs ex p (Suc k) w =
     (case ex p w of
        (Inr r, w') \<Rightarrow> (Inr r, w')
      | (Inl e, w') \<Rightarrow> exec_attempts wt secs ex p k (wt secs w'))"

text \<open>
  Modelled from the spec: the execute phase of a node under its retry policy (4.3), which
  is in the engine's class \<^verbatim>\<open>Node\<close>: at most the declared maximum number of attempts
  (one attempt is always made).
\<close>

definition Node_exec ::
  "'w services \<Rightarrow> retry_policy \<Rightarrow> ('p \<Rightarrow> ('r, 'w) io) \<Rightarrow> 'p \<Rightarrow> ('r, 'w) io" where
  "Node_exec svc pol ex p w =
     exec_attempts (wait_seconds svc) (node_wait pol) ex p (node_maxRetries pol - 1) w"

text \<open>
  Modelled from the spec: the execute phase of a batch node (4.4), which is in the engine's
  class \<^verbatim>\<open>BatchNode\<close>: execute is applied once per item under the retry policy, here
  one item after the other, and the results are collected in the order of the items.
\<close>

fun BatchNode_exec ::
  "'w services \<Rightarrow> retry_policy \<Rightarrow> ('p \<Rightarrow> ('r, 'w) io) \<Rightarrow> 'p list \<Rightarrow> ('r list, 'w) io" where
  "BatchNode_exec svc pol ex [] w = (Inr [], w)"
| "BatchNode_exec svc pol ex (item # items) w =
     (case Node_exec svc pol ex item w of
        (Inl e, w') \<Rightarrow> (Inl e, w')
      | (Inr r, w') \<Rightarrow>
          (case BatchNode_exec svc pol ex items w' of
             (Inl e, w'') \<Rightarrow> (Inl e, w'')
           | (Inr rs, w'') \<Rightarrow> (Inr (r # rs), w'')))"

text \<open>
  Modelled from the spec: one activation of a node (4.1), which is in the engine's class
  \<^verbatim>\<open>BaseNode\<close>, the three phases in order: prepare reads the shared state, execute gets the prepared input only, finalize gets the
  shared state, the prepared input and the result, and returns the outcome label. A failure
  of the execute phase leaves the shared state as it is.
\<close>

definition Node_run ::
  "('p \<Rightarrow> ('r, 'w) io) \<Rightarrow> ('s \<Rightarrow> 'p) \<Rightarrow> ('s \<Rightarrow> 'p \<Rightarrow> 'r \<Rightarrow> 'w \<Rightarrow> (error + string) \<times> 's \<times> 'w)
     \<Rightarrow> 's \<Rightarrow> 'w \<Rightarrow> (error + string) \<times> 's \<times> 'w" where
  "Node_run execute prepare finalize shared w =
     (let p = prepare shared
      in (case execute p w of
            (Inl e, w') \<Rightarrow> (Inl e, shared, w')
          | (Inr r, w') \<Rightarrow> finalize shared p r w'))"

text \<open>A finalize phase that cannot fail and does not touch the world.\<close>

definition pure_post ::
  "('s \<Rightarrow> 'p \<Rightarrow> 'r \<Rightarrow> string \<times> 's) \<Rightarrow> 's \<Rightarrow> 'p \<Rightarrow> 'r \<Rightarrow> 'w \<Rightarrow> (error + string) \<times> 's \<times> 'w" where
  "pure_post post shared p r w = (Inr (fst (post shared p r)), snd (post shared p r), w)"

text \<open>
  The routing table (4.2): for each node a mapping from outcome label to successor.
\<close>

type_synonym 'n routing = "'n \<Rightarrow> string \<rightharpoonup> 'n"

text \<open>
  Modelled from the spec: the engine's method \<^verbatim>\<open>node.on(action, target)\<close>, which
  registers the successor of a node for a label (4.2).
\<close>

definition on :: "'n \<Rightarrow> string \<Rightarrow> 'n \<Rightarrow> 'n routing \<Rightarrow> 'n routing" where
  "on n action target rt = rt(n := (rt n)(action \<mapsto> target))"

text \<open>
  Modelled from the spec: the engine's method \<^verbatim>\<open>node.next(target)\<close>, which registers
  the successor for the reserved label \<^verbatim>\<open>default\<close> (4.2).
\<close>

definition next_node :: "'n \<Rightarrow> 'n \<Rightarrow> 'n routing \<Rightarrow> 'n routing" where
  "next_node n target rt = on n ''default'' target rt"

text \<open>
  Modelled from the spec: the walk of the engine's class \<^verbatim>\<open>Flow\<close> through the graph
  (4.2). The current node is run;
  the successor registered for exactly the returned label becomes the current node; the run
  ends when no successor is registered for the label, and it is aborted when a node fails.
  The engine has no cycle detection, so the walk takes fuel and gives \<open>None\<close> when the fuel
  is used up before the run has ended. The result is the outcome (the failing node and its
  error, or completion), the nodes activated, in order, and the final shared state and world.
\<close>

fun Flow_orchestrate ::
  "nat \<Rightarrow> ('n \<Rightarrow> 's \<Rightarrow> 'w \<Rightarrow> (error + string) \<times> 's \<times> 'w) \<Rightarrow> 'n routing \<Rightarrow> 'n \<Rightarrow> 's \<Rightarrow> 'w
     \<Rightarrow> ((('n \<times> error) + unit) \<times> 'n list \<times> 's \<times> 'w) option" where
  "Flow_orchestrate 0 run rt cur shared w = None"
| "Flow_orchestrate (Suc k) run rt cur shared w =
     (case run cur shared w of
        (Inl e, s', w') \<Rightarrow> Some (Inl (cur, e), [cur], s', w')
      | (Inr action, s', w') \<Rightarrow>
          (case rt cur action of
             None \<Rightarrow> Some (Inr (), [cur], s', w')
           | Some nx \<Rightarrow>
               (case Flow_orchestrate k run rt nx s' w' of
                  None \<Rightarrow> None
                | Some (out, vis, s'', w'') \<Rightarrow> Some (out, cur # vis, s'', w''))))"

section \<open>The note flow (flows/note\_flow.ts)\<close>

text \<open>The eight node classes of the program; the flow has one instance of each.\<close>

datatype node =
    InputDetectorNode | ContentExtractorNode
  | Layer1CaptureNode | Layer2BoldNode | Layer3DistillNode | Layer4SummaryNode
  | Layer5CreativeNode | FileSaverNode

text \<open>
  A constructed flow: the start node, the routing table, and the retry policy each node
  was constructed with.
\<close>

record Flow =
  flow_start :: node
  flow_successors :: "node routing"
  flow_policy :: "node \<Rightarrow> retry_policy"

text \<open>
  Modelled from the spec: the constructor of the engine's class \<^verbatim>\<open>Node\<close>, which the
  node classes inherit, \<^verbatim>\<open>new XNode(maxRetries?, wait?)\<close>: the retry policy a node
  declares (4.3). The values an omitted argument defaults to are constants of the engine,
  taken as the parameter \<open>dflt\<close>.
\<close>

definition Node_new :: "retry_policy \<Rightarrow> nat option \<Rightarrow> nat option \<Rightarrow> retry_policy" where
  "Node_new dflt maxRetriesArg waitArg =
     \<lparr>node_maxRetries = (case maxRetriesArg of None \<Rightarrow> node_maxRetries dflt | Some m \<Rightarrow> m),
      node_wait = (case waitArg of None \<Rightarrow> node_wait dflt | Some s \<Rightarrow> s)\<rparr>"

text \<open>
  \<^verbatim>\<open>createNoteFlow\<close>: the eight nodes, each constructed without arguments
  (\<^verbatim>\<open>new InputDetectorNode()\<close> and so on), the four labelled successors of the input
  detector, the chain of default successors, and the flow that starts at the input
  detector.
\<close>

definition createNoteFlow :: "retry_policy \<Rightarrow> Flow" where
  "createNoteFlow dflt =
     (let inputDetector = InputDetectorNode;
          contentExtractor = ContentExtractorNode;
          layer1N = Layer1CaptureNode;
          layer2N = Layer2BoldNode;
          layer3N = Layer3DistillNode;
          layer4N = Layer4SummaryNode;
          layer5N = Layer5CreativeNode;
          fileSaver = FileSaverNode;
          rt0 = (\<lambda>n. Map.empty);
          rt1 = on inputDetector ''text'' contentExtractor rt0;
          rt2 = on inputDetector ''pdf'' contentExtractor rt1;
          rt3 = on inputDetector ''image'' contentExtractor rt2;
          rt4 = on inputDetector ''url'' contentExtractor rt3;
          rt5 = next_node contentExtractor layer1N rt4;
          rt6 = next_node layer1N layer2N rt5;
          rt7 = next_node layer2N layer3N rt6;
          rt8 = next_node layer3N layer4N rt7;
          rt9 = next_node layer4N layer5N rt8;
          rt = next_node layer5N fileSaver rt9
      in \<lparr>flow_start = inputDetector, flow_successors = rt,
          flow_policy = (\<lambda>n. case n of
              InputDetectorNode \<Rightarrow> Node_new dflt None None
            | ContentExtractorNode \<Rightarrow> Node_new dflt None None
            | Layer1CaptureNode \<Rightarrow> Node_new dflt None None
            | Layer2BoldNode \<Rightarrow> Node_new dflt None None
            | Layer3DistillNode \<Rightarrow> Node_new dflt None None
            | Layer4SummaryNode \<Rightarrow> Node_new dflt None None
            | Layer5CreativeNode \<Rightarrow> Node_new dflt None None
            | FileSaverNode \<Rightarrow> Node_new dflt None None)\<rparr>)"

text \<open>
  Modelled from the spec: one activation of a node of the note flow by the engine (4.1),
  the three phases of its class under the retry policy it was constructed with; the file
  saver is a batch node.
\<close>

fun run_node ::
  "'w services \<Rightarrow> Flow \<Rightarrow> node \<Rightarrow> SharedState \<Rightarrow> 'w \<Rightarrow> (error + string) \<times> SharedState \<times> 'w" where
  "run_node svc fl InputDetectorNode =
     Node_run (Node_exec svc (flow_policy fl InputDetectorNode) (InputDetector_exec svc))
       InputDetector_prep (pure_post InputDetector_post)"
| "run_node svc fl ContentExtractorNode =
     Node_run (Node_exec svc (flow_policy fl ContentExtractorNode) (ContentExtractor_exec svc))
       ContentExtractor_prep
       (\<lambda>shared p r w. pure_post (\<lambda>s p r. ContentExtractor_post svc s p r w) shared p r w)"
| "run_node svc fl Layer1CaptureNode =
     Node_run (Node_exec svc (flow_policy fl Layer1CaptureNode) (Layer1_exec svc))
       Layer1_prep (pure_post Layer1_post)"
| "run_node svc fl Layer2BoldNode =
     Node_run (Node_exec svc (flow_policy fl Layer2BoldNode) (Layer2_exec svc))
       Layer2_prep (pure_post Layer2_post)"
| "run_node svc fl Layer3DistillNode =
     Node_run (Node_exec svc (flow_policy fl Layer3DistillNode) (Layer3_exec svc))
       Layer3_prep (pure_post Layer3_post)"
| "run_node svc fl Layer4SummaryNode =
     Node_run (Node_exec svc (flow_policy fl Layer4SummaryNode) (Layer4_exec svc))
       Layer4_prep (pure_post Layer4_post)"
| "run_node svc fl Layer5CreativeNode =
     Node_run (Node_exec svc (flow_policy fl Layer5CreativeNode) (Layer5_exec svc))
       Layer5_prep (pure_post Layer5_post)"
| "run_node svc fl FileSaverNode =
     Node_run (BatchNode_exec svc (flow_policy fl FileSaverNode) (FileSaver_exec svc))
       FileSaver_prep (FileSaver_post svc)"

text \<open>
  Modelled from the spec: the engine's \<^verbatim>\<open>flow.run(sharedState)\<close>, the walk from the
  start node of the flow (4.2).
\<close>

definition Flow_run ::
  "'w services \<Rightarrow> Flow \<Rightarrow> nat \<Rightarrow> SharedState \<Rightarrow> 'w
     \<Rightarrow> (((node \<times> error) + unit) \<times> node list \<times> SharedState \<times> 'w) option" where
  "Flow_run svc fl fuel shared w =
     Flow_orchestrate fuel (run_node svc fl) (flow_successors fl) (flow_start fl) shared w"

section \<open>A simulated world\<close>

text \<open>
  A small world to run the program in: the files written so far, in the order of the
  writes, and the number of writes the disk still has room for. In it every URL parses and
  no URL resolves, no PDF file exists, the text generation service answers every request
  with the same text \<open>reply\<close>, the clock stands still, and \<^verbatim>\<open>writeFile\<close> fails with
  \<^verbatim>\<open>ENOSPC\<close> once the disk is full.
\<close>

record sim_world =
  sim_files :: "(string \<times> string) list"
  sim_room :: nat

definition sim_date :: Date where
  "sim_date =
     \<lparr>getFullYear = 2024, getMonth = 0, getDate = 15, getHours = 14, getMinutes = 30,
      getSeconds = 22, toISOString = ''2024-01-15T14:30:22.000Z''\<rparr>"

definition sim_writeFile :: "string \<Rightarrow> string \<Rightarrow> (unit, sim_world) io" where
  "sim_writeFile path text w =
     (if sim_room w = 0 then (Inl (Error (Some ''ENOSPC'') ''no space left on device''), w)
      else (Inr (), w\<lparr>sim_files := sim_files w @ [(path, text)], sim_room := sim_room w - 1\<rparr>))"

text \<open>
  \<^verbatim>\<open>path.join\<close> in the simulated world: the two parts joined by a slash, without the
  leading \<^verbatim>\<open>./\<close> of the directory, which the platform's function normalises away.
\<close>

definition sim_path_join :: "string \<Rightarrow> string \<Rightarrow> string" where
  "sim_path_join d f = (if take 2 d = ''./'' then drop 2 d else d) @ ''/'' @ f"

definition sim_services :: "string \<Rightarrow> sim_world services" where
  "sim_services reply =
     \<lparr>URL_new = (\<lambda>s. Inr ()),
      fetch = (\<lambda>u w. (Inl (Error (Some ''ENOTFOUND'') ''fetch failed''), w)),
      pdf_parse_file = (\<lambda>f w. (Inl (Error (Some ''ENOENT'') ''no such file or directory''), w)),
      htmlToText = (\<lambda>html. html),
      extractTitleFromHTML = (\<lambda>html. None),
      extractTitleFromURL = (\<lambda>u. ''Untitled''),
      callLlm = (\<lambda>req w. (Inr reply, w)),
      slugifyLib = (\<lambda>title. ''note''),
      new_Date = (\<lambda>w. sim_date),
      fs_mkdir = (\<lambda>d w. (Inr (), w)),
      fs_writeFile = sim_writeFile,
      path_join = sim_path_join,
      JSON_stringify = (\<lambda>entry. le_content entry),
      wait_seconds = (\<lambda>secs w. w)\<rparr>"

text \<open>A shared state after extraction in which the first three layers are populated.\<close>

definition sim_state3 :: SharedState where
  "sim_state3 =
     (createInitialState ''note'' None)
       \<lparr>layers := \<lparr>layer1 = Some ''a'', layer2 = Some ''b'', layer3 = Some ''c'',
                    layer4 = None, layer5 = None\<rparr>\<rparr>"

text \<open>
  A shared state after the five layer nodes, for a note by a named author. The text
  generation service returned no text for the layers 3 and 4, so these two slots hold the
  empty string.
\<close>

definition sim_state_gaps :: SharedState where
  "sim_state_gaps =
     \<lparr>input = \<lparr>input_raw = ''Focus is a skill.'', input_type = Some Text,
               input_focusArea = None, input_outputFormat = None\<rparr>,
      metadata = \<lparr>md_title = ''Focus'', md_author = Some ''Ann'', md_date = None,
                  md_sourceType = ''text'', md_wordCount = 4\<rparr>,
      content = \<lparr>content_raw = ''Focus is a skill.'', content_sections = None\<rparr>,
      layers = \<lparr>layer1 = Some ''Focus is a skill.'', layer2 = Some ''**Focus** is a skill.'',
                layer3 = Some [], layer4 = Some [], layer5 = Some ''Practise focus.''\<rparr>,
      output' = \<lparr>out_directory = ''./data/notes'', out_timestamp = Some ''20240115-143022'',
                 out_slug = Some ''focus'', out_savedFiles = []\<rparr>\<rparr>"

section \<open>The claims in the words of the specification\<close>

text \<open>The characters of the two scheme prefixes \<^verbatim>\<open>http://\<close> and \<^verbatim>\<open>https://\<close>.\<close>

definition scheme_char :: "char \<Rightarrow> bool" where
  "scheme_char x \<longleftrightarrow> x = CHR ''h'' \<or> x = CHR ''t'' \<or> x = CHR ''p'' \<or> x = CHR ''s'' \<or> x = CHR '':'' \<or> x = CHR ''/''"

text \<open>
  The classification as the specification words it, on the trimmed input and in this
  order of priority: \<^verbatim>\<open>url\<close> when the input starts with \<^verbatim>\<open>http://\<close> or \<^verbatim>\<open>https://\<close>
  (letters in either case) and parses as a URL; else \<^verbatim>\<open>pdf\<close> when it ends with the
  suffix \<^verbatim>\<open>.pdf\<close> (letters in either case); else \<^verbatim>\<open>image\<close> when it ends with an image
  suffix; else \<^verbatim>\<open>text\<close>.
\<close>

definition classify_spec :: "(string \<Rightarrow> bool) \<Rightarrow> string \<Rightarrow> InputType" where
  "classify_spec parses t =
     (if (\<exists>p rest. t = p @ rest \<and> (toLowerCase p = ''http://'' \<or> toLowerCase p = ''https://''))
         \<and> parses t then Url
      else if (\<exists>pre suf. t = pre @ suf \<and> toLowerCase suf = ''.pdf'') then Pdf
      else if (\<exists>pre suf. t = pre @ suf \<and>
                 toLowerCase suf \<in> {''.png'', ''.jpg'', ''.jpeg'', ''.gif'', ''.bmp'', ''.webp'', ''.tiff''})
      then Image
      else Text)"

text \<open>The layer slot of a level, 1 to 5.\<close>

definition layer_slot :: "nat \<Rightarrow> state_layers \<Rightarrow> string option" where
  "layer_slot n ls =
     (if n = 1 then layer1 ls else if n = 2 then layer2 ls else if n = 3 then layer3 ls
      else if n = 4 then layer4 ls else if n = 5 then layer5 ls else None)"

text \<open>
  Instrumentation of the file system: the same services over a world that also keeps the
  log of the successful \<^verbatim>\<open>writeFile\<close> calls, path and text, in the order of the calls.
\<close>

definition lift_io :: "('a, 'w) io \<Rightarrow> ('a, 'w \<times> 'l) io" where
  "lift_io f wl = (case f (fst wl) of (r, w') \<Rightarrow> (r, (w', snd wl)))"

definition recording :: "'w services \<Rightarrow> ('w \<times> (string \<times> string) list) services" where
  "recording svc =
     \<lparr>URL_new = URL_new svc,
      fetch = (\<lambda>u. lift_io (fetch svc u)),
      pdf_parse_file = (\<lambda>f. lift_io (pdf_parse_file svc f)),
      htmlToText = htmlToText svc,
      extractTitleFromHTML = extractTitleFromHTML svc,
      extractTitleFromURL = extractTitleFromURL svc,
      callLlm = (\<lambda>req. lift_io (callLlm svc req)),
      slugifyLib = slugifyLib svc,
      new_Date = (\<lambda>wl. new_Date svc (fst wl)),
      fs_mkdir = (\<lambda>d. lift_io (fs_mkdir svc d)),
      fs_writeFile = (\<lambda>path text wl.
        (case fs_writeFile svc path text (fst wl) of
           (Inl e, w') \<Rightarrow> (Inl e, (w', snd wl))
         | (Inr u, w') \<Rightarrow> (Inr u, (w', snd wl @ [(path, text)])))),
      path_join = path_join svc,
      JSON_stringify = JSON_stringify svc,
      wait_seconds = (\<lambda>secs wl. (wait_seconds svc secs (fst wl), snd wl))\<rparr>"

text \<open>
  The text of a persisted artifact as the specification lays it out: the metadata header
  between two lines of three hyphens (title, layer number, layer name, source type,
  creation time, word count, and the author when there is one), the section heading, an
  empty line, and the raw text of the layer.
\<close>

definition artifact_text ::
  "string \<Rightarrow> string option \<Rightarrow> string \<Rightarrow> string \<Rightarrow> LayerEntry \<Rightarrow> string" where
  "artifact_text title author sourceType created entry =
     ''---'' @ [CHR 0x0A] @
     ''title: '' @ [CHR 0x22] @ escapeYamlString title @ [CHR 0x22] @ [CHR 0x0A] @
     ''layer: '' @ String_nat (le_level entry) @ [CHR 0x0A] @
     ''layer_name: '' @ [CHR 0x22] @ LayerName_string (le_name entry) @ [CHR 0x22] @ [CHR 0x0A] @
     ''source: '' @ [CHR 0x22] @ sourceType @ [CHR 0x22] @ [CHR 0x0A] @
     ''created: '' @ [CHR 0x22] @ created @ [CHR 0x22] @ [CHR 0x0A] @
     ''word_count: '' @ String_nat (countWords (le_content entry)) @ [CHR 0x0A] @
     (if truthy author
      then ''author: '' @ [CHR 0x22] @ escapeYamlString (the author) @ [CHR 0x22] @ [CHR 0x0A]
      else []) @
     ''---'' @ [CHR 0x0A] @
     ''# L'' @ String_nat (le_level entry) @ '': '' @ title @ '' - '' @
       LayerName_string (le_name entry) @ [CHR 0x0A] @ [CHR 0x0A] @
     le_content entry"

text \<open>
  The nodes of the note flow in the order of its wiring, and the run of a chain of nodes
  one after the other up to the first failure: the outcome, the nodes activated, the final
  shared state and world. \<open>routes\<close> says that the routing table leads along the chain:
  whatever label an activation of a node returns, its successor for that label is the next
  node of the chain, and there is none after the last.
\<close>

definition note_chain :: "node list" where
  "note_chain =
     [InputDetectorNode, ContentExtractorNode, Layer1CaptureNode, Layer2BoldNode,
      Layer3DistillNode, Layer4SummaryNode, Layer5CreativeNode, FileSaverNode]"

fun run_chain ::
  "('n \<Rightarrow> 's \<Rightarrow> 'w \<Rightarrow> (error + string) \<times> 's \<times> 'w) \<Rightarrow> 'n list \<Rightarrow> 's \<Rightarrow> 'w
     \<Rightarrow> (('n \<times> error) + unit) \<times> 'n list \<times> 's \<times> 'w" where
  "run_chain run [] s w = (Inr (), [], s, w)"
| "run_chain run (n # ns) s w =
     (case run n s w of
        (Inl e, s', w') \<Rightarrow> (Inl (n, e), [n], s', w')
      | (Inr l, s', w') \<Rightarrow>
          (case run_chain run ns s' w' of (out, vis, s'', w'') \<Rightarrow> (out, n # vis, s'', w'')))"

fun routes ::
  "('n \<Rightarrow> 's \<Rightarrow> 'w \<Rightarrow> (error + string) \<times> 's \<times> 'w) \<Rightarrow> 'n routing \<Rightarrow> 'n list \<Rightarrow> bool" where
  "routes run rt [] = True"
| "routes run rt [n] = (\<forall>s w l s' w'. run n s w = (Inr l, s', w') \<longrightarrow> rt n l = None)"
| "routes run rt (n # m # ns) =
     ((\<forall>s w l s' w'. run n s w = (Inr l, s', w') \<longrightarrow> rt n l = Some m) \<and> routes run rt (m # ns))"

text \<open>
  Instrumentation of the shared state: its fields, and for each field the one node that is
  to write it, as the data model says: the type tag is written by the detection step, the
  metadata, the extracted text, the timestamp and the slug by the extraction step, the slot
  of layer N by the node of layer N, the list of saved paths by the batch save node; the
  raw input, the two preferences, the section list and the output directory by no node.
\<close>

datatype field =
    Input_raw | Input_type | Input_focusArea | Input_outputFormat
  | Metadata | Content_raw | Content_sections
  | Layers_layer1 | Layers_layer2 | Layers_layer3 | Layers_layer4 | Layers_layer5
  | Output_directory | Output_timestamp | Output_slug | Output_savedFiles

fun field_eq :: "field \<Rightarrow> SharedState \<Rightarrow> SharedState \<Rightarrow> bool" where
  "field_eq Input_raw s t = (input_raw (input s) = input_raw (input t))"
| "field_eq Input_type s t = (input_type (input s) = input_type (input t))"
| "field_eq Input_focusArea s t = (input_focusArea (input s) = input_focusArea (input t))"
| "field_eq Input_outputFormat s t = (input_outputFormat (input s) = input_outputFormat (input t))"
| "field_eq Metadata s t = (metadata s = metadata t)"
| "field_eq Content_raw s t = (content_raw (content s) = content_raw (content t))"
| "field_eq Content_sections s t = (content_sections (content s) = content_sections (content t))"
| "field_eq Layers_layer1 s t = (layer1 (layers s) = layer1 (layers t))"
| "field_eq Layers_layer2 s t = (layer2 (layers s) = layer2 (layers t))"
| "field_eq Layers_layer3 s t = (layer3 (layers s) = layer3 (layers t))"
| "field_eq Layers_layer4 s t = (layer4 (layers s) = layer4 (layers t))"
| "field_eq Layers_layer5 s t = (layer5 (layers s) = layer5 (layers t))"
| "field_eq Output_directory s t = (out_directory (output' s) = out_directory (output' t))"
| "field_eq Output_timestamp s t = (out_timestamp (output' s) = out_timestamp (output' t))"
| "field_eq Output_slug s t = (out_slug (output' s) = out_slug (output' t))"
| "field_eq Output_savedFiles s t = (out_savedFiles (output' s) = out_savedFiles (output' t))"

fun writer :: "field \<Rightarrow> node option" where
  "writer Input_raw = None"
| "writer Input_type = Some InputDetectorNode"
| "writer Input_focusArea = None"
| "writer Input_outputFormat = None"
| "writer Metadata = Some ContentExtractorNode"
| "writer Content_raw = Some ContentExtractorNode"
| "writer Content_sections = None"
| "writer Layers_layer1 = Some Layer1CaptureNode"
| "writer Layers_layer2 = Some Layer2BoldNode"
| "writer Layers_layer3 = Some Layer3DistillNode"
| "writer Layers_layer4 = Some Layer4SummaryNode"
| "writer Layers_layer5 = Some Layer5CreativeNode"
| "writer Output_directory = None"
| "writer Output_timestamp = Some ContentExtractorNode"
| "writer Output_slug = Some ContentExtractorNode"
| "writer Output_savedFiles = Some FileSaverNode"

text \<open>
  Instrumentation of a run: the activations of the nodes visited, one after the other, each
  with the shared state and the world it started from, its result (the error, or the
  outcome label) and the shared state and the world it left. The first activation starts
  from the initial state, every other one from what the activation before it left, and
  nothing follows an activation that failed. An activation changes a field when the field's
  value after it differs from the value before it.
\<close>

record 'w activation =
  act_node :: node
  act_before :: SharedState
  act_world :: 'w
  act_result :: "error + string"
  act_after :: SharedState
  act_world_after :: 'w

fun activations ::
  "(node \<Rightarrow> SharedState \<Rightarrow> 'w \<Rightarrow> (error + string) \<times> SharedState \<times> 'w) \<Rightarrow> node list
     \<Rightarrow> SharedState \<Rightarrow> 'w \<Rightarrow> 'w activation list" where
  "activations run [] s w = []"
| "activations run (n # ns) s w =
     (case run n s w of
        (Inl e, s', w') \<Rightarrow>
          [\<lparr>act_node = n, act_before = s, act_world = w, act_result = Inl e,
            act_after = s', act_world_after = w'\<rparr>]
      | (Inr l, s', w') \<Rightarrow>
          \<lparr>act_node = n, act_before = s, act_world = w, act_result = Inr l,
           act_after = s', act_world_after = w'\<rparr> # activations run ns s' w')"

definition changes :: "field \<Rightarrow> 'w activation \<Rightarrow> bool" where
  "changes f a = (\<not> field_eq f (act_before a) (act_after a))"

text \<open>
  The layer a node produces, for the five layer nodes, and the request the node of a layer
  sends to the text generation service from a shared state: the prompt of its layer, filled
  with what its prepare phase reads from that state.
\<close>

fun level_of :: "node \<Rightarrow> nat option" where
  "level_of Layer1CaptureNode = Some 1"
| "level_of Layer2BoldNode = Some 2"
| "level_of Layer3DistillNode = Some 3"
| "level_of Layer4SummaryNode = Some 4"
| "level_of Layer5CreativeNode = Some 5"
| "level_of InputDetectorNode = None"
| "level_of ContentExtractorNode = None"
| "level_of FileSaverNode = None"

fun layer_request :: "node \<Rightarrow> SharedState \<Rightarrow> llm_request option" where
  "layer_request Layer1CaptureNode s = Some (Layer1_prompt (Layer1_prep s))"
| "layer_request Layer2BoldNode s = Some (Layer2_prompt (Layer2_prep s))"
| "layer_request Layer3DistillNode s = Some (Layer3_prompt (Layer3_prep s))"
| "layer_request Layer4SummaryNode s = Some (Layer4_prompt (Layer4_prep s))"
| "layer_request Layer5CreativeNode s = Some (Layer5_prompt (Layer5_prep s))"
| "layer_request InputDetectorNode s = None"
| "layer_request ContentExtractorNode s = None"
| "layer_request FileSaverNode s = None"

section \<open>Properties\<close>

subsection \<open>Strings and patterns\<close>

lemma char_of_eq_char_iff:
  "n < 256 \<Longrightarrow> char_of (n::nat) = x \<longleftrightarrow> n = of_char x"
  by (metis char_of_char of_char_of mod_less)

lemma toUpperCase_ascii_eq_iff:
  "toUpperCase_ascii c = x \<longleftrightarrow>
     (if 97 \<le> (of_char c :: nat) \<and> (of_char c :: nat) \<le> 122
      then (of_char c :: nat) - 32 = of_char x else (of_char c :: nat) = of_char x)"
proof -
  have "(of_char c :: nat) - 32 < 256"
    using nat_of_char_less_256 [of c] by arith
  then show ?thesis
    by (simp add: toUpperCase_ascii_def Let_def char_of_eq_char_iff)
qed

lemma toLowerCase_char_eq_iff:
  "toLowerCase_char c = x \<longleftrightarrow>
     (if (65 \<le> (of_char c :: nat) \<and> (of_char c :: nat) \<le> 90)
         \<or> (192 \<le> (of_char c :: nat) \<and> (of_char c :: nat) \<le> 222 \<and> (of_char c :: nat) \<noteq> 215)
      then (of_char c :: nat) + 32 = of_char x else (of_char c :: nat) = of_char x)"
proof (cases "(65 \<le> (of_char c :: nat) \<and> (of_char c :: nat) \<le> 90)
         \<or> (192 \<le> (of_char c :: nat) \<and> (of_char c :: nat) \<le> 222 \<and> (of_char c :: nat) \<noteq> 215)")
  case True
  then have "(of_char c :: nat) + 32 < 256" by arith
  then have "char_of ((of_char c :: nat) + 32) = x \<longleftrightarrow> (of_char c :: nat) + 32 = of_char x"
    by (rule char_of_eq_char_iff)
  then show ?thesis
    by (simp only: toLowerCase_char_def Let_def if_P [OF True])
next
  case False
  have "c = x \<longleftrightarrow> (of_char c :: nat) = of_char x" by simp
  then show ?thesis
    by (simp only: toLowerCase_char_def Let_def if_not_P [OF False])
qed

lemma fold_letter_arith:
  fixes n U :: nat
  assumes "65 \<le> U" "U \<le> 90"
  shows "(if 97 \<le> n \<and> n \<le> 122 then n - 32 = U else n = U) \<longleftrightarrow>
         (if (65 \<le> n \<and> n \<le> 90) \<or> (192 \<le> n \<and> n \<le> 222 \<and> n \<noteq> 215)
          then n + 32 = U + 32 else n = U + 32)"
  using assms by (simp split: if_splits) arith

lemma fold_other_arith:
  fixes n U :: nat
  assumes "U < 65"
  shows "(if 97 \<le> n \<and> n \<le> 122 then n - 32 = U else n = U) \<longleftrightarrow>
         (if (65 \<le> n \<and> n \<le> 90) \<or> (192 \<le> n \<and> n \<le> 222 \<and> n \<noteq> 215)
          then n + 32 = U else n = U)"
  using assms by (simp split: if_splits) arith

lemma ci_letter:
  assumes "65 \<le> (of_char X :: nat)" "(of_char X :: nat) \<le> 90"
    and "(of_char x :: nat) = of_char X + 32"
  shows "toUpperCase_ascii c = X \<longleftrightarrow> toLowerCase_char c = x"
  unfolding toUpperCase_ascii_eq_iff toLowerCase_char_eq_iff assms(3)
  using assms(1,2) by (rule fold_letter_arith)

lemma ci_other:
  assumes "(of_char x :: nat) < 65"
  shows "toUpperCase_ascii c = x \<longleftrightarrow> toLowerCase_char c = x"
  unfolding toUpperCase_ascii_eq_iff toLowerCase_char_eq_iff
  using assms by (rule fold_other_arith)

lemma ci_scheme_char:
  assumes "scheme_char x"
  shows "toUpperCase_ascii c = toUpperCase_ascii x \<longleftrightarrow> toLowerCase_char c = x"
proof -
  have up: "toUpperCase_ascii CHR ''h'' = CHR ''H''" "toUpperCase_ascii CHR ''t'' = CHR ''T''"
    "toUpperCase_ascii CHR ''p'' = CHR ''P''" "toUpperCase_ascii CHR ''s'' = CHR ''S''"
    "toUpperCase_ascii CHR '':'' = CHR '':''" "toUpperCase_ascii CHR ''/'' = CHR ''/''"
    by (simp_all add: toUpperCase_ascii_eq_iff)
  have h: "toUpperCase_ascii c = CHR ''H'' \<longleftrightarrow> toLowerCase_char c = CHR ''h''"
    by (rule ci_letter) simp_all
  have t: "toUpperCase_ascii c = CHR ''T'' \<longleftrightarrow> toLowerCase_char c = CHR ''t''"
    by (rule ci_letter) simp_all
  have p: "toUpperCase_ascii c = CHR ''P'' \<longleftrightarrow> toLowerCase_char c = CHR ''p''"
    by (rule ci_letter) simp_all
  have s: "toUpperCase_ascii c = CHR ''S'' \<longleftrightarrow> toLowerCase_char c = CHR ''s''"
    by (rule ci_letter) simp_all
  have colon: "toUpperCase_ascii c = CHR '':'' \<longleftrightarrow> toLowerCase_char c = CHR '':''"
    by (rule ci_other) simp
  have slash: "toUpperCase_ascii c = CHR ''/'' \<longleftrightarrow> toLowerCase_char c = CHR ''/''"
    by (rule ci_other) simp
  from assms consider "x = CHR ''h''" | "x = CHR ''t''" | "x = CHR ''p''" | "x = CHR ''s''"
    | "x = CHR '':''" | "x = CHR ''/''"
    unfolding scheme_char_def by blast
  then show ?thesis
    by cases (simp_all only: up h t p s colon slash)
qed

lemma ci_scheme_string:
  "list_all scheme_char P \<Longrightarrow>
     map toUpperCase_ascii q = map toUpperCase_ascii P \<longleftrightarrow> toLowerCase q = P"
proof (induction P arbitrary: q)
  case Nil
  then show ?case by (simp add: toLowerCase_def)
next
  case (Cons x P)
  show ?case
  proof (cases q)
    case Nil
    then show ?thesis by (simp add: toLowerCase_def)
  next
    case (Cons c q')
    have "toUpperCase_ascii c = toUpperCase_ascii x \<longleftrightarrow> toLowerCase_char c = x"
      using Cons.prems ci_scheme_char by simp
    moreover have "map toUpperCase_ascii q' = map toUpperCase_ascii P \<longleftrightarrow> toLowerCase q' = P"
      using Cons.IH Cons.prems by simp
    ultimately show ?thesis using Cons by (simp add: toLowerCase_def)
  qed
qed

lemma match_literal_i_iff:
  "match_literal_i p s = Some r \<longleftrightarrow>
     (\<exists>q. s = q @ r \<and> map toUpperCase_ascii q = map toUpperCase_ascii p)"
proof (induction p s rule: match_literal_i.induct)
  case (1 s)
  then show ?case by auto
next
  case (2 p ps)
  then show ?case by auto
next
  case (3 p ps c cs)
  show ?case
  proof (cases "toUpperCase_ascii c = toUpperCase_ascii p")
    case True
    have "(\<exists>q. c # cs = q @ r \<and> map toUpperCase_ascii q = map toUpperCase_ascii (p # ps))
        \<longleftrightarrow> (\<exists>q'. cs = q' @ r \<and> map toUpperCase_ascii q' = map toUpperCase_ascii ps)"
      using True by (auto simp: Cons_eq_append_conv Cons_eq_map_conv)
    with 3 True show ?thesis by simp
  next
    case False
    then show ?thesis by (auto simp: Cons_eq_append_conv Cons_eq_map_conv)
  qed
qed

lemma match_literal_i_append:
  "match_literal_i (p @ q) s =
     (case match_literal_i p s of None \<Rightarrow> None | Some r \<Rightarrow> match_literal_i q r)"
  by (induction p s rule: match_literal_i.induct) auto

lemma match_scheme_iff:
  "list_all scheme_char P \<Longrightarrow>
     match_literal_i P s \<noteq> None \<longleftrightarrow> (\<exists>q r. s = q @ r \<and> toLowerCase q = P)"
proof -
  assume P: "list_all scheme_char P"
  have "match_literal_i P s \<noteq> None \<longleftrightarrow> (\<exists>r. match_literal_i P s = Some r)" by auto
  also have "\<dots> \<longleftrightarrow> (\<exists>r q. s = q @ r \<and> map toUpperCase_ascii q = map toUpperCase_ascii P)"
    by (simp only: match_literal_i_iff)
  also have "\<dots> \<longleftrightarrow> (\<exists>q r. s = q @ r \<and> toLowerCase q = P)"
    using ci_scheme_string [OF P] by blast
  finally show ?thesis .
qed

lemma regex_http_scheme_alt:
  "regex_http_scheme s \<longleftrightarrow>
     match_literal_i ''http://'' s \<noteq> None \<or> match_literal_i ''https://'' s \<noteq> None"
proof -
  have a: "match_literal_i ''http://'' s = match_literal_i (''http'' @ ''://'') s" by simp
  have b: "match_literal_i ''https://'' s = match_literal_i (''http'' @ ''s'' @ ''://'') s" by simp
  show ?thesis
    unfolding a b regex_http_scheme_def match_literal_i_append
    by (auto split: option.splits)
qed

lemma regex_http_scheme_iff:
  "regex_http_scheme s \<longleftrightarrow>
     (\<exists>q r. s = q @ r \<and> (toLowerCase q = ''http://'' \<or> toLowerCase q = ''https://''))"
proof -
  have 1: "list_all scheme_char ''http://''" by (simp add: scheme_char_def)
  have 2: "list_all scheme_char ''https://''" by (simp add: scheme_char_def)
  show ?thesis
    unfolding regex_http_scheme_alt match_scheme_iff [OF 1] match_scheme_iff [OF 2]
    by blast
qed

lemma endsWith_iff: "endsWith s p \<longleftrightarrow> (\<exists>pre. s = pre @ p)"
  unfolding endsWith_def
proof
  assume a: "length p \<le> length s \<and> drop (length s - length p) s = p"
  have "s = take (length s - length p) s @ drop (length s - length p) s" by simp
  with a show "\<exists>pre. s = pre @ p" by metis
next
  assume "\<exists>pre. s = pre @ p"
  then show "length p \<le> length s \<and> drop (length s - length p) s = p" by auto
qed

lemma endsWith_lower_iff:
  "endsWith (toLowerCase t) ext \<longleftrightarrow> (\<exists>pre suf. t = pre @ suf \<and> toLowerCase suf = ext)"
  unfolding endsWith_iff toLowerCase_def
  by (auto simp: map_eq_append_conv)

lemma isPdfFile_iff:
  "isPdfFile t \<longleftrightarrow> (\<exists>pre suf. t = pre @ suf \<and> toLowerCase suf = ''.pdf'')"
  unfolding isPdfFile_def by (rule endsWith_lower_iff)

lemma list_ex_endsWith_lower:
  "list_ex (\<lambda>ext. endsWith (toLowerCase t) ext) exts \<longleftrightarrow>
     (\<exists>pre suf. t = pre @ suf \<and> toLowerCase suf \<in> set exts)"
  unfolding list_ex_iff endsWith_lower_iff by blast

lemma isImageFile_iff:
  "isImageFile t \<longleftrightarrow>
     (\<exists>pre suf. t = pre @ suf \<and>
        toLowerCase suf \<in> {''.png'', ''.jpg'', ''.jpeg'', ''.gif'', ''.bmp'', ''.webp'', ''.tiff''})"
proof -
  have "set [''.png'', ''.jpg'', ''.jpeg'', ''.gif'', ''.bmp'', ''.webp'', ''.tiff'']
     = {''.png'', ''.jpg'', ''.jpeg'', ''.gif'', ''.bmp'', ''.webp'', ''.tiff''}"
    by (simp only: list.set)
  then show ?thesis
    unfolding isImageFile_def Let_def list_ex_endsWith_lower
    by (rule arg_cong [where f = "\<lambda>S. \<exists>pre suf. t = pre @ suf \<and> toLowerCase suf \<in> S"])
qed

lemma isUrl_iff:
  "isUrl svc t \<longleftrightarrow>
     (\<exists>p rest. t = p @ rest \<and> (toLowerCase p = ''http://'' \<or> toLowerCase p = ''https://''))
     \<and> URL_new svc t = Inr ()"
proof -
  have "(case URL_new svc t of Inl e \<Rightarrow> False | Inr u \<Rightarrow> True) \<longleftrightarrow> URL_new svc t = Inr ()"
    by (cases "URL_new svc t") simp_all
  then show ?thesis
    unfolding isUrl_def regex_http_scheme_iff [symmetric]
    by (cases "regex_http_scheme t") simp_all
qed

subsection \<open>Input classification\<close>

text \<open>
  C6. For every input string, whatever the \<^verbatim>\<open>URL\<close> constructor does, the execute phase of
  the input-classification node returns without error, leaves the world as it is, and
  returns exactly the label the classification of the specification gives on the trimmed
  input: \<^verbatim>\<open>url\<close> when it starts with \<^verbatim>\<open>http://\<close> or \<^verbatim>\<open>https://\<close> (letters in either
  case) and parses as a URL, else \<^verbatim>\<open>pdf\<close> when it ends with \<^verbatim>\<open>.pdf\<close>, else \<^verbatim>\<open>image\<close>
  when it ends with an image suffix, else \<^verbatim>\<open>text\<close>. An input that matches no known type
  is classified as plain text; there is no error case.
\<close>

theorem C6_classification_total_and_prioritised:
  "InputDetector_exec svc inp w =
     (Inr (classify_spec (\<lambda>t. URL_new svc t = Inr ()) (trim inp)), w)"
proof -
  let ?t = "trim inp"
  show ?thesis
  proof (cases "isUrl svc ?t")
    case True
    then show ?thesis
      using isUrl_iff [of svc ?t]
      by (simp only: InputDetector_exec_def classify_spec_def Let_def if_True simp_thms)
  next
    case nu: False
    show ?thesis
    proof (cases "isPdfFile ?t")
      case True
      then show ?thesis
        using nu isUrl_iff [of svc ?t] isPdfFile_iff [of ?t]
         by (simp only: InputDetector_exec_def classify_spec_def Let_def if_True if_False simp_thms)
    next
      case np: False
      show ?thesis
      proof (cases "isImageFile ?t")
        case True
        then show ?thesis
          using nu np isUrl_iff [of svc ?t] isPdfFile_iff [of ?t] isImageFile_iff [of ?t]
          by (simp only: InputDetector_exec_def classify_spec_def Let_def if_True if_False simp_thms)
      next
        case False
        then show ?thesis
          using nu np isUrl_iff [of svc ?t] isPdfFile_iff [of ?t] isImageFile_iff [of ?t]
          by (simp only: InputDetector_exec_def classify_spec_def Let_def if_True if_False simp_thms)
      qed
    qed
  qed
qed

subsection \<open>Content extraction\<close>

lemma isWhitespace_space [simp]: "isWhitespace CHR '' ''"
  by (simp add: isWhitespace_def)

text \<open>
  C3 (as the code has it). For the input \<^verbatim>\<open>"Hello world. This is a short note about focus."\<close>
  with detected type text, the execute phase of the extraction node returns without error;
  the content of its result is the input string unchanged, and the word count of its
  metadata is 9: the sentence has nine words separated by white space.
\<close>

theorem C3_extract_focus_note:
  "fst (ContentExtractor_exec svc
          \<lparr>pe_raw = ''Hello world. This is a short note about focus.'', pe_type = Text\<rparr> w)
     = Inr (extractFromText ''Hello world. This is a short note about focus.'')
   \<and> er_content (extractFromText ''Hello world. This is a short note about focus.'')
     = ''Hello world. This is a short note about focus.''
   \<and> em_wordCount (er_metadata
        (extractFromText ''Hello world. This is a short note about focus.'')) = 9"
  by (simp add: ContentExtractor_exec_def extractFromText_def countWords_def trim_def
      isWhitespace_def)

text \<open>
  C3 (as the specification states it) fails: the word count of that extraction is not 8.
\<close>

theorem C3_wordCount_not_8:
  "em_wordCount (er_metadata
     (extractFromText ''Hello world. This is a short note about focus.'')) \<noteq> 8"
  by (simp add: extractFromText_def countWords_def trim_def isWhitespace_def)

text \<open>
  C10. In every shared state whose detected type is undefined, the content-extraction node
  does not fail: its prepare phase gives the type \<^verbatim>\<open>text\<close>, its execute phase returns the
  plain-text extraction of the raw input, whose content is the raw input itself, under any
  retry policy, and the activation of the node ends with the label \<^verbatim>\<open>default\<close>.
\<close>

theorem C10_extraction_without_classification:
  assumes "input_type (input shared) = None"
  shows "pe_type (ContentExtractor_prep shared) = Text
    \<and> ContentExtractor_exec svc (ContentExtractor_prep shared) w
        = (Inr (extractFromText (input_raw (input shared))), w)
    \<and> er_content (extractFromText (input_raw (input shared))) = input_raw (input shared)
    \<and> Node_exec svc pol (ContentExtractor_exec svc) (ContentExtractor_prep shared) w
        = (Inr (extractFromText (input_raw (input shared))), w)
    \<and> fst (run_node svc fl ContentExtractorNode shared w) = Inr ''default''"
proof -
  have p: "ContentExtractor_prep shared = \<lparr>pe_raw = input_raw (input shared), pe_type = Text\<rparr>"
    using assms by (simp add: ContentExtractor_prep_def)
  have e: "ContentExtractor_exec svc (ContentExtractor_prep shared) w'
        = (Inr (extractFromText (input_raw (input shared))), w')" for w'
    unfolding p by (simp add: ContentExtractor_exec_def)
  have n: "Node_exec svc pol' (ContentExtractor_exec svc) (ContentExtractor_prep shared) w
        = (Inr (extractFromText (input_raw (input shared))), w)" for pol'
    unfolding Node_exec_def
    by (cases "node_maxRetries pol' - 1") (simp_all add: e)
  have r: "fst (run_node svc fl ContentExtractorNode shared w) = Inr ''default''"
    by (simp add: Node_run_def n pure_post_def ContentExtractor_post_def Let_def)
  show ?thesis
    using p e n r by (simp add: extractFromText_def)
qed

theorem C10_extraction_without_classification_witness:
  "input_type (input (createInitialState ''Hi there'' None)) = None
   \<and> fst (run_node (sim_services []) (createNoteFlow \<lparr>node_maxRetries = 1, node_wait = 0\<rparr>)
          ContentExtractorNode (createInitialState ''Hi there'' None)
          \<lparr>sim_files = [], sim_room = 0\<rparr>) = Inr ''default''"
proof -
  have h: "input_type (input (createInitialState ''Hi there'' None)) = None"
    by (simp add: createInitialState_def)
  show ?thesis
    using h C10_extraction_without_classification [OF h,
        where svc = "sim_services []" and w = "\<lparr>sim_files = [], sim_room = 0\<rparr>"
          and fl = "createNoteFlow \<lparr>node_maxRetries = 1, node_wait = 0\<rparr>"]
    by blast
qed

subsection \<open>The routing table\<close>

text \<open>
  C8. In the routing table that \<^verbatim>\<open>createNoteFlow\<close> builds, each of the four labels
  \<^verbatim>\<open>text\<close>, \<^verbatim>\<open>pdf\<close>, \<^verbatim>\<open>image\<close> and \<^verbatim>\<open>url\<close> that the input-classification node can
  return has the content-extraction node as its successor.
\<close>

theorem C8_branch_convergence:
  "flow_successors (createNoteFlow dflt) InputDetectorNode ''text'' = Some ContentExtractorNode
   \<and> flow_successors (createNoteFlow dflt) InputDetectorNode ''pdf'' = Some ContentExtractorNode
   \<and> flow_successors (createNoteFlow dflt) InputDetectorNode ''image'' = Some ContentExtractorNode
   \<and> flow_successors (createNoteFlow dflt) InputDetectorNode ''url'' = Some ContentExtractorNode
   \<and> flow_successors (createNoteFlow dflt) InputDetectorNode
       (fst (InputDetector_post shared prepRes inputType)) = Some ContentExtractorNode"
  by (cases inputType) (simp_all add: createNoteFlow_def on_def next_node_def Let_def
      InputDetector_post_def)

subsection \<open>Saving the layers\<close>

lemma saveLayer_path:
  "saveLayer svc directory filename cont md w = (Inr p, w') \<Longrightarrow> p = path_join svc directory filename"
  by (auto simp: saveLayer_def Let_def split: prod.splits sum.splits)

lemma save_entry_path:
  "save_entry svc shared ts slug dir entry w = (Inr p, w') \<Longrightarrow>
     p = path_join svc dir (generateLayerFilename ts slug (le_level entry))"
  unfolding save_entry_def Let_def by (rule saveLayer_path)

lemma save_entries_acc:
  "save_entries svc shared ts slug dir es acc w =
     (case save_entries svc shared ts slug dir es [] w of
        (Inl e, w') \<Rightarrow> (Inl e, w')
      | (Inr ps, w') \<Rightarrow> (Inr (acc @ ps), w'))"
proof (induction es arbitrary: acc w)
  case Nil
  then show ?case by simp
next
  case (Cons entry es)
  show ?case
  proof (cases "save_entry svc shared ts slug dir entry w")
    case (Pair r w1)
    show ?thesis
    proof (cases r)
      case (Inl e)
      with Pair show ?thesis by simp
    next
      case (Inr p)
      have a: "save_entries svc shared ts slug dir es (acc @ [p]) w1 =
          (case save_entries svc shared ts slug dir es [] w1 of
             (Inl e, w') \<Rightarrow> (Inl e, w') | (Inr ps, w') \<Rightarrow> (Inr ((acc @ [p]) @ ps), w'))"
        by (rule Cons.IH)
      have b: "save_entries svc shared ts slug dir es ([] @ [p]) w1 =
          (case save_entries svc shared ts slug dir es [] w1 of
             (Inl e, w') \<Rightarrow> (Inl e, w') | (Inr ps, w') \<Rightarrow> (Inr (([] @ [p]) @ ps), w'))"
        by (rule Cons.IH)
      from Pair Inr a b show ?thesis
        by (simp split: prod.splits sum.splits)
    qed
  qed
qed

lemma save_entries_paths:
  "save_entries svc shared ts slug dir es [] w = (Inr ps, w') \<Longrightarrow>
     ps = map (\<lambda>entry. path_join svc dir (generateLayerFilename ts slug (le_level entry))) es"
proof (induction es arbitrary: ps w)
  case Nil
  then show ?case by simp
next
  case (Cons entry es)
  from Cons.prems obtain p w1 where e: "save_entry svc shared ts slug dir entry w = (Inr p, w1)"
    by (auto split: prod.splits sum.splits)
  with Cons.prems have r: "save_entries svc shared ts slug dir es [p] w1 = (Inr ps, w')"
    by simp
  then obtain qs where q: "save_entries svc shared ts slug dir es [] w1 = (Inr qs, w')"
    and ps: "ps = [p] @ qs"
    by (subst (asm) save_entries_acc) (auto split: prod.splits sum.splits)
  from Cons.IH [OF q] ps save_entry_path [OF e] show ?case by simp
qed

lemma save_entries_append_fail:
  assumes "save_entries svc shared ts slug dir pre [] w = (Inr paths, w1)"
    and "save_entry svc shared ts slug dir entry w1 = (Inl e, w2)"
  shows "save_entries svc shared ts slug dir (pre @ entry # rest) acc w = (Inl e, w2)"
  using assms
proof (induction pre arbitrary: acc w paths)
  case Nil
  then show ?case by simp
next
  case (Cons x pre)
  from Cons.prems(1) obtain p w0 where x: "save_entry svc shared ts slug dir x w = (Inr p, w0)"
    by (auto split: prod.splits sum.splits)
  with Cons.prems(1) have "save_entries svc shared ts slug dir pre [p] w0 = (Inr paths, w1)"
    by simp
  then obtain qs where q: "save_entries svc shared ts slug dir pre [] w0 = (Inr qs, w1)"
    by (subst (asm) save_entries_acc) (auto split: prod.splits sum.splits)
  from Cons.IH [OF q Cons.prems(2)] x show ?case by simp
qed

lemma FileSaver_post_cases:
  "FileSaver_post svc shared entries results w =
     (case save_entries svc shared (or_else (out_timestamp (output' shared)) [])
             (or_else (out_slug (output' shared)) ''untitled'') (out_directory (output' shared))
             entries [] w of
        (Inl e, w') \<Rightarrow> (Inl e, shared, w')
      | (Inr savedFiles, w') \<Rightarrow>
          (Inr ''default'',
           shared\<lparr>output' := (output' shared)\<lparr>out_savedFiles := savedFiles\<rparr>\<rparr>, w'))"
  by (simp add: FileSaver_post_def Let_def)

lemma sim_prep3:
  "FileSaver_prep sim_state3 =
     [\<lparr>le_level = 1, le_name = Initial_Capture, le_content = ''a''\<rparr>,
      \<lparr>le_level = 2, le_name = Key_Passages, le_content = ''b''\<rparr>,
      \<lparr>le_level = 3, le_name = Distilled_Insights, le_content = ''c''\<rparr>]"
  by (simp add: FileSaver_prep_def layerConfigs_def sim_state3_def createInitialState_def)

lemma digit_char_eval:
  "digit_char 0 = CHR ''0''" "digit_char 1 = CHR ''1''" "digit_char 2 = CHR ''2''"
  "digit_char 3 = CHR ''3''" "digit_char 4 = CHR ''4''" "digit_char 5 = CHR ''5''"
  "digit_char 6 = CHR ''6''" "digit_char 7 = CHR ''7''" "digit_char 8 = CHR ''8''"
  "digit_char 9 = CHR ''9''" "digit_char (Suc 0) = CHR ''1''"
  by (simp_all add: digit_char_def char_of_eq_char_iff)

lemma String_nat_digit: "n < 10 \<Longrightarrow> String_nat n = [digit_char n]"
  by (simp add: String_nat.simps)

lemma sim_save_entry:
  "save_entry (sim_services reply) shared ts slug dir entry w =
     (if sim_room w = 0 then (Inl (Error (Some ''ENOSPC'') ''no space left on device''), w)
      else (Inr (sim_path_join dir (generateLayerFilename ts slug (le_level entry))),
            w\<lparr>sim_files := sim_files w @
                 [(sim_path_join dir (generateLayerFilename ts slug (le_level entry)),
                   artifact_text (md_title (metadata shared)) (md_author (metadata shared))
                     (md_sourceType (metadata shared)) ''2024-01-15T14:30:22.000Z'' entry)],
              sim_room := sim_room w - 1\<rparr>))"
  by (simp add: save_entry_def saveLayer_def ensureDirectory_def sim_services_def
      sim_writeFile_def Let_def generateFrontmatter_def artifact_text_def sim_date_def)

lemma sim_state3_saver:
  "or_else (out_timestamp (output' sim_state3)) [] = []"
  "or_else (out_slug (output' sim_state3)) ''untitled'' = ''untitled''"
  "out_directory (output' sim_state3) = ''./data/notes''"
  "out_savedFiles (output' sim_state3) = []"
  by (simp_all add: sim_state3_def createInitialState_def or_else_def)

text \<open>
  C1 (as the code has it). When the persistence call for one entry fails after the entries
  before it have been saved, finalize fails with that very error: the failure is
  propagated. The shared state is left as it was, so the list of saved paths still has the
  value it had before the node ran and does not name the artifacts already saved.
\<close>

theorem C1_failure_propagated_state_unchanged:
  assumes "fst (FileSaver_post svc shared pre results w) = Inr l"
    and "save_entry svc shared (or_else (out_timestamp (output' shared)) [])
           (or_else (out_slug (output' shared)) ''untitled'') (out_directory (output' shared))
           entry (snd (snd (FileSaver_post svc shared pre results w))) = (Inl e, w2)"
  shows "FileSaver_post svc shared (pre @ entry # rest) results w = (Inl e, shared, w2)
     \<and> out_savedFiles (output' (fst (snd
          (FileSaver_post svc shared (pre @ entry # rest) results w))))
        = out_savedFiles (output' shared)"
proof -
  let ?ts = "or_else (out_timestamp (output' shared)) []"
  let ?slug = "or_else (out_slug (output' shared)) ''untitled''"
  let ?dir = "out_directory (output' shared)"
  obtain r w1 where s: "save_entries svc shared ?ts ?slug ?dir pre [] w = (r, w1)"
    by (cases "save_entries svc shared ?ts ?slug ?dir pre [] w")
  with assms(1) obtain ps where r: "r = Inr ps"
    by (cases r) (simp_all add: FileSaver_post_cases)
  from s r have w1: "snd (snd (FileSaver_post svc shared pre results w)) = w1"
    by (simp add: FileSaver_post_cases)
  from s r have a: "save_entries svc shared ?ts ?slug ?dir pre [] w = (Inr ps, w1)" by simp
  from assms(2) w1 have b: "save_entry svc shared ?ts ?slug ?dir entry w1 = (Inl e, w2)" by simp
  have "save_entries svc shared ?ts ?slug ?dir (pre @ entry # rest) [] w = (Inl e, w2)"
    using a b by (rule save_entries_append_fail)
  then have "FileSaver_post svc shared (pre @ entry # rest) results w = (Inl e, shared, w2)"
    by (simp add: FileSaver_post_cases)
  then show ?thesis by simp
qed
theorem C1_failure_propagated_state_unchanged_witness:
  "fst (FileSaver_post (sim_services []) sim_state3
          [\<lparr>le_level = 1, le_name = Initial_Capture, le_content = ''a''\<rparr>,
           \<lparr>le_level = 2, le_name = Key_Passages, le_content = ''b''\<rparr>] []
          \<lparr>sim_files = [], sim_room = 2\<rparr>) = Inr ''default''
   \<and> fst (FileSaver_post (sim_services []) sim_state3
          ([\<lparr>le_level = 1, le_name = Initial_Capture, le_content = ''a''\<rparr>,
            \<lparr>le_level = 2, le_name = Key_Passages, le_content = ''b''\<rparr>] @
           \<lparr>le_level = 3, le_name = Distilled_Insights, le_content = ''c''\<rparr> # []) []
          \<lparr>sim_files = [], sim_room = 2\<rparr>)
       = Inl (Error (Some ''ENOSPC'') ''no space left on device'')
   \<and> fst (snd (FileSaver_post (sim_services []) sim_state3
          ([\<lparr>le_level = 1, le_name = Initial_Capture, le_content = ''a''\<rparr>,
            \<lparr>le_level = 2, le_name = Key_Passages, le_content = ''b''\<rparr>] @
           \<lparr>le_level = 3, le_name = Distilled_Insights, le_content = ''c''\<rparr> # []) []
          \<lparr>sim_files = [], sim_room = 2\<rparr>)) = sim_state3"
proof -
  let ?pre = "[\<lparr>le_level = 1, le_name = Initial_Capture, le_content = ''a''\<rparr>,
           \<lparr>le_level = 2, le_name = Key_Passages, le_content = ''b''\<rparr>]"
  let ?entry = "\<lparr>le_level = 3, le_name = Distilled_Insights, le_content = ''c''\<rparr>"
  let ?w = "\<lparr>sim_files = [], sim_room = 2\<rparr>"
  let ?w1 = "snd (snd (FileSaver_post (sim_services []) sim_state3 ?pre [] ?w))"
  have h1: "fst (FileSaver_post (sim_services []) sim_state3 ?pre [] ?w) = Inr ''default''"
    by (simp add: FileSaver_post_def Let_def sim_state3_saver sim_save_entry)
  have room: "sim_room ?w1 = 0"
    by (simp add: FileSaver_post_def Let_def sim_state3_saver sim_save_entry)
  have h2: "save_entry (sim_services []) sim_state3 (or_else (out_timestamp (output' sim_state3)) [])
           (or_else (out_slug (output' sim_state3)) ''untitled'') (out_directory (output' sim_state3))
           ?entry ?w1 = (Inl (Error (Some ''ENOSPC'') ''no space left on device''), ?w1)"
    unfolding sim_state3_saver sim_save_entry using room by simp
  from C1_failure_propagated_state_unchanged [OF h1 h2, of "[]"] h1
  show ?thesis by simp
qed
text \<open>
  C1 (as the specification states it) fails. With three layers to save and room for two
  files, the third write fails; two files are on the disk, and the list of saved paths in
  the shared state is empty when the failure is surfaced.
\<close>

theorem C1_saved_paths_missing_after_failure:
  "fst (FileSaver_post (sim_services []) sim_state3 (FileSaver_prep sim_state3) []
          \<lparr>sim_files = [], sim_room = 2\<rparr>)
     = Inl (Error (Some ''ENOSPC'') ''no space left on device'')
   \<and> map fst (sim_files (snd (snd
        (FileSaver_post (sim_services []) sim_state3 (FileSaver_prep sim_state3) []
           \<lparr>sim_files = [], sim_room = 2\<rparr>))))
     = [''data/notes/_untitled_level-1.md'', ''data/notes/_untitled_level-2.md'']
   \<and> out_savedFiles (output' (fst (snd
        (FileSaver_post (sim_services []) sim_state3 (FileSaver_prep sim_state3) []
           \<lparr>sim_files = [], sim_room = 2\<rparr>)))) = []"
proof -
  have ts: "or_else (out_timestamp (output' sim_state3)) [] = []"
    and slug: "or_else (out_slug (output' sim_state3)) ''untitled'' = ''untitled''"
    and dir: "out_directory (output' sim_state3) = ''./data/notes''"
    and sf: "out_savedFiles (output' sim_state3) = []"
    by (simp_all add: sim_state3_def createInitialState_def or_else_def)
  show ?thesis
    by (simp add: FileSaver_post_def Let_def ts slug dir sf sim_prep3 sim_save_entry
        sim_path_join_def generateLayerFilename_def String_nat_digit digit_char_eval)
qed

subsection \<open>The persisted artifacts\<close>

lemma recording_fields:
  "new_Date (recording svc) wl = new_Date svc (fst wl)"
  "path_join (recording svc) = path_join svc"
  "fs_mkdir (recording svc) d wl = (case fs_mkdir svc d (fst wl) of (r, w') \<Rightarrow> (r, (w', snd wl)))"
  "fs_writeFile (recording svc) path text wl =
     (case fs_writeFile svc path text (fst wl) of
        (Inl e, w') \<Rightarrow> (Inl e, (w', snd wl))
      | (Inr u, w') \<Rightarrow> (Inr u, (w', snd wl @ [(path, text)])))"
  by (simp_all add: recording_def lift_io_def)

lemma frontmatter_header_text:
  "generateFrontmatter
     \<lparr>lm_title = title, lm_layer = le_level entry, lm_layerName = le_name entry,
      lm_sourceType = sourceType, lm_created = created,
      lm_wordCount = countWords (le_content entry), lm_author = author\<rparr>
   @ (''# L'' @ String_nat (le_level entry) @ '': '' @ title @ '' - '' @
        LayerName_string (le_name entry) @ [CHR 0x0A, CHR 0x0A])
   @ le_content entry
   = artifact_text title author sourceType created entry"
  by (simp add: generateFrontmatter_def artifact_text_def Let_def)

lemma save_entry_recording:
  assumes "save_entry (recording svc) shared ts slug dir entry wl = (Inr p, wl')"
  shows "snd wl' = snd wl @
           [(path_join svc dir (ts @ ''_'' @ slug @ ''_level-'' @ String_nat (le_level entry) @ ''.md''),
             artifact_text (md_title (metadata shared)) (md_author (metadata shared))
               (md_sourceType (metadata shared)) (toISOString (new_Date svc (fst wl))) entry)]"
proof -
  have "generateFrontmatter
     \<lparr>lm_title = md_title (metadata shared), lm_layer = le_level entry, lm_layerName = le_name entry,
      lm_sourceType = md_sourceType (metadata shared), lm_created = toISOString (new_Date svc (fst wl)),
      lm_wordCount = countWords (le_content entry), lm_author = md_author (metadata shared)\<rparr>
   @ ''# L'' @ String_nat (le_level entry) @ '': '' @ md_title (metadata shared) @ '' - '' @
        LayerName_string (le_name entry) @ [CHR 0x0A, CHR 0x0A]
   @ le_content entry
   = artifact_text (md_title (metadata shared)) (md_author (metadata shared))
       (md_sourceType (metadata shared)) (toISOString (new_Date svc (fst wl))) entry"
    using frontmatter_header_text by simp
  with assms show ?thesis
    by (auto simp: save_entry_def saveLayer_def ensureDirectory_def recording_fields Let_def
        generateLayerFilename_def split: prod.splits sum.splits if_splits)
qed

lemma save_entries_recording:
  "save_entries (recording svc) shared ts slug dir es acc wl = (Inr ps, wl') \<Longrightarrow>
     \<exists>times. length times = length es \<and>
       snd wl' = snd wl @
         map (\<lambda>(entry, created).
                (path_join svc dir (ts @ ''_'' @ slug @ ''_level-'' @ String_nat (le_level entry) @ ''.md''),
                 artifact_text (md_title (metadata shared)) (md_author (metadata shared))
                   (md_sourceType (metadata shared)) created entry))
           (zip es times)"
proof (induction es arbitrary: acc wl)
  case Nil
  then show ?case by simp
next
  case (Cons entry es)
  from Cons.prems obtain p wl1 where
    e: "save_entry (recording svc) shared ts slug dir entry wl = (Inr p, wl1)"
    and r: "save_entries (recording svc) shared ts slug dir es (acc @ [p]) wl1 = (Inr ps, wl')"
    by (auto split: prod.splits sum.splits)
  from Cons.IH [OF r] obtain times where
    t: "length times = length es"
    and l: "snd wl' = snd wl1 @
         map (\<lambda>(entry, created).
                (path_join svc dir (ts @ ''_'' @ slug @ ''_level-'' @ String_nat (le_level entry) @ ''.md''),
                 artifact_text (md_title (metadata shared)) (md_author (metadata shared))
                   (md_sourceType (metadata shared)) created entry))
           (zip es times)"
    by blast
  let ?times = "toISOString (new_Date svc (fst wl)) # times"
  have "length ?times = length (entry # es)" using t by simp
  moreover have "snd wl' = snd wl @
         map (\<lambda>(entry, created).
                (path_join svc dir (ts @ ''_'' @ slug @ ''_level-'' @ String_nat (le_level entry) @ ''.md''),
                 artifact_text (md_title (metadata shared)) (md_author (metadata shared))
                   (md_sourceType (metadata shared)) created entry))
           (zip (entry # es) ?times)"
    using l save_entry_recording [OF e] by simp
  ultimately show ?case by blast
qed

lemma sim_save_entry_recording:
  "save_entry (recording (sim_services reply)) shared ts slug dir entry (w, log) =
     (if sim_room w = 0 then (Inl (Error (Some ''ENOSPC'') ''no space left on device''), (w, log))
      else (Inr (sim_path_join dir (generateLayerFilename ts slug (le_level entry))),
            (w\<lparr>sim_files := sim_files w @
                 [(sim_path_join dir (generateLayerFilename ts slug (le_level entry)),
                   artifact_text (md_title (metadata shared)) (md_author (metadata shared))
                     (md_sourceType (metadata shared)) ''2024-01-15T14:30:22.000Z'' entry)],
              sim_room := sim_room w - 1\<rparr>,
             log @ [(sim_path_join dir (generateLayerFilename ts slug (le_level entry)),
                   artifact_text (md_title (metadata shared)) (md_author (metadata shared))
                     (md_sourceType (metadata shared)) ''2024-01-15T14:30:22.000Z'' entry)])))"
  by (simp add: save_entry_def saveLayer_def ensureDirectory_def recording_fields sim_services_def
      sim_writeFile_def Let_def generateFrontmatter_def artifact_text_def sim_date_def)

lemma sim_prep_gaps:
  "FileSaver_prep sim_state_gaps =
     [\<lparr>le_level = 1, le_name = Initial_Capture, le_content = ''Focus is a skill.''\<rparr>,
      \<lparr>le_level = 2, le_name = Key_Passages, le_content = ''**Focus** is a skill.''\<rparr>,
      \<lparr>le_level = 5, le_name = Creative_Output, le_content = ''Practise focus.''\<rparr>]"
  by (simp add: FileSaver_prep_def layerConfigs_def sim_state_gaps_def)

lemma sim_post_gaps:
  "FileSaver_post (recording (sim_services [])) sim_state_gaps (FileSaver_prep sim_state_gaps)
     results (\<lparr>sim_files = [], sim_room = 5\<rparr>, [])
   = (Inr ''default'',
      sim_state_gaps\<lparr>output' := (output' sim_state_gaps)\<lparr>out_savedFiles :=
        [''data/notes/20240115-143022_focus_level-1.md'',
         ''data/notes/20240115-143022_focus_level-2.md'',
         ''data/notes/20240115-143022_focus_level-5.md'']\<rparr>\<rparr>,
      \<lparr>sim_files =
         [(''data/notes/20240115-143022_focus_level-1.md'',
           artifact_text ''Focus'' (Some ''Ann'') ''text'' ''2024-01-15T14:30:22.000Z''
             \<lparr>le_level = 1, le_name = Initial_Capture, le_content = ''Focus is a skill.''\<rparr>),
          (''data/notes/20240115-143022_focus_level-2.md'',
           artifact_text ''Focus'' (Some ''Ann'') ''text'' ''2024-01-15T14:30:22.000Z''
             \<lparr>le_level = 2, le_name = Key_Passages, le_content = ''**Focus** is a skill.''\<rparr>),
          (''data/notes/20240115-143022_focus_level-5.md'',
           artifact_text ''Focus'' (Some ''Ann'') ''text'' ''2024-01-15T14:30:22.000Z''
             \<lparr>le_level = 5, le_name = Creative_Output, le_content = ''Practise focus.''\<rparr>)],
       sim_room = 2\<rparr>,
      [(''data/notes/20240115-143022_focus_level-1.md'',
        artifact_text ''Focus'' (Some ''Ann'') ''text'' ''2024-01-15T14:30:22.000Z''
          \<lparr>le_level = 1, le_name = Initial_Capture, le_content = ''Focus is a skill.''\<rparr>),
       (''data/notes/20240115-143022_focus_level-2.md'',
        artifact_text ''Focus'' (Some ''Ann'') ''text'' ''2024-01-15T14:30:22.000Z''
          \<lparr>le_level = 2, le_name = Key_Passages, le_content = ''**Focus** is a skill.''\<rparr>),
       (''data/notes/20240115-143022_focus_level-5.md'',
        artifact_text ''Focus'' (Some ''Ann'') ''text'' ''2024-01-15T14:30:22.000Z''
          \<lparr>le_level = 5, le_name = Creative_Output, le_content = ''Practise focus.''\<rparr>)])"
  unfolding sim_prep_gaps
  by (simp add: FileSaver_post_cases sim_save_entry_recording sim_path_join_def
      generateLayerFilename_def String_nat_digit digit_char_eval or_else_def sim_state_gaps_def)



subsection \<open>One artifact per populated layer\<close>

lemma FileSaver_prep_entries:
  "FileSaver_prep shared =
     map (\<lambda>n. \<lparr>le_level = n, le_name = getLayerName n,
                le_content = the (layer_slot n (layers shared))\<rparr>)
       (filter (\<lambda>n. truthy (layer_slot n (layers shared))) [1, 2, 3, 4, 5])"
  by (simp add: FileSaver_prep_def layerConfigs_def layer_slot_def getLayerName_def Let_def)

lemma save_entry_recording_plain:
  "save_entry (recording svc) shared ts slug dir entry (w, log) = (r, wl') \<Longrightarrow>
     save_entry svc shared ts slug dir entry w = (r, fst wl')"
  by (auto simp: save_entry_def saveLayer_def ensureDirectory_def recording_fields Let_def
      split: prod.splits sum.splits if_splits)

lemma save_entries_recording_plain:
  "save_entries (recording svc) shared ts slug dir es acc (w, log) = (r, wl') \<Longrightarrow>
     save_entries svc shared ts slug dir es acc w = (r, fst wl')"
proof (induction es arbitrary: acc w log)
  case Nil
  then show ?case by auto
next
  case (Cons entry es)
  obtain x wl1 where e: "save_entry (recording svc) shared ts slug dir entry (w, log) = (x, wl1)"
    by (cases "save_entry (recording svc) shared ts slug dir entry (w, log)")
  from save_entry_recording_plain [OF e]
  have p: "save_entry svc shared ts slug dir entry w = (x, fst wl1)" .
  show ?case
  proof (cases x)
    case (Inl err)
    with e p Cons.prems show ?thesis by auto
  next
    case (Inr path)
    obtain w1 log1 where wl1: "wl1 = (w1, log1)" by (cases wl1)
    from Cons.prems e Inr wl1
    have "save_entries (recording svc) shared ts slug dir es (acc @ [path]) (w1, log1) = (r, wl')"
      by simp
    from Cons.IH [OF this] p Inr wl1 show ?thesis by simp
  qed
qed

text \<open>
  C5. When the finalize phase of the batch save node completes on the entries its prepare
  phase produced, it has written exactly one file per layer slot that holds a non-empty
  string, and no other file, in ascending order of the layer number: the file of layer n
  has the name of that layer in the output directory, and its text is the artifact of the
  text in slot n. The list of saved paths it assigns in the shared state is the list of the
  paths of these files, in the same order, and nothing else of the shared state changes.
  The outcome does not depend on the list of per-item execution results, so not on the
  order in which the items were executed. The writes are observed with the recording
  services; with the plain services the result and the shared state are the same.
\<close>

theorem C5_saved_paths_in_layer_order:
  assumes "fst (FileSaver_post (recording svc) shared (FileSaver_prep shared) results (w, log)) = Inr l"
  shows "\<exists>times s' w' log'.
     FileSaver_post (recording svc) shared (FileSaver_prep shared) results (w, log)
       = (Inr l, s', (w', log'))
     \<and> FileSaver_post svc shared (FileSaver_prep shared) results w = (Inr l, s', w')
     \<and> length times = length (filter (\<lambda>n. truthy (layer_slot n (layers shared))) [1, 2, 3, 4, 5])
     \<and> log' = log @
          map (\<lambda>(n, created).
                 (path_join svc (out_directory (output' shared))
                    (generateLayerFilename (or_else (out_timestamp (output' shared)) [])
                       (or_else (out_slug (output' shared)) ''untitled'') n),
                  artifact_text (md_title (metadata shared)) (md_author (metadata shared))
                    (md_sourceType (metadata shared)) created
                    \<lparr>le_level = n, le_name = getLayerName n,
                     le_content = the (layer_slot n (layers shared))\<rparr>))
            (zip (filter (\<lambda>n. truthy (layer_slot n (layers shared))) [1, 2, 3, 4, 5]) times)
     \<and> s' = shared\<lparr>output' := (output' shared)\<lparr>out_savedFiles :=
          map (\<lambda>n. path_join svc (out_directory (output' shared))
                 (generateLayerFilename (or_else (out_timestamp (output' shared)) [])
                    (or_else (out_slug (output' shared)) ''untitled'') n))
            (filter (\<lambda>n. truthy (layer_slot n (layers shared))) [1, 2, 3, 4, 5])\<rparr>\<rparr>
     \<and> sorted_wrt (<) (filter (\<lambda>n. truthy (layer_slot n (layers shared))) [1, 2, 3, 4, 5])
     \<and> FileSaver_post (recording svc) shared (FileSaver_prep shared) results' (w, log)
          = FileSaver_post (recording svc) shared (FileSaver_prep shared) results (w, log)"
proof -
  let ?ts = "or_else (out_timestamp (output' shared)) []"
  let ?slug = "or_else (out_slug (output' shared)) ''untitled''"
  let ?dir = "out_directory (output' shared)"
  let ?levels = "filter (\<lambda>n. truthy (layer_slot n (layers shared))) [1, 2, 3, 4, 5]"
  let ?mk = "\<lambda>n. \<lparr>le_level = n, le_name = getLayerName n,
                le_content = the (layer_slot n (layers shared))\<rparr>"
  let ?path = "\<lambda>n. path_join svc ?dir (generateLayerFilename ?ts ?slug n)"
  have prep: "FileSaver_prep shared = map ?mk ?levels" by (rule FileSaver_prep_entries)
  obtain r wl' where s: "save_entries (recording svc) shared ?ts ?slug ?dir (FileSaver_prep shared) [] (w, log) = (r, wl')"
    by (cases "save_entries (recording svc) shared ?ts ?slug ?dir (FileSaver_prep shared) [] (w, log)")
  with assms obtain ps where r: "r = Inr ps" and l: "l = ''default''"
    by (cases r) (simp_all add: FileSaver_post_cases)
  obtain w' log' where wl': "wl' = (w', log')" by (cases wl')
  from s r have sr: "save_entries (recording svc) shared ?ts ?slug ?dir (FileSaver_prep shared) [] (w, log) = (Inr ps, wl')"
    by simp
  from save_entries_paths [OF sr]
  have "ps = map (\<lambda>entry. path_join svc ?dir (generateLayerFilename ?ts ?slug (le_level entry)))
      (FileSaver_prep shared)"
    by (simp add: recording_fields)
  then have ps: "ps = map ?path ?levels"
    unfolding prep by (simp add: comp_def)
  define s' where "s' = shared\<lparr>output' := (output' shared)\<lparr>out_savedFiles := map ?path ?levels\<rparr>\<rparr>"
  from sr ps l have 1: "FileSaver_post (recording svc) shared (FileSaver_prep shared) results (w, log)
       = (Inr l, s', (w', log'))"
    by (simp add: FileSaver_post_cases wl' s'_def)
  from save_entries_recording_plain [OF sr]
  have "save_entries svc shared ?ts ?slug ?dir (FileSaver_prep shared) [] w = (Inr ps, w')"
    by (simp add: wl')
  with ps l have 2: "FileSaver_post svc shared (FileSaver_prep shared) results w = (Inr l, s', w')"
    by (simp add: FileSaver_post_cases s'_def)
  from save_entries_recording [OF sr] obtain times where
    t: "length times = length (FileSaver_prep shared)"
    and lg: "snd wl' = snd (w, log) @
         map (\<lambda>(entry, created).
                (path_join svc ?dir (?ts @ ''_'' @ ?slug @ ''_level-'' @ String_nat (le_level entry) @ ''.md''),
                 artifact_text (md_title (metadata shared)) (md_author (metadata shared))
                   (md_sourceType (metadata shared)) created entry))
           (zip (FileSaver_prep shared) times)"
    by blast
  from t have 3: "length times = length ?levels" unfolding prep by simp
  have z: "zip (map ?mk ?levels) times = map (\<lambda>(n, created). (?mk n, created)) (zip ?levels times)"
    by (simp add: zip_map1)
  from lg have 4: "log' = log @
          map (\<lambda>(n, created).
                 (?path n,
                  artifact_text (md_title (metadata shared)) (md_author (metadata shared))
                    (md_sourceType (metadata shared)) created (?mk n)))
            (zip ?levels times)"
    unfolding prep z by (simp add: wl' generateLayerFilename_def comp_def case_prod_unfold)
  have 5: "sorted_wrt (<) ?levels" by (rule sorted_wrt_filter) simp
  have 6: "FileSaver_post (recording svc) shared (FileSaver_prep shared) results' (w, log)
          = FileSaver_post (recording svc) shared (FileSaver_prep shared) results (w, log)"
    by (simp add: FileSaver_post_cases)
  show ?thesis
    by (rule exI [of _ times], rule exI [of _ s'], rule exI [of _ w'], rule exI [of _ log'])
      (intro conjI 1 2 3 4 s'_def 5 6)
qed

theorem C5_saved_paths_in_layer_order_witness:
  "fst (FileSaver_post (recording (sim_services [])) sim_state_gaps (FileSaver_prep sim_state_gaps)
          [''Focus is a skill.'', ''**Focus** is a skill.'', ''Practise focus.'']
          (\<lparr>sim_files = [], sim_room = 5\<rparr>, [])) = Inr ''default''
   \<and> out_savedFiles (output' (fst (snd
        (FileSaver_post (recording (sim_services [])) sim_state_gaps (FileSaver_prep sim_state_gaps)
           [''Focus is a skill.'', ''**Focus** is a skill.'', ''Practise focus.'']
           (\<lparr>sim_files = [], sim_room = 5\<rparr>, [])))))
     = [''data/notes/20240115-143022_focus_level-1.md'',
        ''data/notes/20240115-143022_focus_level-2.md'',
        ''data/notes/20240115-143022_focus_level-5.md'']
   \<and> map fst (snd (snd (snd
        (FileSaver_post (recording (sim_services [])) sim_state_gaps (FileSaver_prep sim_state_gaps)
           [''Focus is a skill.'', ''**Focus** is a skill.'', ''Practise focus.'']
           (\<lparr>sim_files = [], sim_room = 5\<rparr>, [])))))
     = [''data/notes/20240115-143022_focus_level-1.md'',
        ''data/notes/20240115-143022_focus_level-2.md'',
        ''data/notes/20240115-143022_focus_level-5.md'']
   \<and> (\<exists>times s' w' log'.
     FileSaver_post (recording (sim_services [])) sim_state_gaps (FileSaver_prep sim_state_gaps)
         [''Focus is a skill.'', ''**Focus** is a skill.'', ''Practise focus.'']
         (\<lparr>sim_files = [], sim_room = 5\<rparr>, [])
       = (Inr ''default'', s', (w', log'))
     \<and> FileSaver_post (sim_services []) sim_state_gaps (FileSaver_prep sim_state_gaps)
         [''Focus is a skill.'', ''**Focus** is a skill.'', ''Practise focus.'']
         \<lparr>sim_files = [], sim_room = 5\<rparr> = (Inr ''default'', s', w')
     \<and> length times = length (filter (\<lambda>n. truthy (layer_slot n (layers sim_state_gaps))) [1, 2, 3, 4, 5])
     \<and> log' = [] @
          map (\<lambda>(n, created).
                 (path_join (sim_services []) (out_directory (output' sim_state_gaps))
                    (generateLayerFilename (or_else (out_timestamp (output' sim_state_gaps)) [])
                       (or_else (out_slug (output' sim_state_gaps)) ''untitled'') n),
                  artifact_text (md_title (metadata sim_state_gaps)) (md_author (metadata sim_state_gaps))
                    (md_sourceType (metadata sim_state_gaps)) created
                    \<lparr>le_level = n, le_name = getLayerName n,
                     le_content = the (layer_slot n (layers sim_state_gaps))\<rparr>))
            (zip (filter (\<lambda>n. truthy (layer_slot n (layers sim_state_gaps))) [1, 2, 3, 4, 5]) times)
     \<and> s' = sim_state_gaps\<lparr>output' := (output' sim_state_gaps)\<lparr>out_savedFiles :=
          map (\<lambda>n. path_join (sim_services []) (out_directory (output' sim_state_gaps))
                 (generateLayerFilename (or_else (out_timestamp (output' sim_state_gaps)) [])
                    (or_else (out_slug (output' sim_state_gaps)) ''untitled'') n))
            (filter (\<lambda>n. truthy (layer_slot n (layers sim_state_gaps))) [1, 2, 3, 4, 5])\<rparr>\<rparr>
     \<and> sorted_wrt (<) (filter (\<lambda>n. truthy (layer_slot n (layers sim_state_gaps))) [1, 2, 3, 4, 5])
     \<and> FileSaver_post (recording (sim_services [])) sim_state_gaps (FileSaver_prep sim_state_gaps)
          [''Practise focus.'', ''**Focus** is a skill.'', ''Focus is a skill.'']
          (\<lparr>sim_files = [], sim_room = 5\<rparr>, [])
          = FileSaver_post (recording (sim_services [])) sim_state_gaps (FileSaver_prep sim_state_gaps)
              [''Focus is a skill.'', ''**Focus** is a skill.'', ''Practise focus.'']
              (\<lparr>sim_files = [], sim_room = 5\<rparr>, []))"
proof -
  have h: "fst (FileSaver_post (recording (sim_services [])) sim_state_gaps (FileSaver_prep sim_state_gaps)
          [''Focus is a skill.'', ''**Focus** is a skill.'', ''Practise focus.'']
          (\<lparr>sim_files = [], sim_room = 5\<rparr>, [])) = Inr ''default''"
    unfolding sim_post_gaps by simp
  have p: "out_savedFiles (output' (fst (snd
        (FileSaver_post (recording (sim_services [])) sim_state_gaps (FileSaver_prep sim_state_gaps)
           [''Focus is a skill.'', ''**Focus** is a skill.'', ''Practise focus.'']
           (\<lparr>sim_files = [], sim_room = 5\<rparr>, [])))))
     = [''data/notes/20240115-143022_focus_level-1.md'',
        ''data/notes/20240115-143022_focus_level-2.md'',
        ''data/notes/20240115-143022_focus_level-5.md'']"
    unfolding sim_post_gaps by simp
  have q: "map fst (snd (snd (snd
        (FileSaver_post (recording (sim_services [])) sim_state_gaps (FileSaver_prep sim_state_gaps)
           [''Focus is a skill.'', ''**Focus** is a skill.'', ''Practise focus.'']
           (\<lparr>sim_files = [], sim_room = 5\<rparr>, [])))))
     = [''data/notes/20240115-143022_focus_level-1.md'',
        ''data/notes/20240115-143022_focus_level-2.md'',
        ''data/notes/20240115-143022_focus_level-5.md'']"
    unfolding sim_post_gaps by simp
  show ?thesis
    by (intro conjI h p q
        C5_saved_paths_in_layer_order [OF h,
          of "[''Practise focus.'', ''**Focus** is a skill.'', ''Focus is a skill.'']"])
qed

subsection \<open>The engine and the run of the note flow\<close>

lemma exec_attempts_success:
  "ex p w = (Inr r, w') \<Longrightarrow> exec_attempts wt secs ex p k w = (Inr r, w')"
  by (cases k) simp_all

lemma exec_attempts_all_fail:
  "(\<forall>w. \<exists>e. fst (ex p w) = Inl e) \<Longrightarrow> \<exists>e. fst (exec_attempts wt secs ex p k w) = Inl e"
proof (induction k arbitrary: w)
  case 0
  then show ?case by simp
next
  case (Suc k)
  from Suc.prems obtain e where e: "fst (ex p w) = Inl e" by blast
  then obtain w' where "ex p w = (Inl e, w')" by (cases "ex p w") simp
  with Suc.IH [OF Suc.prems] show ?case by simp
qed

lemma Node_exec_success:
  "ex p w = (Inr r, w') \<Longrightarrow> Node_exec svc pol ex p w = (Inr r, w')"
  unfolding Node_exec_def by (rule exec_attempts_success)

lemma Node_exec_all_fail:
  "(\<forall>w. \<exists>e. fst (ex p w) = Inl e) \<Longrightarrow> \<exists>e. fst (Node_exec svc pol ex p w) = Inl e"
  unfolding Node_exec_def by (rule exec_attempts_all_fail)

lemma Node_exec_last:
  "ex p w = (Inl e, w') \<Longrightarrow> node_maxRetries pol \<le> 1 \<Longrightarrow> Node_exec svc pol ex p w = (Inl e, w')"
  unfolding Node_exec_def by simp

lemma Node_exec_retry:
  assumes "ex p w = (Inl e, w')" and "1 < node_maxRetries pol"
  shows "Node_exec svc pol ex p w =
    Node_exec svc (pol\<lparr>node_maxRetries := node_maxRetries pol - 1\<rparr>) ex p
      (wait_seconds svc (node_wait pol) w')"
proof -
  from assms(2) obtain k where k: "node_maxRetries pol - 1 = Suc k"
    by (cases "node_maxRetries pol - 1") simp_all
  then have "node_maxRetries pol - 1 - 1 = k" by simp
  with k assms(1) show ?thesis
    by (simp add: Node_exec_def)
qed

lemma BatchNode_exec_FileSaver:
  "BatchNode_exec svc pol (FileSaver_exec svc) items w = (Inr (map (JSON_stringify svc) items), w)"
proof (induction items)
  case Nil
  then show ?case by simp
next
  case (Cons item items)
  have "Node_exec svc pol (FileSaver_exec svc) item w = (Inr (JSON_stringify svc item), w)"
    by (rule Node_exec_success) (simp add: FileSaver_exec_def)
  with Cons show ?case by simp
qed

lemma flow_policy_createNoteFlow: "flow_policy (createNoteFlow dflt) n = dflt"
  by (cases n) (simp_all add: createNoteFlow_def Let_def Node_new_def)

lemma orchestrate_chain:
  "routes run rt ns \<Longrightarrow> ns \<noteq> [] \<Longrightarrow> length (fst (snd (run_chain run ns s w))) \<le> fuel \<Longrightarrow>
     Flow_orchestrate fuel run rt (hd ns) s w = Some (run_chain run ns s w)"
proof (induction run rt ns arbitrary: fuel s w rule: routes.induct)
  case (1 run rt)
  then show ?case by simp
next
  case (2 run rt n)
  from "2.prems"(3) obtain k where k: "fuel = Suc k"
    by (cases fuel) (auto split: prod.splits sum.splits)
  obtain r s1 w1 where r: "run n s w = (r, s1, w1)" by (cases "run n s w")
  show ?case
  proof (cases r)
    case (Inl e)
    with r show ?thesis unfolding k by simp
  next
    case (Inr l)
    from "2.prems"(1) have "\<forall>s w l s' w'. run n s w = (Inr l, s', w') \<longrightarrow> rt n l = None"
      using routes.simps(2) [of run rt n] by blast
    with r Inr have "rt n l = None" by blast
    with r Inr show ?thesis unfolding k by simp
  qed
next
  case (3 run rt n m ns)
  from "3.prems"(3) obtain k where k: "fuel = Suc k"
    by (cases fuel) (auto split: prod.splits sum.splits)
  obtain r s1 w1 where r: "run n s w = (r, s1, w1)" by (cases "run n s w")
  show ?case
  proof (cases r)
    case (Inl e)
    with r show ?thesis unfolding k by simp
  next
    case (Inr l)
    from "3.prems"(1) have ar: "(\<forall>s w l s' w'. run n s w = (Inr l, s', w') \<longrightarrow> rt n l = Some m)
        \<and> routes run rt (m # ns)"
      using routes.simps(3) [of run rt n m ns] by blast
    then have a: "\<forall>s w l s' w'. run n s w = (Inr l, s', w') \<longrightarrow> rt n l = Some m"
      and rest: "routes run rt (m # ns)"
      by blast+
    from a r Inr have rt: "rt n l = Some m" by blast
    obtain out vis s2 w2 where rest_run: "run_chain run (m # ns) s1 w1 = (out, vis, s2, w2)"
      by (cases "run_chain run (m # ns) s1 w1")
    have full: "run_chain run (n # m # ns) s w = (out, n # vis, s2, w2)"
      using r Inr rest_run by (simp only: run_chain.simps(2) [of run n "m # ns"] prod.case sum.case)
    from "3.prems"(3) have "length vis \<le> k"
      unfolding full k by simp
    then have "length (fst (snd (run_chain run (m # ns) s1 w1))) \<le> k"
      unfolding rest_run by simp
    from "3.IH" [OF rest _ this]
    have "Flow_orchestrate k run rt m s1 w1 = Some (run_chain run (m # ns) s1 w1)"
      by simp
    then show ?thesis
      unfolding full k rest_run using r Inr rt by simp
  qed
qed

lemma InputDetector_exec_ok: "\<exists>t. InputDetector_exec svc inp w = (Inr t, w)"
  by (simp add: InputDetector_exec_def Let_def)

lemma run_InputDetector:
  "\<exists>t. run_node svc fl InputDetectorNode s w =
     (Inr (InputType_string t), s\<lparr>input := (input s)\<lparr>input_type := Some t\<rparr>\<rparr>, w)
     \<and> InputDetector_exec svc (input_raw (input s)) w = (Inr t, w)"
proof -
  obtain t where t: "InputDetector_exec svc (input_raw (input s)) w = (Inr t, w)"
    using InputDetector_exec_ok [of svc "input_raw (input s)" w] by blast
  then have "Node_exec svc (flow_policy fl InputDetectorNode) (InputDetector_exec svc)
      (input_raw (input s)) w = (Inr t, w)"
    by (rule Node_exec_success)
  with t show ?thesis
    by (simp add: Node_run_def InputDetector_prep_def pure_post_def InputDetector_post_def)
qed

lemma run_ContentExtractor:
  "run_node svc fl ContentExtractorNode s w =
     (case Node_exec svc (flow_policy fl ContentExtractorNode) (ContentExtractor_exec svc)
             (ContentExtractor_prep s) w of
        (Inl e, w') \<Rightarrow> (Inl e, s, w')
      | (Inr r, w') \<Rightarrow>
          (Inr ''default'', snd (ContentExtractor_post svc s (ContentExtractor_prep s) r w'), w'))"
  by (simp add: Node_run_def pure_post_def ContentExtractor_post_def Let_def
      split: prod.splits sum.splits)

lemma run_Layer1:
  "run_node svc fl Layer1CaptureNode s w =
     (case Node_exec svc (flow_policy fl Layer1CaptureNode) (Layer1_exec svc) (Layer1_prep s) w of
        (Inl e, w') \<Rightarrow> (Inl e, s, w')
      | (Inr r, w') \<Rightarrow> (Inr ''default'', s\<lparr>layers := (layers s)\<lparr>layer1 := Some r\<rparr>\<rparr>, w'))"
  by (simp add: Node_run_def pure_post_def Layer1_post_def split: prod.splits sum.splits)

lemma run_Layer2:
  "run_node svc fl Layer2BoldNode s w =
     (case Node_exec svc (flow_policy fl Layer2BoldNode) (Layer2_exec svc) (Layer2_prep s) w of
        (Inl e, w') \<Rightarrow> (Inl e, s, w')
      | (Inr r, w') \<Rightarrow> (Inr ''default'', s\<lparr>layers := (layers s)\<lparr>layer2 := Some r\<rparr>\<rparr>, w'))"
  by (simp add: Node_run_def pure_post_def Layer2_post_def split: prod.splits sum.splits)

lemma run_Layer3:
  "run_node svc fl Layer3DistillNode s w =
     (case Node_exec svc (flow_policy fl Layer3DistillNode) (Layer3_exec svc) (Layer3_prep s) w of
        (Inl e, w') \<Rightarrow> (Inl e, s, w')
      | (Inr r, w') \<Rightarrow> (Inr ''default'', s\<lparr>layers := (layers s)\<lparr>layer3 := Some r\<rparr>\<rparr>, w'))"
  by (simp add: Node_run_def pure_post_def Layer3_post_def split: prod.splits sum.splits)

lemma run_Layer4:
  "run_node svc fl Layer4SummaryNode s w =
     (case Node_exec svc (flow_policy fl Layer4SummaryNode) (Layer4_exec svc) (Layer4_prep s) w of
        (Inl e, w') \<Rightarrow> (Inl e, s, w')
      | (Inr r, w') \<Rightarrow> (Inr ''default'', s\<lparr>layers := (layers s)\<lparr>layer4 := Some r\<rparr>\<rparr>, w'))"
  by (simp add: Node_run_def pure_post_def Layer4_post_def split: prod.splits sum.splits)

lemma run_Layer5:
  "run_node svc fl Layer5CreativeNode s w =
     (case Node_exec svc (flow_policy fl Layer5CreativeNode) (Layer5_exec svc) (Layer5_prep s) w of
        (Inl e, w') \<Rightarrow> (Inl e, s, w')
      | (Inr r, w') \<Rightarrow> (Inr ''default'', s\<lparr>layers := (layers s)\<lparr>layer5 := Some r\<rparr>\<rparr>, w'))"
  by (simp add: Node_run_def pure_post_def Layer5_post_def split: prod.splits sum.splits)

lemma run_FileSaver:
  "run_node svc fl FileSaverNode s w =
     FileSaver_post svc s (FileSaver_prep s) (map (JSON_stringify svc) (FileSaver_prep s)) w"
  by (simp add: Node_run_def BatchNode_exec_FileSaver Let_def)

lemma ContentExtractor_post_fields:
  "snd (ContentExtractor_post svc s p r w) =
     s\<lparr>content := (content s)\<lparr>content_raw := er_content r\<rparr>,
       metadata := \<lparr>md_title = or_else (em_title (er_metadata r)) ''Untitled'',
                    md_author = em_author (er_metadata r), md_date = em_date (er_metadata r),
                    md_sourceType = (case input_type (input s) of None \<Rightarrow> ''text''
                                     | Some t \<Rightarrow> InputType_string t),
                    md_wordCount = em_wordCount (er_metadata r)\<rparr>,
       output' := (output' s)
         \<lparr>out_timestamp := Some (generateTimestamp (new_Date svc w)),
          out_slug := Some (slugify svc (or_else (em_title (er_metadata r)) ''Untitled''))\<rparr>\<rparr>"
  by (simp add: ContentExtractor_post_def Let_def)

declare run_node.simps [simp del]

lemmas run_node_forms =
  run_ContentExtractor run_Layer1 run_Layer2 run_Layer3 run_Layer4 run_Layer5 run_FileSaver
  FileSaver_post_cases ContentExtractor_post_fields

lemma run_node_failure_keeps_state:
  assumes "run_node svc fl n s w = (Inl e, s', w')"
  shows "s' = s"
proof (cases n)
  case InputDetectorNode
  with assms run_InputDetector [of svc fl s w] show ?thesis by auto
qed (use assms in \<open>auto simp: run_node_forms split: prod.splits sum.splits\<close>)

lemma run_node_label:
  assumes "run_node svc fl n s w = (Inr l, s', w')"
  shows "if n = InputDetectorNode then l \<in> {''text'', ''pdf'', ''image'', ''url''} else l = ''default''"
proof (cases n)
  case InputDetectorNode
  from run_InputDetector [of svc fl s w] obtain t where
    "run_node svc fl InputDetectorNode s w =
      (Inr (InputType_string t), s\<lparr>input := (input s)\<lparr>input_type := Some t\<rparr>\<rparr>, w)" by blast
  with assms InputDetectorNode have "l = InputType_string t" by simp
  with InputDetectorNode show ?thesis by (cases t) simp_all
qed (use assms in \<open>auto simp: run_node_forms split: prod.splits sum.splits\<close>)

lemma run_node_frame:
  assumes "run_node svc fl n s w = (r, s', w')" and "writer f \<noteq> Some n"
  shows "field_eq f s s'"
proof (cases n)
  case InputDetectorNode
  from run_InputDetector [of svc fl s w] obtain t where
    "run_node svc fl InputDetectorNode s w =
      (Inr (InputType_string t), s\<lparr>input := (input s)\<lparr>input_type := Some t\<rparr>\<rparr>, w)" by blast
  with assms InputDetectorNode show ?thesis by (cases f) auto
next
  case ContentExtractorNode
  with assms show ?thesis
    by (cases f) (auto simp: run_node_forms split: prod.splits sum.splits)
next
  case Layer1CaptureNode
  with assms show ?thesis
    by (cases f) (auto simp: run_node_forms split: prod.splits sum.splits)
next
  case Layer2BoldNode
  with assms show ?thesis
    by (cases f) (auto simp: run_node_forms split: prod.splits sum.splits)
next
  case Layer3DistillNode
  with assms show ?thesis
    by (cases f) (auto simp: run_node_forms split: prod.splits sum.splits)
next
  case Layer4SummaryNode
  with assms show ?thesis
    by (cases f) (auto simp: run_node_forms split: prod.splits sum.splits)
next
  case Layer5CreativeNode
  with assms show ?thesis
    by (cases f) (auto simp: run_node_forms split: prod.splits sum.splits)
next
  case FileSaverNode
  with assms show ?thesis
    by (cases f) (auto simp: run_node_forms split: prod.splits sum.splits)
qed

lemma successors_createNoteFlow:
  "flow_successors (createNoteFlow dflt) InputDetectorNode ''text'' = Some ContentExtractorNode"
  "flow_successors (createNoteFlow dflt) InputDetectorNode ''pdf'' = Some ContentExtractorNode"
  "flow_successors (createNoteFlow dflt) InputDetectorNode ''image'' = Some ContentExtractorNode"
  "flow_successors (createNoteFlow dflt) InputDetectorNode ''url'' = Some ContentExtractorNode"
  "flow_successors (createNoteFlow dflt) ContentExtractorNode ''default'' = Some Layer1CaptureNode"
  "flow_successors (createNoteFlow dflt) Layer1CaptureNode ''default'' = Some Layer2BoldNode"
  "flow_successors (createNoteFlow dflt) Layer2BoldNode ''default'' = Some Layer3DistillNode"
  "flow_successors (createNoteFlow dflt) Layer3DistillNode ''default'' = Some Layer4SummaryNode"
  "flow_successors (createNoteFlow dflt) Layer4SummaryNode ''default'' = Some Layer5CreativeNode"
  "flow_successors (createNoteFlow dflt) Layer5CreativeNode ''default'' = Some FileSaverNode"
  "flow_successors (createNoteFlow dflt) FileSaverNode ''default'' = None"
  by (simp_all add: createNoteFlow_def on_def next_node_def Let_def)

lemma route_step:
  assumes "run_node svc fl n s w = (Inr l, s', w')"
  shows "flow_successors (createNoteFlow dflt) n l =
     (case n of
        InputDetectorNode \<Rightarrow> Some ContentExtractorNode
      | ContentExtractorNode \<Rightarrow> Some Layer1CaptureNode
      | Layer1CaptureNode \<Rightarrow> Some Layer2BoldNode
      | Layer2BoldNode \<Rightarrow> Some Layer3DistillNode
      | Layer3DistillNode \<Rightarrow> Some Layer4SummaryNode
      | Layer4SummaryNode \<Rightarrow> Some Layer5CreativeNode
      | Layer5CreativeNode \<Rightarrow> Some FileSaverNode
      | FileSaverNode \<Rightarrow> None)"
proof (cases "n = InputDetectorNode")
  case True
  with run_node_label [OF assms] have "l \<in> {''text'', ''pdf'', ''image'', ''url''}" by simp
  with True show ?thesis by (auto simp: successors_createNoteFlow)
next
  case False
  with run_node_label [OF assms] have "l = ''default''" by simp
  with False show ?thesis by (cases n) (simp_all add: successors_createNoteFlow)
qed

lemma routes_note_chain:
  "routes (run_node svc fl) (flow_successors (createNoteFlow dflt)) note_chain"
  unfolding note_chain_def routes.simps
  by (intro conjI allI impI; drule route_step [where dflt = dflt]; simp)

lemma run_chain_vis_length: "length (fst (snd (run_chain run ns s w))) \<le> length ns"
proof (induction ns arbitrary: s w)
  case Nil
  then show ?case by simp
next
  case (Cons n ns)
  obtain r s1 w1 where r: "run n s w = (r, s1, w1)" by (cases "run n s w")
  show ?case
  proof (cases r)
    case (Inl e)
    with r show ?thesis by simp
  next
    case (Inr l)
    obtain out2 vis2 s2 w2 where rest: "run_chain run ns s1 w1 = (out2, vis2, s2, w2)"
      by (cases "run_chain run ns s1 w1")
    with Cons.IH [of s1 w1] have "length vis2 \<le> length ns" by simp
    with r Inr rest show ?thesis by simp
  qed
qed

lemma Flow_run_note_chain:
  assumes "length (fst (snd (run_chain (run_node svc (createNoteFlow dflt)) note_chain s w))) \<le> fuel"
  shows "Flow_run svc (createNoteFlow dflt) fuel s w =
     Some (run_chain (run_node svc (createNoteFlow dflt)) note_chain s w)"
proof -
  have st: "flow_start (createNoteFlow dflt) = hd note_chain"
    by (simp add: createNoteFlow_def note_chain_def Let_def)
  have ne: "note_chain \<noteq> []" by (simp add: note_chain_def)
  from orchestrate_chain [OF routes_note_chain ne assms] show ?thesis
    unfolding Flow_run_def st .
qed

lemma run_chain_prefix:
  "run_chain run ns s w = (out, vis, s', w') \<Longrightarrow> vis = take (length vis) ns"
  by (induction ns arbitrary: s w out vis s' w') (auto split: prod.splits sum.splits)

lemma run_chain_completed:
  "run_chain run ns s w = (Inr u, vis, s', w') \<Longrightarrow> vis = ns"
  by (induction ns arbitrary: s w vis s' w') (auto split: prod.splits sum.splits)

lemma field_eq_refl: "field_eq f s s"
  by (cases f) simp_all

lemma field_eq_trans: "field_eq f s t \<Longrightarrow> field_eq f t u \<Longrightarrow> field_eq f s u"
  by (cases f) simp_all

lemma run_chain_kept:
  assumes kept: "\<And>n s w r s1 w1. run n s w = (r, s1, w1) \<Longrightarrow> Q s \<Longrightarrow> Q s1"
  shows "run_chain run ns s w = (out, vis, s', w') \<Longrightarrow> Q s \<Longrightarrow> Q s'"
proof (induction ns arbitrary: s w out vis s' w')
  case Nil
  then show ?case by simp
next
  case (Cons n ns)
  obtain r s1 w1 where r: "run n s w = (r, s1, w1)" by (cases "run n s w")
  from kept [OF r Cons.prems(2)] have q1: "Q s1" .
  show ?case
  proof (cases r)
    case (Inl e)
    with Cons.prems(1) r q1 show ?thesis by simp
  next
    case (Inr l)
    obtain out2 vis2 s2 w2 where rest: "run_chain run ns s1 w1 = (out2, vis2, s2, w2)"
      by (cases "run_chain run ns s1 w1")
    with Cons.prems(1) r Inr have "s' = s2" by simp
    with Cons.IH [OF rest q1] show ?thesis by simp
  qed
qed

lemma run_chain_established:
  assumes kept: "\<And>n s w r s1 w1. run n s w = (r, s1, w1) \<Longrightarrow> Q s \<Longrightarrow> Q s1"
    and est: "\<And>s w l s1 w1. run m s w = (Inr l, s1, w1) \<Longrightarrow> Q s1"
  shows "run_chain run ns s w = (Inr u, vis, s', w') \<Longrightarrow> m \<in> set ns \<Longrightarrow> Q s'"
proof (induction ns arbitrary: s w vis s' w')
  case Nil
  then show ?case by simp
next
  case (Cons n ns)
  obtain r s1 w1 where r: "run n s w = (r, s1, w1)" by (cases "run n s w")
  show ?case
  proof (cases r)
    case (Inl e)
    with Cons.prems(1) r show ?thesis by simp
  next
    case (Inr l)
    obtain out2 vis2 s2 w2 where rest: "run_chain run ns s1 w1 = (out2, vis2, s2, w2)"
      by (cases "run_chain run ns s1 w1")
    with Cons.prems(1) r Inr have eq: "out2 = Inr u" "s' = s2" by simp_all
    show ?thesis
    proof (cases "m = n")
      case True
      with r Inr est have "Q s1" by blast
      with run_chain_kept [of run Q, OF kept rest] show ?thesis unfolding eq by simp
    next
      case False
      with Cons.prems(2) have "m \<in> set ns" by simp
      with Cons.IH [of s1 w1 vis2 s2 w2] rest eq show ?thesis by simp
    qed
  qed
qed

lemma act_is_run:
  "a \<in> set (activations run ns s w) \<Longrightarrow>
     run (act_node a) (act_before a) (act_world a) = (act_result a, act_after a, act_world_after a)"
proof (induction ns arbitrary: s w)
  case Nil
  then show ?case by simp
next
  case (Cons n ns)
  obtain r s1 w1 where r: "run n s w = (r, s1, w1)" by (cases "run n s w")
  show ?case
  proof (cases r)
    case (Inl e)
    with r Cons.prems show ?thesis by simp
  next
    case (Inr l)
    with r Cons.prems have "a = \<lparr>act_node = n, act_before = s, act_world = w, act_result = Inr l,
           act_after = s1, act_world_after = w1\<rparr> \<or> a \<in> set (activations run ns s1 w1)"
      by simp
    then show ?thesis
    proof
      assume "a = \<lparr>act_node = n, act_before = s, act_world = w, act_result = Inr l,
           act_after = s1, act_world_after = w1\<rparr>"
      with r Inr show ?thesis by simp
    next
      assume "a \<in> set (activations run ns s1 w1)"
      then show ?thesis by (rule Cons.IH)
    qed
  qed
qed

lemma activations_of_run_chain:
  "run_chain run ns s w = (out, vis, s', w') \<Longrightarrow>
     activations run vis s w = activations run ns s w
     \<and> map act_node (activations run ns s w) = vis
     \<and> (vis \<noteq> [] \<longrightarrow> act_after (last (activations run ns s w)) = s'
                    \<and> act_world_after (last (activations run ns s w)) = w')"
proof (induction ns arbitrary: s w out vis s' w')
  case Nil
  then show ?case by simp
next
  case (Cons n ns)
  obtain r s1 w1 where r: "run n s w = (r, s1, w1)" by (cases "run n s w")
  show ?case
  proof (cases r)
    case (Inl e)
    with r Cons.prems show ?thesis by auto
  next
    case (Inr l)
    obtain out2 vis2 s2 w2 where rest: "run_chain run ns s1 w1 = (out2, vis2, s2, w2)"
      by (cases "run_chain run ns s1 w1")
    with Cons.prems r Inr have eq: "out = out2" "vis = n # vis2" "s' = s2" "w' = w2"
      by simp_all
    from Cons.IH [OF rest] have ih: "activations run vis2 s1 w1 = activations run ns s1 w1"
      "map act_node (activations run ns s1 w1) = vis2"
      "vis2 \<noteq> [] \<longrightarrow> act_after (last (activations run ns s1 w1)) = s2
                    \<and> act_world_after (last (activations run ns s1 w1)) = w2"
      by blast+
    show ?thesis
    proof (cases "vis2 = []")
      case True
      with rest have "ns = []" by (cases ns) (auto split: prod.splits sum.splits)
      with rest r Inr eq True show ?thesis by simp
    next
      case False
      with ih(2) have "activations run ns s1 w1 \<noteq> []" by auto
      with ih r Inr eq False show ?thesis by simp
    qed
  qed
qed

lemma activations_hd:
  "activations run ns s w \<noteq> [] \<Longrightarrow> act_before (hd (activations run ns s w)) = s"
  by (cases ns) (auto split: prod.splits sum.splits)

lemma activations_linked:
  "Suc i < length (activations run ns s w) \<Longrightarrow>
     act_before (activations run ns s w ! Suc i) = act_after (activations run ns s w ! i)
     \<and> act_world (activations run ns s w ! Suc i) = act_world_after (activations run ns s w ! i)
     \<and> (\<exists>l. act_result (activations run ns s w ! i) = Inr l)"
proof (induction ns arbitrary: i s w)
  case Nil
  then show ?case by simp
next
  case (Cons n ns)
  obtain r s1 w1 where r: "run n s w = (r, s1, w1)" by (cases "run n s w")
  show ?case
  proof (cases r)
    case (Inl e)
    with r Cons.prems show ?thesis by simp
  next
    case (Inr l)
    let ?tl = "activations run ns s1 w1"
    from r Inr have tr: "activations run (n # ns) s w =
        \<lparr>act_node = n, act_before = s, act_world = w, act_result = Inr l,
           act_after = s1, act_world_after = w1\<rparr> # ?tl" by simp
    show ?thesis
    proof (cases i)
      case 0
      with Cons.prems tr have ne: "?tl \<noteq> []" by auto
      then have "act_before (hd ?tl) = s1" by (rule activations_hd)
      moreover from ne have "act_world (hd ?tl) = w1"
        by (cases ns) (auto split: prod.splits sum.splits)
      ultimately show ?thesis using 0 tr ne by (simp add: hd_conv_nth)
    next
      case (Suc j)
      with Cons.prems tr have "Suc j < length ?tl" by simp
      from Cons.IH [OF this] show ?thesis using Suc tr by simp
    qed
  qed
qed

lemma layer_kept:
  assumes "run_node svc fl n s w = (r, s1, w1)"
  shows "(layer1 (layers s) \<noteq> None \<longrightarrow> layer1 (layers s1) \<noteq> None)
       \<and> (layer2 (layers s) \<noteq> None \<longrightarrow> layer2 (layers s1) \<noteq> None)
       \<and> (layer3 (layers s) \<noteq> None \<longrightarrow> layer3 (layers s1) \<noteq> None)
       \<and> (layer4 (layers s) \<noteq> None \<longrightarrow> layer4 (layers s1) \<noteq> None)
       \<and> (layer5 (layers s) \<noteq> None \<longrightarrow> layer5 (layers s1) \<noteq> None)"
proof (cases n)
  case InputDetectorNode
  with assms run_InputDetector [of svc fl s w] show ?thesis by auto
qed (use assms in \<open>auto simp: run_node_forms split: prod.splits sum.splits\<close>)

lemma layer_established:
  "run_node svc fl Layer1CaptureNode s w = (Inr l, s1, w1) \<Longrightarrow> layer1 (layers s1) \<noteq> None"
  "run_node svc fl Layer2BoldNode s w = (Inr l, s1, w1) \<Longrightarrow> layer2 (layers s1) \<noteq> None"
  "run_node svc fl Layer3DistillNode s w = (Inr l, s1, w1) \<Longrightarrow> layer3 (layers s1) \<noteq> None"
  "run_node svc fl Layer4SummaryNode s w = (Inr l, s1, w1) \<Longrightarrow> layer4 (layers s1) \<noteq> None"
  "run_node svc fl Layer5CreativeNode s w = (Inr l, s1, w1) \<Longrightarrow> layer5 (layers s1) \<noteq> None"
  by (auto simp: run_node_forms split: prod.splits sum.splits)

lemma completed_run_layers:
  assumes "run_chain (run_node svc fl) note_chain s w = (Inr u, vis, s', w')"
  shows "layer1 (layers s') \<noteq> None \<and> layer2 (layers s') \<noteq> None \<and> layer3 (layers s') \<noteq> None
       \<and> layer4 (layers s') \<noteq> None \<and> layer5 (layers s') \<noteq> None"
proof -
  have k1: "run_node svc fl n s w = (r, s1, w1) \<Longrightarrow>
      layer1 (layers s) \<noteq> None \<Longrightarrow> layer1 (layers s1) \<noteq> None" for n s w r s1 w1
    using layer_kept [of svc fl n s w r s1 w1] by blast
  have k2: "run_node svc fl n s w = (r, s1, w1) \<Longrightarrow>
      layer2 (layers s) \<noteq> None \<Longrightarrow> layer2 (layers s1) \<noteq> None" for n s w r s1 w1
    using layer_kept [of svc fl n s w r s1 w1] by blast
  have k3: "run_node svc fl n s w = (r, s1, w1) \<Longrightarrow>
      layer3 (layers s) \<noteq> None \<Longrightarrow> layer3 (layers s1) \<noteq> None" for n s w r s1 w1
    using layer_kept [of svc fl n s w r s1 w1] by blast
  have k4: "run_node svc fl n s w = (r, s1, w1) \<Longrightarrow>
      layer4 (layers s) \<noteq> None \<Longrightarrow> layer4 (layers s1) \<noteq> None" for n s w r s1 w1
    using layer_kept [of svc fl n s w r s1 w1] by blast
  have k5: "run_node svc fl n s w = (r, s1, w1) \<Longrightarrow>
      layer5 (layers s) \<noteq> None \<Longrightarrow> layer5 (layers s1) \<noteq> None" for n s w r s1 w1
    using layer_kept [of svc fl n s w r s1 w1] by blast
  have m: "Layer1CaptureNode \<in> set note_chain" "Layer2BoldNode \<in> set note_chain"
    "Layer3DistillNode \<in> set note_chain" "Layer4SummaryNode \<in> set note_chain"
    "Layer5CreativeNode \<in> set note_chain"
    by (simp_all add: note_chain_def)
  have 1: "layer1 (layers s') \<noteq> None"
    using run_chain_established [where Q = "\<lambda>s. layer1 (layers s) \<noteq> None", OF k1 layer_established(1) assms m(1)]
    by simp
  have 2: "layer2 (layers s') \<noteq> None"
    using run_chain_established [where Q = "\<lambda>s. layer2 (layers s) \<noteq> None", OF k2 layer_established(2) assms m(2)]
    by simp
  have 3: "layer3 (layers s') \<noteq> None"
    using run_chain_established [where Q = "\<lambda>s. layer3 (layers s) \<noteq> None", OF k3 layer_established(3) assms m(3)]
    by simp
  have 4: "layer4 (layers s') \<noteq> None"
    using run_chain_established [where Q = "\<lambda>s. layer4 (layers s) \<noteq> None", OF k4 layer_established(4) assms m(4)]
    by simp
  have 5: "layer5 (layers s') \<noteq> None"
    using run_chain_established [where Q = "\<lambda>s. layer5 (layers s) \<noteq> None", OF k5 layer_established(5) assms m(5)]
    by simp
  from 1 2 3 4 5 show ?thesis by blast
qed

lemma exec_attempts_result:
  "exec_attempts wt secs ex p k w = (Inr r, w') \<Longrightarrow> \<exists>w0. ex p w0 = (Inr r, w')"
proof (induction k arbitrary: w)
  case 0
  then show ?case by auto
next
  case (Suc k)
  obtain x w1 where x: "ex p w = (x, w1)" by (cases "ex p w")
  show ?case
  proof (cases x)
    case (Inl e)
    with x Suc.prems have "exec_attempts wt secs ex p k (wt secs w1) = (Inr r, w')" by simp
    then show ?thesis by (rule Suc.IH)
  next
    case (Inr y)
    with x Suc.prems have "ex p w = (Inr r, w')" by simp
    then show ?thesis by blast
  qed
qed

lemma Node_exec_result:
  "Node_exec svc pol ex p w = (Inr r, w') \<Longrightarrow> \<exists>w0. ex p w0 = (Inr r, w')"
  unfolding Node_exec_def by (rule exec_attempts_result)

lemma layer_activation:
  assumes "run_node svc fl n s w = (Inr l, s1, w1)" and "level_of n = Some N"
  shows "\<exists>req r w0. layer_request n s = Some req \<and> callLlm svc req w0 = (Inr r, w1)
           \<and> layer_slot N (layers s1) = Some r"
proof (cases n)
  case Layer1CaptureNode
  with assms(2) have N: "N = 1" by simp
  from assms(1) Layer1CaptureNode obtain r where
    e: "Node_exec svc (flow_policy fl Layer1CaptureNode) (Layer1_exec svc) (Layer1_prep s) w = (Inr r, w1)"
    and s1: "s1 = s\<lparr>layers := (layers s)\<lparr>layer1 := Some r\<rparr>\<rparr>"
    by (auto simp: run_Layer1 split: prod.splits sum.splits)
  from Node_exec_result [OF e] obtain w0 where "Layer1_exec svc (Layer1_prep s) w0 = (Inr r, w1)"
    by blast
  then have "callLlm svc (Layer1_prompt (Layer1_prep s)) w0 = (Inr r, w1)"
    by (simp add: Layer1_exec_def)
  with s1 N Layer1CaptureNode show ?thesis by (auto simp: layer_slot_def)
next
  case Layer2BoldNode
  with assms(2) have N: "N = 2" by simp
  from assms(1) Layer2BoldNode obtain r where
    e: "Node_exec svc (flow_policy fl Layer2BoldNode) (Layer2_exec svc) (Layer2_prep s) w = (Inr r, w1)"
    and s1: "s1 = s\<lparr>layers := (layers s)\<lparr>layer2 := Some r\<rparr>\<rparr>"
    by (auto simp: run_Layer2 split: prod.splits sum.splits)
  from Node_exec_result [OF e] obtain w0 where "Layer2_exec svc (Layer2_prep s) w0 = (Inr r, w1)"
    by blast
  then have "callLlm svc (Layer2_prompt (Layer2_prep s)) w0 = (Inr r, w1)"
    by (simp add: Layer2_exec_def)
  with s1 N Layer2BoldNode show ?thesis by (auto simp: layer_slot_def)
next
  case Layer3DistillNode
  with assms(2) have N: "N = 3" by simp
  from assms(1) Layer3DistillNode obtain r where
    e: "Node_exec svc (flow_policy fl Layer3DistillNode) (Layer3_exec svc) (Layer3_prep s) w = (Inr r, w1)"
    and s1: "s1 = s\<lparr>layers := (layers s)\<lparr>layer3 := Some r\<rparr>\<rparr>"
    by (auto simp: run_Layer3 split: prod.splits sum.splits)
  from Node_exec_result [OF e] obtain w0 where "Layer3_exec svc (Layer3_prep s) w0 = (Inr r, w1)"
    by blast
  then have "callLlm svc (Layer3_prompt (Layer3_prep s)) w0 = (Inr r, w1)"
    by (simp add: Layer3_exec_def)
  with s1 N Layer3DistillNode show ?thesis by (auto simp: layer_slot_def)
next
  case Layer4SummaryNode
  with assms(2) have N: "N = 4" by simp
  from assms(1) Layer4SummaryNode obtain r where
    e: "Node_exec svc (flow_policy fl Layer4SummaryNode) (Layer4_exec svc) (Layer4_prep s) w = (Inr r, w1)"
    and s1: "s1 = s\<lparr>layers := (layers s)\<lparr>layer4 := Some r\<rparr>\<rparr>"
    by (auto simp: run_Layer4 split: prod.splits sum.splits)
  from Node_exec_result [OF e] obtain w0 where "Layer4_exec svc (Layer4_prep s) w0 = (Inr r, w1)"
    by blast
  then have "callLlm svc (Layer4_prompt (Layer4_prep s)) w0 = (Inr r, w1)"
    by (simp add: Layer4_exec_def)
  with s1 N Layer4SummaryNode show ?thesis by (auto simp: layer_slot_def)
next
  case Layer5CreativeNode
  with assms(2) have N: "N = 5" by simp
  from assms(1) Layer5CreativeNode obtain r where
    e: "Node_exec svc (flow_policy fl Layer5CreativeNode) (Layer5_exec svc) (Layer5_prep s) w = (Inr r, w1)"
    and s1: "s1 = s\<lparr>layers := (layers s)\<lparr>layer5 := Some r\<rparr>\<rparr>"
    by (auto simp: run_Layer5 split: prod.splits sum.splits)
  from Node_exec_result [OF e] obtain w0 where "Layer5_exec svc (Layer5_prep s) w0 = (Inr r, w1)"
    by blast
  then have "callLlm svc (Layer5_prompt (Layer5_prep s)) w0 = (Inr r, w1)"
    by (simp add: Layer5_exec_def)
  with s1 N Layer5CreativeNode show ?thesis by (auto simp: layer_slot_def)
qed (use assms(2) in simp_all)

lemma level_field:
  assumes "level_of n = Some N"
  shows "\<exists>f. writer f = Some n \<and> (\<forall>s t. field_eq f s t \<longrightarrow> layer_slot N (layers s) = layer_slot N (layers t))"
proof (cases n)
  case Layer1CaptureNode
  with assms have "writer Layers_layer1 = Some n \<and>
      (\<forall>s t. field_eq Layers_layer1 s t \<longrightarrow> layer_slot N (layers s) = layer_slot N (layers t))"
    by (auto simp: layer_slot_def)
  then show ?thesis by blast
next
  case Layer2BoldNode
  with assms have "writer Layers_layer2 = Some n \<and>
      (\<forall>s t. field_eq Layers_layer2 s t \<longrightarrow> layer_slot N (layers s) = layer_slot N (layers t))"
    by (auto simp: layer_slot_def)
  then show ?thesis by blast
next
  case Layer3DistillNode
  with assms have "writer Layers_layer3 = Some n \<and>
      (\<forall>s t. field_eq Layers_layer3 s t \<longrightarrow> layer_slot N (layers s) = layer_slot N (layers t))"
    by (auto simp: layer_slot_def)
  then show ?thesis by blast
next
  case Layer4SummaryNode
  with assms have "writer Layers_layer4 = Some n \<and>
      (\<forall>s t. field_eq Layers_layer4 s t \<longrightarrow> layer_slot N (layers s) = layer_slot N (layers t))"
    by (auto simp: layer_slot_def)
  then show ?thesis by blast
next
  case Layer5CreativeNode
  with assms have "writer Layers_layer5 = Some n \<and>
      (\<forall>s t. field_eq Layers_layer5 s t \<longrightarrow> layer_slot N (layers s) = layer_slot N (layers t))"
    by (auto simp: layer_slot_def)
  then show ?thesis by blast
qed (use assms in simp_all)

lemma run_chain_frame:
  "run_chain (run_node svc fl) ns s w = (out, vis, s', w') \<Longrightarrow>
     \<forall>n \<in> set ns. writer f \<noteq> Some n \<Longrightarrow> field_eq f s s'"
proof (induction ns arbitrary: s w out vis s' w')
  case Nil
  then show ?case by (simp add: field_eq_refl)
next
  case (Cons n ns)
  obtain r s1 w1 where r: "run_node svc fl n s w = (r, s1, w1)"
    by (cases "run_node svc fl n s w")
  from Cons.prems(2) have f1: "writer f \<noteq> Some n" and f2: "\<forall>n \<in> set ns. writer f \<noteq> Some n"
    by simp_all
  from run_node_frame [OF r f1] have a: "field_eq f s s1" .
  show ?case
  proof (cases r)
    case (Inl e)
    with Cons.prems(1) r have "s' = s1" by simp
    with a show ?thesis by simp
  next
    case (Inr l)
    obtain out2 vis2 s2 w2 where rest: "run_chain (run_node svc fl) ns s1 w1 = (out2, vis2, s2, w2)"
      by (cases "run_chain (run_node svc fl) ns s1 w1")
    with Cons.prems(1) r Inr have eq: "s' = s2" by simp
    from Cons.IH [OF rest f2] have "field_eq f s1 s2" .
    with a show ?thesis unfolding eq by (rule field_eq_trans)
  qed
qed

lemma activations_kept:
  "distinct ns \<Longrightarrow> run_chain (run_node svc fl) ns s w = (out, vis, s', w') \<Longrightarrow>
     a \<in> set (activations (run_node svc fl) ns s w) \<Longrightarrow> writer f = Some (act_node a) \<Longrightarrow>
     field_eq f (act_after a) s'"
proof (induction ns arbitrary: s w out vis s' w')
  case Nil
  then show ?case by simp
next
  case (Cons n ns)
  obtain r s1 w1 where r: "run_node svc fl n s w = (r, s1, w1)"
    by (cases "run_node svc fl n s w")
  show ?case
  proof (cases r)
    case (Inl e)
    with r Cons.prems(2,3) have "act_after a = s1" "s' = s1" by simp_all
    then show ?thesis by (simp add: field_eq_refl)
  next
    case (Inr l)
    obtain out2 vis2 s2 w2 where rest: "run_chain (run_node svc fl) ns s1 w1 = (out2, vis2, s2, w2)"
      by (cases "run_chain (run_node svc fl) ns s1 w1")
    with Cons.prems(2) r Inr have eq: "s' = s2" by simp
    from Cons.prems(1) have d: "distinct ns" and nn: "n \<notin> set ns" by simp_all
    from r Inr Cons.prems(3)
    have "a = \<lparr>act_node = n, act_before = s, act_world = w, act_result = Inr l,
           act_after = s1, act_world_after = w1\<rparr> \<or> a \<in> set (activations (run_node svc fl) ns s1 w1)"
      by simp
    then show ?thesis
    proof
      assume a: "a = \<lparr>act_node = n, act_before = s, act_world = w, act_result = Inr l,
           act_after = s1, act_world_after = w1\<rparr>"
      with Cons.prems(4) have "writer f = Some n" by simp
      with nn have "\<forall>m \<in> set ns. writer f \<noteq> Some m" by auto
      from run_chain_frame [OF rest this] a show ?thesis unfolding eq by simp
    next
      assume "a \<in> set (activations (run_node svc fl) ns s1 w1)"
      from Cons.IH [OF d rest this Cons.prems(4)] show ?thesis unfolding eq .
    qed
  qed
qed

lemma activations_pre:
  assumes "ns \<noteq> [] \<Longrightarrow> Pre (hd ns) s"
    and "\<And>k s w l s1 w1. Suc k < length ns \<Longrightarrow> run (ns ! k) s w = (Inr l, s1, w1) \<Longrightarrow>
           Pre (ns ! Suc k) s1"
    and "a \<in> set (activations run ns s w)"
  shows "Pre (act_node a) (act_before a)"
  using assms
proof (induction ns arbitrary: s w)
  case Nil
  then show ?case by simp
next
  case (Cons n ns)
  from Cons.prems(1) have p0: "Pre n s" by simp
  obtain r s1 w1 where r: "run n s w = (r, s1, w1)" by (cases "run n s w")
  show ?case
  proof (cases r)
    case (Inl e)
    with r Cons.prems(3) p0 show ?thesis by simp
  next
    case (Inr l)
    from r Inr Cons.prems(3)
    have "a = \<lparr>act_node = n, act_before = s, act_world = w, act_result = Inr l,
           act_after = s1, act_world_after = w1\<rparr> \<or> a \<in> set (activations run ns s1 w1)"
      by simp
    then show ?thesis
    proof
      assume "a = \<lparr>act_node = n, act_before = s, act_world = w, act_result = Inr l,
           act_after = s1, act_world_after = w1\<rparr>"
      with p0 show ?thesis by simp
    next
      assume a: "a \<in> set (activations run ns s1 w1)"
      have h0: "ns \<noteq> [] \<Longrightarrow> Pre (hd ns) s1"
      proof -
        assume ne: "ns \<noteq> []"
        then have "Suc 0 < length (n # ns)" by simp
        moreover from r Inr have "run ((n # ns) ! 0) s w = (Inr l, s1, w1)" by simp
        ultimately have "Pre ((n # ns) ! Suc 0) s1" by (rule Cons.prems(2))
        with ne show "Pre (hd ns) s1" by (simp add: hd_conv_nth)
      qed
      have hs: "Pre (ns ! Suc k) t1"
        if "Suc k < length ns" and "run (ns ! k) t v = (Inr l', t1, v1)" for k t v l' t1 v1
      proof -
        from that(1) have "Suc (Suc k) < length (n # ns)" by simp
        moreover from that(2) have "run ((n # ns) ! Suc k) t v = (Inr l', t1, v1)" by simp
        ultimately have "Pre ((n # ns) ! Suc (Suc k)) t1" by (rule Cons.prems(2))
        then show ?thesis by simp
      qed
      from Cons.IH [OF h0 hs a] show ?thesis .
    qed
  qed
qed

lemma note_chain_pre:
  assumes "a \<in> set (activations (run_node svc fl) note_chain s w)"
    and "level_of (act_node a) = Some N" and "1 < N"
  shows "layer_slot (N - 1) (layers (act_before a)) \<noteq> None"
proof -
  let ?Pre = "\<lambda>n s. \<forall>N. level_of n = Some N \<longrightarrow> 1 < N \<longrightarrow> layer_slot (N - 1) (layers s) \<noteq> None"
  have h0: "note_chain \<noteq> [] \<Longrightarrow> ?Pre (hd note_chain) s"
    by (simp add: note_chain_def)
  have hs: "?Pre (note_chain ! Suc k) s1"
    if k: "Suc k < length note_chain"
      and r: "run_node svc fl (note_chain ! k) t v = (Inr l, s1, v1)" for k t v l s1 v1
  proof -
    from k have "k = 0 \<or> k = 1 \<or> k = 2 \<or> k = 3 \<or> k = 4 \<or> k = 5 \<or> k = 6"
      by (simp add: note_chain_def) arith
    then show ?thesis
    proof (elim disjE)
      assume "k = 0"
      then show ?thesis by (simp add: note_chain_def)
    next
      assume "k = 1"
      then show ?thesis by (simp add: note_chain_def)
    next
      assume k: "k = 2"
      with r have "run_node svc fl Layer1CaptureNode t v = (Inr l, s1, v1)"
        by (simp add: note_chain_def)
      then have "layer1 (layers s1) \<noteq> None" by (rule layer_established(1))
      with k show ?thesis by (simp add: note_chain_def layer_slot_def)
    next
      assume k: "k = 3"
      with r have "run_node svc fl Layer2BoldNode t v = (Inr l, s1, v1)"
        by (simp add: note_chain_def)
      then have "layer2 (layers s1) \<noteq> None" by (rule layer_established(2))
      with k show ?thesis by (simp add: note_chain_def layer_slot_def)
    next
      assume k: "k = 4"
      with r have "run_node svc fl Layer3DistillNode t v = (Inr l, s1, v1)"
        by (simp add: note_chain_def)
      then have "layer3 (layers s1) \<noteq> None" by (rule layer_established(3))
      with k show ?thesis by (simp add: note_chain_def layer_slot_def)
    next
      assume k: "k = 5"
      with r have "run_node svc fl Layer4SummaryNode t v = (Inr l, s1, v1)"
        by (simp add: note_chain_def)
      then have "layer4 (layers s1) \<noteq> None" by (rule layer_established(4))
      with k show ?thesis by (simp add: note_chain_def layer_slot_def)
    next
      assume "k = 6"
      then show ?thesis by (simp add: note_chain_def)
    qed
  qed
  have "?Pre (act_node a) (act_before a)"
    using h0 hs assms(1) by (rule activations_pre [where Pre = ?Pre])
  with assms(2,3) show ?thesis by blast
qed

lemma filter_at_most_one:
  "distinct (map g xs) \<Longrightarrow> \<forall>x \<in> set xs. P x \<longrightarrow> g x = y \<Longrightarrow> length (filter P xs) \<le> 1"
proof (induction xs)
  case Nil
  then show ?case by simp
next
  case (Cons x xs)
  from Cons.prems have d: "distinct (map g xs)" and nx: "g x \<notin> g ` set xs"
    and p: "\<forall>z \<in> set xs. P z \<longrightarrow> g z = y" by simp_all
  show ?case
  proof (cases "P x")
    case True
    with Cons.prems(2) have gx: "g x = y" by simp
    have "\<forall>z \<in> set xs. \<not> P z"
    proof (intro ballI notI)
      fix z
      assume z: "z \<in> set xs" and "P z"
      with p have "g z = y" by blast
      with gx have e: "g x = g z" by simp
      from e z have "g x \<in> g ` set xs" by (rule image_eqI)
      with nx show False by contradiction
    qed
    then have "filter P xs = []" by (simp add: filter_empty_conv)
    with True show ?thesis by simp
  next
    case False
    with Cons.IH [OF d p] show ?thesis by simp
  qed
qed

lemma run_InputDetector_eval:
  "run_node svc fl InputDetectorNode s w =
     (case InputDetector_exec svc (input_raw (input s)) w of
        (Inl e, w') \<Rightarrow> (Inl e, s, w')
      | (Inr t, w') \<Rightarrow>
          (Inr (InputType_string t), s\<lparr>input := (input s)\<lparr>input_type := Some t\<rparr>\<rparr>, w'))"
proof -
  from run_InputDetector [of svc fl s w] obtain t where
    "run_node svc fl InputDetectorNode s w =
       (Inr (InputType_string t), s\<lparr>input := (input s)\<lparr>input_type := Some t\<rparr>\<rparr>, w)"
    and "InputDetector_exec svc (input_raw (input s)) w = (Inr t, w)"
    by blast
  then show ?thesis by simp
qed

lemma Flow_run_note_chain_8:
  assumes "8 \<le> fuel"
  shows "Flow_run svc (createNoteFlow dflt) fuel s w =
     Some (run_chain (run_node svc (createNoteFlow dflt)) note_chain s w)"
proof -
  have "length (fst (snd (run_chain (run_node svc (createNoteFlow dflt)) note_chain s w)))
      \<le> length note_chain"
    by (rule run_chain_vis_length)
  with assms have "length (fst (snd (run_chain (run_node svc (createNoteFlow dflt)) note_chain s w)))
      \<le> fuel"
    by (simp add: note_chain_def)
  then show ?thesis by (rule Flow_run_note_chain)
qed

lemma sim_run_empty_reply:
  "run_chain (run_node (sim_services []) (createNoteFlow \<lparr>node_maxRetries = 1, node_wait = 0\<rparr>))
     note_chain (createInitialState ''note'' None) \<lparr>sim_files = [], sim_room = 5\<rparr>
   = (Inr (), note_chain,
      \<lparr>input = \<lparr>input_raw = ''note'', input_type = Some Text, input_focusArea = None,
                input_outputFormat = None\<rparr>,
       metadata = \<lparr>md_title = ''note'', md_author = None, md_date = None,
                   md_sourceType = ''text'', md_wordCount = 1\<rparr>,
       content = \<lparr>content_raw = ''note'', content_sections = None\<rparr>,
       layers = \<lparr>layer1 = Some [], layer2 = Some [], layer3 = Some [], layer4 = Some [],
                 layer5 = Some []\<rparr>,
       output' = \<lparr>out_directory = ''./data/notes'', out_timestamp = Some ''20240115-143022'',
                  out_slug = Some ''note'', out_savedFiles = []\<rparr>\<rparr>,
      \<lparr>sim_files = [], sim_room = 5\<rparr>)"
  by (simp add: note_chain_def run_InputDetector_eval run_node_forms Node_exec_def
      flow_policy_createNoteFlow InputDetector_exec_def isUrl_def regex_http_scheme_def
      toUpperCase_ascii_def char_of_eq_char_iff isPdfFile_def isImageFile_def endsWith_def
      toLowerCase_def toLowerCase_char_def trim_def isWhitespace_def
      ContentExtractor_prep_def ContentExtractor_exec_def extractFromText_def countWords_def
      extractTitleFromText_def startsWith_def or_else_def slugify_def generateTimestamp_def
      sim_services_def sim_date_def padStart2_def String_nat.simps digit_char_def
      createInitialState_def Layer1_exec_def Layer2_exec_def Layer3_exec_def Layer4_exec_def
      Layer5_exec_def FileSaver_prep_def layerConfigs_def Let_def)

lemma sim_flow_run_empty_reply:
  "Flow_run (sim_services []) (createNoteFlow \<lparr>node_maxRetries = 1, node_wait = 0\<rparr>) 8
     (createInitialState ''note'' None) \<lparr>sim_files = [], sim_room = 5\<rparr>
   = Some (Inr (), note_chain,
      \<lparr>input = \<lparr>input_raw = ''note'', input_type = Some Text, input_focusArea = None,
                input_outputFormat = None\<rparr>,
       metadata = \<lparr>md_title = ''note'', md_author = None, md_date = None,
                   md_sourceType = ''text'', md_wordCount = 1\<rparr>,
       content = \<lparr>content_raw = ''note'', content_sections = None\<rparr>,
       layers = \<lparr>layer1 = Some [], layer2 = Some [], layer3 = Some [], layer4 = Some [],
                 layer5 = Some []\<rparr>,
       output' = \<lparr>out_directory = ''./data/notes'', out_timestamp = Some ''20240115-143022'',
                  out_slug = Some ''note'', out_savedFiles = []\<rparr>\<rparr>,
      \<lparr>sim_files = [], sim_room = 5\<rparr>)"
  by (subst Flow_run_note_chain_8, simp, subst sim_run_empty_reply, rule refl)

lemma sim_fields:
  "URL_new (sim_services reply) t = Inr ()"
  "callLlm (sim_services reply) req w = (Inr reply, w)"
  "slugifyLib (sim_services reply) title = ''note''"
  "new_Date (sim_services reply) w = sim_date"
  "JSON_stringify (sim_services reply) entry = le_content entry"
  "wait_seconds (sim_services reply) secs w = w"
  by (simp_all add: sim_services_def)

lemma sim_run_reply:
  "run_chain (run_node (sim_services ''Noted.'') (createNoteFlow \<lparr>node_maxRetries = 1, node_wait = 0\<rparr>))
     note_chain (createInitialState ''note'' None) \<lparr>sim_files = [], sim_room = 5\<rparr>
   = (Inr (), note_chain,
      \<lparr>input = \<lparr>input_raw = ''note'', input_type = Some Text, input_focusArea = None,
                input_outputFormat = None\<rparr>,
       metadata = \<lparr>md_title = ''note'', md_author = None, md_date = None,
                   md_sourceType = ''text'', md_wordCount = 1\<rparr>,
       content = \<lparr>content_raw = ''note'', content_sections = None\<rparr>,
       layers = \<lparr>layer1 = Some ''Noted.'', layer2 = Some ''Noted.'', layer3 = Some ''Noted.'',
                 layer4 = Some ''Noted.'', layer5 = Some ''Noted.''\<rparr>,
       output' = \<lparr>out_directory = ''./data/notes'', out_timestamp = Some ''20240115-143022'',
                  out_slug = Some ''note'',
                  out_savedFiles =
                    [''data/notes/20240115-143022_note_level-1.md'',
                     ''data/notes/20240115-143022_note_level-2.md'',
                     ''data/notes/20240115-143022_note_level-3.md'',
                     ''data/notes/20240115-143022_note_level-4.md'',
                     ''data/notes/20240115-143022_note_level-5.md'']\<rparr>\<rparr>,
      \<lparr>sim_files =
         [(''data/notes/20240115-143022_note_level-1.md'',
           artifact_text ''note'' None ''text'' ''2024-01-15T14:30:22.000Z''
             \<lparr>le_level = 1, le_name = Initial_Capture, le_content = ''Noted.''\<rparr>),
          (''data/notes/20240115-143022_note_level-2.md'',
           artifact_text ''note'' None ''text'' ''2024-01-15T14:30:22.000Z''
             \<lparr>le_level = 2, le_name = Key_Passages, le_content = ''Noted.''\<rparr>),
          (''data/notes/20240115-143022_note_level-3.md'',
           artifact_text ''note'' None ''text'' ''2024-01-15T14:30:22.000Z''
             \<lparr>le_level = 3, le_name = Distilled_Insights, le_content = ''Noted.''\<rparr>),
          (''data/notes/20240115-143022_note_level-4.md'',
           artifact_text ''note'' None ''text'' ''2024-01-15T14:30:22.000Z''
             \<lparr>le_level = 4, le_name = Executive_Summary, le_content = ''Noted.''\<rparr>),
          (''data/notes/20240115-143022_note_level-5.md'',
           artifact_text ''note'' None ''text'' ''2024-01-15T14:30:22.000Z''
             \<lparr>le_level = 5, le_name = Creative_Output, le_content = ''Noted.''\<rparr>)],
       sim_room = 0\<rparr>)"
  by (simp add: note_chain_def run_InputDetector_eval run_node_forms Node_exec_def
      flow_policy_createNoteFlow InputDetector_exec_def isUrl_def regex_http_scheme_def
      toUpperCase_ascii_def char_of_eq_char_iff isPdfFile_def isImageFile_def endsWith_def
      toLowerCase_def toLowerCase_char_def trim_def isWhitespace_def
      ContentExtractor_prep_def ContentExtractor_exec_def extractFromText_def countWords_def
      extractTitleFromText_def startsWith_def or_else_def slugify_def generateTimestamp_def
      sim_fields sim_date_def padStart2_def String_nat.simps digit_char_def
      createInitialState_def Layer1_exec_def Layer2_exec_def Layer3_exec_def Layer4_exec_def
      Layer5_exec_def FileSaver_prep_def layerConfigs_def Let_def
      sim_save_entry sim_path_join_def generateLayerFilename_def)

lemma sim_flow_run_reply:
  "Flow_run (sim_services ''Noted.'') (createNoteFlow \<lparr>node_maxRetries = 1, node_wait = 0\<rparr>) 8
        (createInitialState ''note'' None) \<lparr>sim_files = [], sim_room = 5\<rparr>
   = Some (Inr (), note_chain,
      \<lparr>input = \<lparr>input_raw = ''note'', input_type = Some Text, input_focusArea = None,
                input_outputFormat = None\<rparr>,
       metadata = \<lparr>md_title = ''note'', md_author = None, md_date = None,
                   md_sourceType = ''text'', md_wordCount = 1\<rparr>,
       content = \<lparr>content_raw = ''note'', content_sections = None\<rparr>,
       layers = \<lparr>layer1 = Some ''Noted.'', layer2 = Some ''Noted.'', layer3 = Some ''Noted.'',
                 layer4 = Some ''Noted.'', layer5 = Some ''Noted.''\<rparr>,
       output' = \<lparr>out_directory = ''./data/notes'', out_timestamp = Some ''20240115-143022'',
                  out_slug = Some ''note'',
                  out_savedFiles =
                    [''data/notes/20240115-143022_note_level-1.md'',
                     ''data/notes/20240115-143022_note_level-2.md'',
                     ''data/notes/20240115-143022_note_level-3.md'',
                     ''data/notes/20240115-143022_note_level-4.md'',
                     ''data/notes/20240115-143022_note_level-5.md'']\<rparr>\<rparr>,
      \<lparr>sim_files =
         [(''data/notes/20240115-143022_note_level-1.md'',
           artifact_text ''note'' None ''text'' ''2024-01-15T14:30:22.000Z''
             \<lparr>le_level = 1, le_name = Initial_Capture, le_content = ''Noted.''\<rparr>),
          (''data/notes/20240115-143022_note_level-2.md'',
           artifact_text ''note'' None ''text'' ''2024-01-15T14:30:22.000Z''
             \<lparr>le_level = 2, le_name = Key_Passages, le_content = ''Noted.''\<rparr>),
          (''data/notes/20240115-143022_note_level-3.md'',
           artifact_text ''note'' None ''text'' ''2024-01-15T14:30:22.000Z''
             \<lparr>le_level = 3, le_name = Distilled_Insights, le_content = ''Noted.''\<rparr>),
          (''data/notes/20240115-143022_note_level-4.md'',
           artifact_text ''note'' None ''text'' ''2024-01-15T14:30:22.000Z''
             \<lparr>le_level = 4, le_name = Executive_Summary, le_content = ''Noted.''\<rparr>),
          (''data/notes/20240115-143022_note_level-5.md'',
           artifact_text ''note'' None ''text'' ''2024-01-15T14:30:22.000Z''
             \<lparr>le_level = 5, le_name = Creative_Output, le_content = ''Noted.''\<rparr>)],
       sim_room = 0\<rparr>)"
  by (subst Flow_run_note_chain_8, simp, subst sim_run_reply, rule refl)

text \<open>
  C4 (as the code has it). A run of the note flow with fuel for its eight nodes returns.
  Take the activations of the nodes it visited, each with the shared state before and
  after it; they lead from the initial state to the final one, and no node is activated
  twice. An activation changes a field only if its node is the designated writer of the
  field, so every field is changed by at most one activation of the run, and a field that
  has no writer keeps its initial value. What the activation of its writer left in a field
  is still there at the end of the run, and an activation that failed changed nothing.
  When the node of layer N is activated, N > 1, the slot of layer N-1 has been assigned;
  when its activation succeeds, the slot of layer N holds the text that the text
  generation service returned for the request of that node, and holds it at the end of
  the run. After a run that completed, all eight nodes have been activated and each of the
  five layer slots has been assigned (it holds a string, possibly the empty one).
\<close>

theorem C4_fields_written_once_in_order:
  assumes "8 \<le> fuel"
  shows "\<exists>out vis s' w' tr.
     Flow_run svc (createNoteFlow dflt) fuel s w = Some (out, vis, s', w')
     \<and> tr = activations (run_node svc (createNoteFlow dflt)) vis s w
     \<and> map act_node tr = vis \<and> distinct vis
     \<and> act_before (hd tr) = s \<and> act_after (last tr) = s'
     \<and> (\<forall>i. Suc i < length tr \<longrightarrow> act_before (tr ! Suc i) = act_after (tr ! i))
     \<and> (\<forall>a \<in> set tr. \<forall>f. changes f a \<longrightarrow> writer f = Some (act_node a))
     \<and> (\<forall>f. length (filter (changes f) tr) \<le> 1)
     \<and> (\<forall>a \<in> set tr. \<forall>f. writer f = Some (act_node a) \<longrightarrow> field_eq f (act_after a) s')
     \<and> (\<forall>f. writer f = None \<longrightarrow> field_eq f s s')
     \<and> (\<forall>a \<in> set tr. \<forall>e. act_result a = Inl e \<longrightarrow> act_after a = act_before a)
     \<and> (\<forall>a \<in> set tr. \<forall>N. level_of (act_node a) = Some N \<longrightarrow>
           (1 < N \<longrightarrow> layer_slot (N - 1) (layers (act_before a)) \<noteq> None)
           \<and> (\<forall>l. act_result a = Inr l \<longrightarrow>
                (\<exists>req r w0. layer_request (act_node a) (act_before a) = Some req
                   \<and> callLlm svc req w0 = (Inr r, act_world_after a)
                   \<and> layer_slot N (layers (act_after a)) = Some r
                   \<and> layer_slot N (layers s') = Some r)))
     \<and> (out = Inr () \<longrightarrow>
          vis = [InputDetectorNode, ContentExtractorNode, Layer1CaptureNode, Layer2BoldNode,
                 Layer3DistillNode, Layer4SummaryNode, Layer5CreativeNode, FileSaverNode]
          \<and> layer1 (layers s') \<noteq> None \<and> layer2 (layers s') \<noteq> None
          \<and> layer3 (layers s') \<noteq> None \<and> layer4 (layers s') \<noteq> None
          \<and> layer5 (layers s') \<noteq> None)"
proof -
  let ?run = "run_node svc (createNoteFlow dflt)"
  obtain out vis s' w' where rc: "run_chain ?run note_chain s w = (out, vis, s', w')"
    by (cases "run_chain ?run note_chain s w")
  define tr where "tr = activations ?run vis s w"
  have "length (fst (snd (run_chain ?run note_chain s w))) \<le> length note_chain"
    by (rule run_chain_vis_length)
  with assms have "length (fst (snd (run_chain ?run note_chain s w))) \<le> fuel"
    by (simp add: note_chain_def)
  from Flow_run_note_chain [OF this] rc
  have c1: "Flow_run svc (createNoteFlow dflt) fuel s w = Some (out, vis, s', w')" by simp
  have dn: "distinct note_chain" by (simp add: note_chain_def)
  have pre: "vis = take (length vis) note_chain" using rc by (rule run_chain_prefix)
  have ne: "vis \<noteq> []"
  proof -
    obtain n ns where nc: "note_chain = n # ns" by (simp add: note_chain_def)
    from rc show ?thesis unfolding nc by (auto split: prod.splits sum.splits)
  qed
  from activations_of_run_chain [OF rc] ne
  have tr_full: "tr = activations ?run note_chain s w"
    and c2: "map act_node tr = vis"
    and last: "act_after (last tr) = s'"
    unfolding tr_def by simp_all
  from c2 ne have tne: "tr \<noteq> []" by auto
  have c3: "distinct vis"
    using dn distinct_take [of note_chain "length vis"] pre by simp
  have hd: "act_before (hd tr) = s"
    using tne unfolding tr_def by (rule activations_hd)
  have link: "\<forall>i. Suc i < length tr \<longrightarrow> act_before (tr ! Suc i) = act_after (tr ! i)"
    unfolding tr_def using activations_linked [of _ ?run vis s w] by blast
  have step: "?run (act_node a) (act_before a) (act_world a)
      = (act_result a, act_after a, act_world_after a)" if "a \<in> set tr" for a
    using that unfolding tr_def by (rule act_is_run)
  have frame: "\<forall>a \<in> set tr. \<forall>f. changes f a \<longrightarrow> writer f = Some (act_node a)"
  proof (intro ballI allI impI)
    fix a f
    assume a: "a \<in> set tr" and c: "changes f a"
    show "writer f = Some (act_node a)"
    proof (rule ccontr)
      assume "writer f \<noteq> Some (act_node a)"
      with step [OF a] have "field_eq f (act_before a) (act_after a)" by (rule run_node_frame)
      with c show False by (simp add: changes_def)
    qed
  qed
  have once: "\<forall>f. length (filter (changes f) tr) \<le> 1"
  proof
    fix f
    show "length (filter (changes f) tr) \<le> 1"
    proof (cases "writer f")
      case None
      with frame have "\<forall>a \<in> set tr. \<not> changes f a" by auto
      then have "filter (changes f) tr = []" by (simp add: filter_empty_conv)
      then show ?thesis by simp
    next
      case (Some n)
      with frame have "\<forall>a \<in> set tr. changes f a \<longrightarrow> act_node a = n" by auto
      moreover from c2 c3 have "distinct (map act_node tr)" by simp
      ultimately show ?thesis by (rule filter_at_most_one [rotated])
    qed
  qed
  have kept: "\<forall>a \<in> set tr. \<forall>f. writer f = Some (act_node a) \<longrightarrow> field_eq f (act_after a) s'"
    using activations_kept [OF dn rc] unfolding tr_full by blast
  have immut: "\<forall>f. writer f = None \<longrightarrow> field_eq f s s'"
  proof (intro allI impI)
    fix f
    assume "writer f = None"
    then have "\<forall>n \<in> set note_chain. writer f \<noteq> Some n" by simp
    with rc show "field_eq f s s'" by (rule run_chain_frame)
  qed
  have fail: "\<forall>a \<in> set tr. \<forall>e. act_result a = Inl e \<longrightarrow> act_after a = act_before a"
  proof (intro ballI allI impI)
    fix a e
    assume a: "a \<in> set tr" and "act_result a = Inl e"
    with step [OF a] have "?run (act_node a) (act_before a) (act_world a)
        = (Inl e, act_after a, act_world_after a)" by simp
    then show "act_after a = act_before a" by (rule run_node_failure_keeps_state)
  qed
  have lay: "\<forall>a \<in> set tr. \<forall>N. level_of (act_node a) = Some N \<longrightarrow>
           (1 < N \<longrightarrow> layer_slot (N - 1) (layers (act_before a)) \<noteq> None)
           \<and> (\<forall>l. act_result a = Inr l \<longrightarrow>
                (\<exists>req r w0. layer_request (act_node a) (act_before a) = Some req
                   \<and> callLlm svc req w0 = (Inr r, act_world_after a)
                   \<and> layer_slot N (layers (act_after a)) = Some r
                   \<and> layer_slot N (layers s') = Some r))"
  proof (intro ballI allI impI conjI)
    fix a N
    assume a: "a \<in> set tr" and N: "level_of (act_node a) = Some N" and "1 < N"
    with tr_full show "layer_slot (N - 1) (layers (act_before a)) \<noteq> None"
      using note_chain_pre [of a svc "createNoteFlow dflt" s w N] by simp
  next
    fix a N l
    assume a: "a \<in> set tr" and N: "level_of (act_node a) = Some N" and l: "act_result a = Inr l"
    from step [OF a] l have "?run (act_node a) (act_before a) (act_world a)
        = (Inr l, act_after a, act_world_after a)" by simp
    from layer_activation [OF this N] obtain req r w0 where
      q: "layer_request (act_node a) (act_before a) = Some req"
      and c: "callLlm svc req w0 = (Inr r, act_world_after a)"
      and v: "layer_slot N (layers (act_after a)) = Some r"
      by blast
    from level_field [OF N] obtain f where f: "writer f = Some (act_node a)"
      and fe: "\<forall>s t. field_eq f s t \<longrightarrow> layer_slot N (layers s) = layer_slot N (layers t)"
      by blast
    from kept a f have "field_eq f (act_after a) s'" by blast
    with fe have "layer_slot N (layers (act_after a)) = layer_slot N (layers s')" by blast
    with v have "layer_slot N (layers s') = Some r" by simp
    with q c v show "\<exists>req r w0. layer_request (act_node a) (act_before a) = Some req
                   \<and> callLlm svc req w0 = (Inr r, act_world_after a)
                   \<and> layer_slot N (layers (act_after a)) = Some r
                   \<and> layer_slot N (layers s') = Some r" by blast
  qed
  have fin: "out = Inr () \<longrightarrow>
          vis = [InputDetectorNode, ContentExtractorNode, Layer1CaptureNode, Layer2BoldNode,
                 Layer3DistillNode, Layer4SummaryNode, Layer5CreativeNode, FileSaverNode]
          \<and> layer1 (layers s') \<noteq> None \<and> layer2 (layers s') \<noteq> None
          \<and> layer3 (layers s') \<noteq> None \<and> layer4 (layers s') \<noteq> None
          \<and> layer5 (layers s') \<noteq> None"
  proof
    assume o: "out = Inr ()"
    with rc have "vis = note_chain" using run_chain_completed by fastforce
    then have v: "vis = [InputDetectorNode, ContentExtractorNode, Layer1CaptureNode, Layer2BoldNode,
                 Layer3DistillNode, Layer4SummaryNode, Layer5CreativeNode, FileSaverNode]"
      by (simp add: note_chain_def)
    from rc o completed_run_layers [of svc "createNoteFlow dflt" s w "()" vis s' w']
    have "layer1 (layers s') \<noteq> None \<and> layer2 (layers s') \<noteq> None \<and> layer3 (layers s') \<noteq> None
       \<and> layer4 (layers s') \<noteq> None \<and> layer5 (layers s') \<noteq> None" by simp
    with v show "vis = [InputDetectorNode, ContentExtractorNode, Layer1CaptureNode, Layer2BoldNode,
                 Layer3DistillNode, Layer4SummaryNode, Layer5CreativeNode, FileSaverNode]
          \<and> layer1 (layers s') \<noteq> None \<and> layer2 (layers s') \<noteq> None
          \<and> layer3 (layers s') \<noteq> None \<and> layer4 (layers s') \<noteq> None
          \<and> layer5 (layers s') \<noteq> None" by blast
  qed
  show ?thesis
    by (rule exI [of _ out], rule exI [of _ vis], rule exI [of _ s'], rule exI [of _ w'],
        rule exI [of _ tr])
      (intro conjI c1 tr_def c2 c3 hd last link frame once kept immut fail lay fin)
qed

theorem C4_fields_written_once_in_order_witness:
  "(8::nat) \<le> 8
   \<and> map_option (\<lambda>(out, vis, s', w'). (out, vis, layers s', out_savedFiles (output' s')))
       (Flow_run (sim_services ''Noted.'') (createNoteFlow \<lparr>node_maxRetries = 1, node_wait = 0\<rparr>) 8
        (createInitialState ''note'' None) \<lparr>sim_files = [], sim_room = 5\<rparr>)
     = Some (Inr (),
         [InputDetectorNode, ContentExtractorNode, Layer1CaptureNode, Layer2BoldNode,
          Layer3DistillNode, Layer4SummaryNode, Layer5CreativeNode, FileSaverNode],
         \<lparr>layer1 = Some ''Noted.'', layer2 = Some ''Noted.'', layer3 = Some ''Noted.'',
          layer4 = Some ''Noted.'', layer5 = Some ''Noted.''\<rparr>,
         [''data/notes/20240115-143022_note_level-1.md'',
          ''data/notes/20240115-143022_note_level-2.md'',
          ''data/notes/20240115-143022_note_level-3.md'',
          ''data/notes/20240115-143022_note_level-4.md'',
          ''data/notes/20240115-143022_note_level-5.md''])
   \<and> (\<exists>out vis s' w' tr.
     Flow_run (sim_services ''Noted.'') (createNoteFlow \<lparr>node_maxRetries = 1, node_wait = 0\<rparr>) 8
         (createInitialState ''note'' None) \<lparr>sim_files = [], sim_room = 5\<rparr> = Some (out, vis, s', w')
     \<and> tr = activations (run_node (sim_services ''Noted.'') (createNoteFlow \<lparr>node_maxRetries = 1, node_wait = 0\<rparr>)) vis
           (createInitialState ''note'' None) \<lparr>sim_files = [], sim_room = 5\<rparr>
     \<and> map act_node tr = vis \<and> distinct vis
     \<and> act_before (hd tr) = (createInitialState ''note'' None) \<and> act_after (last tr) = s'
     \<and> (\<forall>i. Suc i < length tr \<longrightarrow> act_before (tr ! Suc i) = act_after (tr ! i))
     \<and> (\<forall>a \<in> set tr. \<forall>f. changes f a \<longrightarrow> writer f = Some (act_node a))
     \<and> (\<forall>f. length (filter (changes f) tr) \<le> 1)
     \<and> (\<forall>a \<in> set tr. \<forall>f. writer f = Some (act_node a) \<longrightarrow> field_eq f (act_after a) s')
     \<and> (\<forall>f. writer f = None \<longrightarrow> field_eq f (createInitialState ''note'' None) s')
     \<and> (\<forall>a \<in> set tr. \<forall>e. act_result a = Inl e \<longrightarrow> act_after a = act_before a)
     \<and> (\<forall>a \<in> set tr. \<forall>N. level_of (act_node a) = Some N \<longrightarrow>
           (1 < N \<longrightarrow> layer_slot (N - 1) (layers (act_before a)) \<noteq> None)
           \<and> (\<forall>l. act_result a = Inr l \<longrightarrow>
                (\<exists>req r w0. layer_request (act_node a) (act_before a) = Some req
                   \<and> callLlm (sim_services ''Noted.'') req w0 = (Inr r, act_world_after a)
                   \<and> layer_slot N (layers (act_after a)) = Some r
                   \<and> layer_slot N (layers s') = Some r)))
     \<and> (out = Inr () \<longrightarrow>
          vis = [InputDetectorNode, ContentExtractorNode, Layer1CaptureNode, Layer2BoldNode,
                 Layer3DistillNode, Layer4SummaryNode, Layer5CreativeNode, FileSaverNode]
          \<and> layer1 (layers s') \<noteq> None \<and> layer2 (layers s') \<noteq> None
          \<and> layer3 (layers s') \<noteq> None \<and> layer4 (layers s') \<noteq> None
          \<and> layer5 (layers s') \<noteq> None))"
proof -
  have h: "(8::nat) \<le> 8" by simp
  have r: "map_option (\<lambda>(out, vis, s', w'). (out, vis, layers s', out_savedFiles (output' s')))
       (Flow_run (sim_services ''Noted.'') (createNoteFlow \<lparr>node_maxRetries = 1, node_wait = 0\<rparr>) 8
        (createInitialState ''note'' None) \<lparr>sim_files = [], sim_room = 5\<rparr>)
     = Some (Inr (),
         [InputDetectorNode, ContentExtractorNode, Layer1CaptureNode, Layer2BoldNode,
          Layer3DistillNode, Layer4SummaryNode, Layer5CreativeNode, FileSaverNode],
         \<lparr>layer1 = Some ''Noted.'', layer2 = Some ''Noted.'', layer3 = Some ''Noted.'',
          layer4 = Some ''Noted.'', layer5 = Some ''Noted.''\<rparr>,
         [''data/notes/20240115-143022_note_level-1.md'',
          ''data/notes/20240115-143022_note_level-2.md'',
          ''data/notes/20240115-143022_note_level-3.md'',
          ''data/notes/20240115-143022_note_level-4.md'',
          ''data/notes/20240115-143022_note_level-5.md''])"
    unfolding sim_flow_run_reply by (simp add: note_chain_def)
  show ?thesis
    by (intro conjI h r
        C4_fields_written_once_in_order [OF h, of "sim_services ''Noted.''"
          "\<lparr>node_maxRetries = 1, node_wait = 0\<rparr>" "createInitialState ''note'' None"
          "\<lparr>sim_files = [], sim_room = 5\<rparr>"])
qed

text \<open>
  C4 (as the specification states it) fails. When the text generation service answers
  with the empty text, the run completes and the slot of layer 1 holds the empty string:
  it is assigned, and it is not non-empty.
\<close>

theorem C4_layer_slot_empty_after_completed_run:
  "map_option fst
     (Flow_run (sim_services []) (createNoteFlow \<lparr>node_maxRetries = 1, node_wait = 0\<rparr>) 8
        (createInitialState ''note'' None) \<lparr>sim_files = [], sim_room = 5\<rparr>) = Some (Inr ())
   \<and> map_option (truthy \<circ> layer1 \<circ> layers \<circ> fst \<circ> snd \<circ> snd)
     (Flow_run (sim_services []) (createNoteFlow \<lparr>node_maxRetries = 1, node_wait = 0\<rparr>) 8
        (createInitialState ''note'' None) \<lparr>sim_files = [], sim_room = 5\<rparr>) = Some False"
  unfolding sim_flow_run_empty_reply by simp

subsection \<open>The retry policy\<close>

text \<open>
  C2 (as the code has it). The input-classification, the content-extraction and the file
  saver node of the constructed flow are constructed without retry arguments: each declares
  the default policy of the engine's node constructor, whatever the processing
  configuration says. The engine stops at the first attempt of execute that succeeds; after
  a failed attempt, if the declared maximum allows another one, it waits the declared
  duration and invokes execute again with the same prepared input, one attempt fewer left;
  the failure of the last attempt is propagated.
\<close>

theorem C2_nodes_carry_the_constructor_default:
  "flow_policy (createNoteFlow dflt) InputDetectorNode = dflt
   \<and> flow_policy (createNoteFlow dflt) ContentExtractorNode = dflt
   \<and> flow_policy (createNoteFlow dflt) FileSaverNode = dflt
   \<and> (ex p w = (Inr r, w') \<longrightarrow> Node_exec svc pol ex p w = (Inr r, w'))
   \<and> (ex p w = (Inl e, w') \<and> 1 < node_maxRetries pol \<longrightarrow>
        Node_exec svc pol ex p w =
          Node_exec svc (pol\<lparr>node_maxRetries := node_maxRetries pol - 1\<rparr>) ex p
            (wait_seconds svc (node_wait pol) w'))
   \<and> (ex p w = (Inl e, w') \<and> node_maxRetries pol \<le> 1 \<longrightarrow>
        Node_exec svc pol ex p w = (Inl e, w'))"
  using flow_policy_createNoteFlow [of dflt] Node_exec_success [of ex p w r w' svc pol]
    Node_exec_retry [of ex p w e w' pol svc] Node_exec_last [of ex p w e w' pol svc]
  by blast

theorem C2_nodes_carry_the_constructor_default_witness:
  "Layer1_exec (sim_services ''x'') (Layer1_prep sim_state3) \<lparr>sim_files = [], sim_room = 5\<rparr>
     = (Inr ''x'', \<lparr>sim_files = [], sim_room = 5\<rparr>)
   \<and> Node_exec (sim_services ''x'') \<lparr>node_maxRetries = 3, node_wait = 2\<rparr>
       (Layer1_exec (sim_services ''x'')) (Layer1_prep sim_state3) \<lparr>sim_files = [], sim_room = 5\<rparr>
     = (Inr ''x'', \<lparr>sim_files = [], sim_room = 5\<rparr>)
   \<and> ContentExtractor_exec (sim_services []) \<lparr>pe_raw = ''http://nowhere.invalid'', pe_type = Url\<rparr>
       \<lparr>sim_files = [], sim_room = 5\<rparr>
     = (Inl (Error None ''Failed to fetch URL content: fetch failed''), \<lparr>sim_files = [], sim_room = 5\<rparr>)
   \<and> (1::nat) < node_maxRetries \<lparr>node_maxRetries = 3, node_wait = 2\<rparr>
   \<and> Node_exec (sim_services []) \<lparr>node_maxRetries = 3, node_wait = 2\<rparr>
       (ContentExtractor_exec (sim_services []))
       \<lparr>pe_raw = ''http://nowhere.invalid'', pe_type = Url\<rparr> \<lparr>sim_files = [], sim_room = 5\<rparr>
     = Node_exec (sim_services []) \<lparr>node_maxRetries = 2, node_wait = 2\<rparr>
       (ContentExtractor_exec (sim_services []))
       \<lparr>pe_raw = ''http://nowhere.invalid'', pe_type = Url\<rparr> \<lparr>sim_files = [], sim_room = 5\<rparr>
   \<and> node_maxRetries \<lparr>node_maxRetries = 1, node_wait = 0\<rparr> \<le> 1
   \<and> Node_exec (sim_services []) \<lparr>node_maxRetries = 1, node_wait = 0\<rparr>
       (ContentExtractor_exec (sim_services []))
       \<lparr>pe_raw = ''http://nowhere.invalid'', pe_type = Url\<rparr> \<lparr>sim_files = [], sim_room = 5\<rparr>
     = (Inl (Error None ''Failed to fetch URL content: fetch failed''), \<lparr>sim_files = [], sim_room = 5\<rparr>)"
proof -
  let ?w = "\<lparr>sim_files = [], sim_room = 5\<rparr>"
  let ?p = "\<lparr>pe_raw = ''http://nowhere.invalid'', pe_type = Url\<rparr>"
  let ?e = "Error None ''Failed to fetch URL content: fetch failed''"
  have a: "Layer1_exec (sim_services ''x'') (Layer1_prep sim_state3) ?w = (Inr ''x'', ?w)"
    by (simp add: Layer1_exec_def sim_services_def)
  have b: "ContentExtractor_exec (sim_services []) ?p ?w = (Inl ?e, ?w)"
    by (simp add: ContentExtractor_exec_def extractFromURL_def rethrow_def sim_services_def)
  have c: "(1::nat) < node_maxRetries \<lparr>node_maxRetries = 3, node_wait = 2\<rparr>" by simp
  have d: "node_maxRetries \<lparr>node_maxRetries = 1, node_wait = 0\<rparr> \<le> 1" by simp
  have ws: "wait_seconds (sim_services []) 2 ?w = ?w" by (simp add: sim_services_def)
  note t1 = C2_nodes_carry_the_constructor_default
    [where ex = "Layer1_exec (sim_services ''x'')" and p = "Layer1_prep sim_state3" and w = ?w
      and r = "''x''" and w' = ?w and svc = "sim_services ''x''"
      and pol = "\<lparr>node_maxRetries = 3, node_wait = 2\<rparr>"]
  note t2 = C2_nodes_carry_the_constructor_default
    [where ex = "ContentExtractor_exec (sim_services [])" and p = ?p and w = ?w
      and e = ?e and w' = ?w and svc = "sim_services []"
      and pol = "\<lparr>node_maxRetries = 3, node_wait = 2\<rparr>"]
  note t3 = C2_nodes_carry_the_constructor_default
    [where ex = "ContentExtractor_exec (sim_services [])" and p = ?p and w = ?w
      and e = ?e and w' = ?w and svc = "sim_services []"
      and pol = "\<lparr>node_maxRetries = 1, node_wait = 0\<rparr>"]
  from t1 a have 1: "Node_exec (sim_services ''x'') \<lparr>node_maxRetries = 3, node_wait = 2\<rparr>
       (Layer1_exec (sim_services ''x'')) (Layer1_prep sim_state3) ?w = (Inr ''x'', ?w)"
    by blast
  from t2 b c have "Node_exec (sim_services []) \<lparr>node_maxRetries = 3, node_wait = 2\<rparr>
       (ContentExtractor_exec (sim_services [])) ?p ?w
     = Node_exec (sim_services [])
         (\<lparr>node_maxRetries = 3, node_wait = 2\<rparr>\<lparr>node_maxRetries :=
            node_maxRetries \<lparr>node_maxRetries = 3, node_wait = 2\<rparr> - 1\<rparr>)
         (ContentExtractor_exec (sim_services [])) ?p
         (wait_seconds (sim_services []) (node_wait \<lparr>node_maxRetries = 3, node_wait = 2\<rparr>) ?w)"
    by blast
  then have 2: "Node_exec (sim_services []) \<lparr>node_maxRetries = 3, node_wait = 2\<rparr>
       (ContentExtractor_exec (sim_services [])) ?p ?w
     = Node_exec (sim_services []) \<lparr>node_maxRetries = 2, node_wait = 2\<rparr>
       (ContentExtractor_exec (sim_services [])) ?p ?w"
    by (simp add: ws)
  from t3 b d have 3: "Node_exec (sim_services []) \<lparr>node_maxRetries = 1, node_wait = 0\<rparr>
       (ContentExtractor_exec (sim_services [])) ?p ?w = (Inl ?e, ?w)"
    by blast
  from a b c d 1 2 3 show ?thesis by blast
qed
text \<open>
  C2 (as the specification states it) fails. With the defaults of the engine's node
  constructor, one attempt and no wait, the policy of the input-classification node of the
  constructed flow is not the configured one, three attempts and two seconds.
\<close>

theorem C2_policy_is_not_the_configured_one:
  "flow_policy (createNoteFlow \<lparr>node_maxRetries = 1, node_wait = 0\<rparr>) InputDetectorNode
     \<noteq> \<lparr>node_maxRetries = maxRetries (cfg_processing defaultConfig),
         node_wait = retryWait (cfg_processing defaultConfig)\<rparr>"
  by (simp add: flow_policy_createNoteFlow defaultConfig_def)


subsection \<open>An input that cannot be fetched\<close>

lemma extractFromURL_unresolvable:
  assumes "\<forall>w. \<exists>e. fst (fetch svc raw w) = Inl e"
  shows "\<exists>e. fst (ContentExtractor_exec svc \<lparr>pe_raw = raw, pe_type = Url\<rparr> w) = Inl e"
proof -
  from assms obtain e where "fst (fetch svc raw w) = Inl e" by blast
  then obtain w' where "fetch svc raw w = (Inl e, w')" by (cases "fetch svc raw w") simp
  then show ?thesis
    by (simp add: ContentExtractor_exec_def extractFromURL_def)
qed

text \<open>
  C7. Let the trimmed raw input be classified as a URL, and let fetching the raw input fail
  in every state of the world. Then the classification returns \<^verbatim>\<open>url\<close>; the execute
  phase of the extraction fails at every attempt; and the run, started in the initial
  state with fuel for two nodes, is aborted at the content-extraction node after the input
  detector and the content extractor only, so before any layer node: the world is the one
  the extraction attempts left, the list of saved paths is empty and no layer slot is
  assigned.
\<close>

theorem C7_unresolvable_url_aborts_before_layers:
  assumes "isUrl svc (trim raw)"
    and "\<forall>w. \<exists>e. fst (fetch svc raw w) = Inl e"
    and "2 \<le> fuel"
  shows "InputDetector_exec svc raw w = (Inr Url, w)
     \<and> (\<forall>w1. \<exists>e. fst (ContentExtractor_exec svc \<lparr>pe_raw = raw, pe_type = Url\<rparr> w1) = Inl e)
     \<and> (\<exists>e s'.
          Flow_run svc (createNoteFlow dflt) fuel (createInitialState raw opts) w =
            Some (Inl (ContentExtractorNode, e), [InputDetectorNode, ContentExtractorNode], s',
                  snd (Node_exec svc dflt (ContentExtractor_exec svc)
                         \<lparr>pe_raw = raw, pe_type = Url\<rparr> w))
          \<and> input_type (input s') = Some Url
          \<and> out_savedFiles (output' s') = []
          \<and> layers s' = \<lparr>layer1 = None, layer2 = None, layer3 = None, layer4 = None,
                           layer5 = None\<rparr>)"
proof -
  let ?s0 = "createInitialState raw opts"
  let ?s1 = "?s0\<lparr>input := (input ?s0)\<lparr>input_type := Some Url\<rparr>\<rparr>"
  let ?p = "\<lparr>pe_raw = raw, pe_type = Url\<rparr>"
  let ?fl = "createNoteFlow dflt"
  have raw: "input_raw (input ?s0) = raw" by (simp add: createInitialState_def)
  have det: "InputDetector_exec svc raw w = (Inr Url, w)"
    using assms(1) by (simp add: InputDetector_exec_def)
  have ex: "\<forall>w1. \<exists>e. fst (ContentExtractor_exec svc ?p w1) = Inl e"
    using extractFromURL_unresolvable [OF assms(2)] by blast
  from Node_exec_all_fail [where ex = "ContentExtractor_exec svc" and p = ?p and svc = svc
      and pol = dflt and w = w, OF ex]
  obtain e where "fst (Node_exec svc dflt (ContentExtractor_exec svc) ?p w) = Inl e"
    by blast
  then obtain w2 where ne: "Node_exec svc dflt (ContentExtractor_exec svc) ?p w = (Inl e, w2)"
    by (cases "Node_exec svc dflt (ContentExtractor_exec svc) ?p w") simp
  then have w2: "snd (Node_exec svc dflt (ContentExtractor_exec svc) ?p w) = w2" by simp
  have n1: "run_node svc ?fl InputDetectorNode ?s0 w = (Inr ''url'', ?s1, w)"
    by (simp add: run_InputDetector_eval raw det)
  have prep: "ContentExtractor_prep ?s1 = ?p"
    by (simp add: ContentExtractor_prep_def createInitialState_def)
  have n2: "run_node svc ?fl ContentExtractorNode ?s1 w = (Inl e, ?s1, w2)"
    using ne by (simp add: run_ContentExtractor prep flow_policy_createNoteFlow)
  have rc: "run_chain (run_node svc ?fl) note_chain ?s0 w =
      (Inl (ContentExtractorNode, e), [InputDetectorNode, ContentExtractorNode], ?s1, w2)"
    by (simp add: note_chain_def n1 n2)
  then have "length (fst (snd (run_chain (run_node svc ?fl) note_chain ?s0 w))) \<le> fuel"
    using assms(3) by simp
  from Flow_run_note_chain [OF this] rc
  have fr: "Flow_run svc ?fl fuel ?s0 w =
      Some (Inl (ContentExtractorNode, e), [InputDetectorNode, ContentExtractorNode], ?s1, w2)"
    by simp
  have st: "input_type (input ?s1) = Some Url \<and> out_savedFiles (output' ?s1) = []
      \<and> layers ?s1 = \<lparr>layer1 = None, layer2 = None, layer3 = None, layer4 = None, layer5 = None\<rparr>"
    by (simp add: createInitialState_def)
  from det ex fr st show ?thesis unfolding w2 by blast
qed

theorem C7_unresolvable_url_aborts_before_layers_witness:
  "isUrl (sim_services []) (trim ''https://nowhere.invalid/x'')
   \<and> fetch (sim_services []) ''https://nowhere.invalid/x'' \<lparr>sim_files = [], sim_room = 5\<rparr>
       = (Inl (Error (Some ''ENOTFOUND'') ''fetch failed''), \<lparr>sim_files = [], sim_room = 5\<rparr>)
   \<and> (2::nat) \<le> 8
   \<and> (\<exists>e s'.
          Flow_run (sim_services []) (createNoteFlow \<lparr>node_maxRetries = 3, node_wait = 2\<rparr>) 8
            (createInitialState ''https://nowhere.invalid/x'' None) \<lparr>sim_files = [], sim_room = 5\<rparr> =
            Some (Inl (ContentExtractorNode, e), [InputDetectorNode, ContentExtractorNode], s',
                  snd (Node_exec (sim_services []) \<lparr>node_maxRetries = 3, node_wait = 2\<rparr>
                         (ContentExtractor_exec (sim_services []))
                         \<lparr>pe_raw = ''https://nowhere.invalid/x'', pe_type = Url\<rparr>
                         \<lparr>sim_files = [], sim_room = 5\<rparr>))
          \<and> input_type (input s') = Some Url
          \<and> out_savedFiles (output' s') = []
          \<and> layers s' = \<lparr>layer1 = None, layer2 = None, layer3 = None, layer4 = None,
                           layer5 = None\<rparr>)"
proof -
  have h1: "isUrl (sim_services []) (trim ''https://nowhere.invalid/x'')"
    by (simp add: isUrl_def regex_http_scheme_def toUpperCase_ascii_def trim_def
        isWhitespace_def sim_services_def)
  have f: "fetch (sim_services []) u w1 = (Inl (Error (Some ''ENOTFOUND'') ''fetch failed''), w1)"
    for u w1
    by (simp add: sim_services_def)
  then have h2: "\<forall>w. \<exists>e. fst (fetch (sim_services []) ''https://nowhere.invalid/x'' w) = Inl e"
    by simp
  have h3: "(2::nat) \<le> 8" by simp
  from C7_unresolvable_url_aborts_before_layers [OF h1 h2 h3] h1 f h3
  show ?thesis by blast
qed

end
